(* ===== verification/Prelude.thy ===== *)
theory Prelude
  imports Main "HOL-Library.AList" "HOL-Library.Char_ord" "HOL-Library.List_Lexorder"
    "HOL-Library.Sublist"
begin

text \<open>
  Shared vocabulary of the development.

  \<^item> Programs that read and write state and may raise are functions
    \<open>'s \<Rightarrow> ('e + 'a) \<times> 's\<close> (\<open>pgm\<close>): the state survives an exception, as Python objects
    do, so a handler sees whatever was mutated before the raise.
  \<^item> Python dictionaries are association lists (\<open>dict\<close>): insertion order is kept,
    \<open>AList.update\<close> is item assignment, \<open>dict_merge a b\<close> is \<open>{**a, **b}\<close>.
  \<^item> Strings, decimal numerals and the few string operations the code uses.
  \<^item> The locale \<open>step_frame\<close>: a reflexive and transitive relation between the states before
    and after a program is respected by a whole program when its primitive steps respect it.
\<close>

named_theorems pgm_simps \<open>equations that run a program one step\<close>
named_theorems dict_simps \<open>lookups in updated and merged dictionaries\<close>

subsection \<open>Programs: state and exceptions\<close>

type_synonym ('s, 'e, 'a) pgm = "'s \<Rightarrow> ('e + 'a) \<times> 's"

definition pret :: "'a \<Rightarrow> ('s, 'e, 'a) pgm" where
  "pret x s = (Inr x, s)"

definition praise :: "'e \<Rightarrow> ('s, 'e, 'a) pgm" where
  "praise e s = (Inl e, s)"

definition pbind :: "('s, 'e, 'a) pgm \<Rightarrow> ('a \<Rightarrow> ('s, 'e, 'b) pgm) \<Rightarrow> ('s, 'e, 'b) pgm" where
  "pbind m f s = (case m s of (Inl e, s') \<Rightarrow> (Inl e, s') | (Inr x, s') \<Rightarrow> f x s')"

definition pthen :: "('s, 'e, 'a) pgm \<Rightarrow> ('s, 'e, 'b) pgm \<Rightarrow> ('s, 'e, 'b) pgm" where
  "pthen m n = pbind m (\<lambda>_. n)"

definition pget :: "('s \<Rightarrow> 'a) \<Rightarrow> ('s, 'e, 'a) pgm" where
  "pget f s = (Inr (f s), s)"

definition pmodify :: "('s \<Rightarrow> 's) \<Rightarrow> ('s, 'e, unit) pgm" where
  "pmodify f s = (Inr (), f s)"

definition plift :: "'e + 'a \<Rightarrow> ('s, 'e, 'a) pgm" where
  "plift r s = (r, s)"

definition ptry :: "('s, 'e, 'a) pgm \<Rightarrow> ('e \<Rightarrow> ('s, 'e, 'a) pgm) \<Rightarrow> ('s, 'e, 'a) pgm" where
  "ptry m h s = (case m s of (Inl e, s') \<Rightarrow> h e s' | (Inr x, s') \<Rightarrow> (Inr x, s'))"

definition pguard :: "bool \<Rightarrow> 'e \<Rightarrow> ('s, 'e, unit) pgm" where
  "pguard b e = (if b then pret () else praise e)"

fun for_each :: "('a \<Rightarrow> ('s, 'e, unit) pgm) \<Rightarrow> 'a list \<Rightarrow> ('s, 'e, unit) pgm" where
  "for_each f [] = pret ()"
| "for_each f (x # xs) = pthen (f x) (for_each f xs)"

lemma pret_run [simp, pgm_simps]: "pret x s = (Inr x, s)"
  by (simp add: pret_def)

lemma praise_run [simp, pgm_simps]: "praise e s = (Inl e, s)"
  by (simp add: praise_def)

lemma pget_run [simp, pgm_simps]: "pget f s = (Inr (f s), s)"
  by (simp add: pget_def)

lemma pmodify_run [simp, pgm_simps]: "pmodify f s = (Inr (), f s)"
  by (simp add: pmodify_def)

lemma plift_run [simp, pgm_simps]: "plift r s = (r, s)"
  by (simp add: plift_def)

lemma pguard_run [simp, pgm_simps]:
  "pguard b e s = (if b then (Inr (), s) else (Inl e, s))"
  by (simp add: pguard_def)

lemma pbind_Inr [simp, pgm_simps]: "m s = (Inr x, s') \<Longrightarrow> pbind m f s = f x s'"
  by (simp add: pbind_def)

lemma pbind_Inl [simp, pgm_simps]: "m s = (Inl e, s') \<Longrightarrow> pbind m f s = (Inl e, s')"
  by (simp add: pbind_def)

lemma pthen_Inr [simp, pgm_simps]: "m s = (Inr x, s') \<Longrightarrow> pthen m n s = n s'"
  by (simp add: pthen_def)

lemma pthen_Inl [simp, pgm_simps]: "m s = (Inl e, s') \<Longrightarrow> pthen m n s = (Inl e, s')"
  by (simp add: pthen_def)

lemma pbind_run: "pbind m f s = (case m s of (Inl e, s') \<Rightarrow> (Inl e, s') | (Inr x, s') \<Rightarrow> f x s')"
  by (simp add: pbind_def)

lemma pthen_run: "pthen m n s = (case m s of (Inl e, s') \<Rightarrow> (Inl e, s') | (Inr x, s') \<Rightarrow> n s')"
  by (simp add: pthen_def pbind_def)

lemma pbind_InrE:
  assumes "pbind m f s = (Inr y, t)"
  obtains x s' where "m s = (Inr x, s')" and "f x s' = (Inr y, t)"
  using assms by (auto simp: pbind_def split: prod.splits sum.splits)

lemma pbind_InlE:
  assumes "pbind m f s = (Inl e, t)"
  obtains "m s = (Inl e, t)" | x s' where "m s = (Inr x, s')" and "f x s' = (Inl e, t)"
  using assms by (auto simp: pbind_def split: prod.splits sum.splits)

lemma pthen_InrE:
  assumes "pthen m n s = (Inr y, t)"
  obtains x s' where "m s = (Inr x, s')" and "n s' = (Inr y, t)"
  using assms by (auto simp: pthen_def elim!: pbind_InrE)

lemma pthen_InlE:
  assumes "pthen m n s = (Inl e, t)"
  obtains "m s = (Inl e, t)" | x s' where "m s = (Inr x, s')" and "n s' = (Inl e, t)"
  using assms by (auto simp: pthen_def elim!: pbind_InlE)

lemma for_each_append:
  "for_each f (xs @ ys) = pthen (for_each f xs) (for_each f ys)"
proof (rule ext)
  fix s
  show "for_each f (xs @ ys) s = pthen (for_each f xs) (for_each f ys) s"
    by (induction xs arbitrary: s) (auto simp: pthen_run split: prod.splits sum.splits)
qed

lemma for_each_plift_state [simp]: "snd (for_each (\<lambda>x. plift (f x)) xs s) = s"
  by (induction xs) (auto simp: pthen_run split: sum.splits)

lemma for_each_plift_cases:
  "for_each (\<lambda>x. plift (f x)) xs s = (r, s') \<Longrightarrow> s' = s"
  using for_each_plift_state [of f xs s] by simp

text \<open>The value of a result, if it is one.\<close>

definition projr_option :: "'e + 'a \<Rightarrow> 'a option" where
  "projr_option r = (case r of Inl e \<Rightarrow> None | Inr x \<Rightarrow> Some x)"

lemma projr_option_simps [simp]:
  "projr_option (Inl e) = None" "projr_option (Inr x) = Some x"
  by (simp_all add: projr_option_def)

subsection \<open>Results\<close>

text \<open>
  Code that may raise but touches no state is a value of \<open>'e + 'a\<close>: \<open>rbind\<close> goes on with the
  result unless there is an exception, \<open>rmap\<close> is a comprehension whose body may raise.
\<close>

definition rbind :: "'e + 'a \<Rightarrow> ('a \<Rightarrow> 'e + 'b) \<Rightarrow> 'e + 'b" where
  "rbind r f = (case r of Inl e \<Rightarrow> Inl e | Inr x \<Rightarrow> f x)"

fun rmap :: "('a \<Rightarrow> 'e + 'b) \<Rightarrow> 'a list \<Rightarrow> 'e + 'b list" where
  "rmap f [] = Inr []"
| "rmap f (x # xs) = rbind (f x) (\<lambda>y. rbind (rmap f xs) (\<lambda>ys. Inr (y # ys)))"

lemma rbind_simps [simp]: "rbind (Inl e) f = Inl e" "rbind (Inr x) f = f x"
  by (simp_all add: rbind_def)

lemma rbind_Inr_iff: "rbind r f = Inr y \<longleftrightarrow> (\<exists>x. r = Inr x \<and> f x = Inr y)"
  by (cases r) simp_all

lemma rbind_Inl_iff: "rbind r f = Inl e \<longleftrightarrow> r = Inl e \<or> (\<exists>x. r = Inr x \<and> f x = Inl e)"
  by (cases r) simp_all

lemma rbind_cong [fundef_cong]:
  "r = r' \<Longrightarrow> (\<And>x. r' = Inr x \<Longrightarrow> f x = g x) \<Longrightarrow> rbind r f = rbind r' g"
  by (cases r') simp_all

lemma rmap_Inr_iff: "rmap f xs = Inr ys \<longleftrightarrow> list_all2 (\<lambda>x y. f x = Inr y) xs ys"
  by (induction xs arbitrary: ys) (auto simp: rbind_Inr_iff list_all2_Cons1)

lemma rmap_length: "rmap f xs = Inr ys \<Longrightarrow> length ys = length xs"
  by (auto simp: rmap_Inr_iff dest: list_all2_lengthD)

subsection \<open>Relations a program keeps\<close>

text \<open>
  \<open>keeps R m\<close>: whatever \<open>m\<close> does, return or raise, the state after it is related by \<open>R\<close>
  to the state before it. \<open>step_frame\<close> is the contract that makes this compositional.
\<close>

definition keeps :: "('s \<Rightarrow> 's \<Rightarrow> bool) \<Rightarrow> ('s, 'e, 'a) pgm \<Rightarrow> bool" where
  "keeps R m \<longleftrightarrow> (\<forall>s. R s (snd (m s)))"

lemma keepsI: "(\<And>s r s'. m s = (r, s') \<Longrightarrow> R s s') \<Longrightarrow> keeps R m"
  by (metis keeps_def prod.collapse)

lemma keepsD: "keeps R m \<Longrightarrow> m s = (r, s') \<Longrightarrow> R s s'"
  by (metis keeps_def snd_conv)

locale step_frame =
  fixes R :: "'s \<Rightarrow> 's \<Rightarrow> bool"
  assumes refl: "R s s"
    and trans: "R s t \<Longrightarrow> R t u \<Longrightarrow> R s u"
begin

lemma pure_step: "keeps R (pret x)" "keeps R (praise e)" "keeps R (pget f)"
  "keeps R (plift r)" "keeps R (pguard b e)"
  by (simp_all add: keeps_def refl)

lemma modify_step: "(\<And>s. R s (f s)) \<Longrightarrow> keeps R (pmodify f)"
  by (simp add: keeps_def)

lemma bind_step:
  assumes "keeps R m" and "\<And>x. keeps R (f x)"
  shows "keeps R (pbind m f)"
proof (rule keepsI)
  fix s r s'
  assume run: "pbind m f s = (r, s')"
  obtain r1 s1 where m: "m s = (r1, s1)" by fastforce
  have "R s s1" using assms(1) m by (rule keepsD)
  moreover have "R s1 s'"
    using run m assms(2) refl by (cases r1) (auto dest: keepsD)
  ultimately show "R s s'" by (rule trans)
qed

lemma then_step: "keeps R m \<Longrightarrow> keeps R n \<Longrightarrow> keeps R (pthen m n)"
  by (simp add: pthen_def bind_step)

lemma try_step:
  assumes "keeps R m" and "\<And>e. keeps R (h e)"
  shows "keeps R (ptry m h)"
proof (rule keepsI)
  fix s r s'
  assume run: "ptry m h s = (r, s')"
  obtain r1 s1 where m: "m s = (r1, s1)" by fastforce
  have "R s s1" using assms(1) m by (rule keepsD)
  moreover have "R s1 s'"
    using run m assms(2) refl by (cases r1) (auto simp: ptry_def dest: keepsD)
  ultimately show "R s s'" by (rule trans)
qed

lemma if_step: "keeps R m \<Longrightarrow> keeps R n \<Longrightarrow> keeps R (if b then m else n)"
  by simp

lemma for_each_step:
  assumes "\<And>x. x \<in> set xs \<Longrightarrow> keeps R (f x)"
  shows "keeps R (for_each f xs)"
  using assms by (induction xs) (auto intro: then_step pure_step)

lemmas steps = pure_step modify_step bind_step then_step try_step if_step

end

subsection \<open>Codecs\<close>

text \<open>
  A value written in one form and read back from it. The contract is the round trip; what a
  client may use is that the encoding loses nothing.
\<close>

locale codec =
  fixes enc :: "'a \<Rightarrow> 'w" and dcd :: "'w \<Rightarrow> 'a option"
  assumes round_trip: "dcd (enc x) = Some x"
begin

lemma enc_inj: "enc x = enc y \<longleftrightarrow> x = y"
  by (metis option.inject round_trip)

lemma dcd_map: "map (the \<circ> dcd) (map enc xs) = xs"
  by (induction xs) (simp_all add: round_trip)

end

subsection \<open>Dictionaries\<close>

type_synonym ('k, 'v) dict = "('k \<times> 'v) list"

abbreviation dict_set :: "'k \<Rightarrow> 'v \<Rightarrow> ('k, 'v) dict \<Rightarrow> ('k, 'v) dict" where
  "dict_set \<equiv> AList.update"

definition dict_keys :: "('k, 'v) dict \<Rightarrow> 'k list" where
  "dict_keys d = map fst d"

definition dict_has :: "('k, 'v) dict \<Rightarrow> 'k \<Rightarrow> bool" where
  "dict_has d k \<longleftrightarrow> map_of d k \<noteq> None"

text \<open>\<open>{**a, **b}\<close>: keys of \<open>a\<close> keep their place, \<open>b\<close> wins, new keys are appended.\<close>

definition dict_merge :: "('k, 'v) dict \<Rightarrow> ('k, 'v) dict \<Rightarrow> ('k, 'v) dict" where
  "dict_merge a b =
     map (\<lambda>(k, v). (k, case map_of b k of None \<Rightarrow> v | Some w \<Rightarrow> w)) a
     @ filter (\<lambda>(k, v). map_of a k = None) b"

lemma map_of_dict_set [simp, dict_simps]:
  "map_of (dict_set k v d) = (map_of d)(k \<mapsto> v)"
  by (rule update_conv')

lemma map_of_overlay:
  "map_of (map (\<lambda>(k, v). (k, case map_of b k of None \<Rightarrow> v | Some w \<Rightarrow> w)) a) x =
     (case map_of a x of None \<Rightarrow> None
      | Some v \<Rightarrow> Some (case map_of b x of None \<Rightarrow> v | Some w \<Rightarrow> w))"
  by (induction a) (auto split: option.splits)

lemma map_of_filter_fresh:
  "map_of (filter (\<lambda>(k, v). map_of a k = None) b) x = (if map_of a x = None then map_of b x else None)"
  by (induction b) auto

lemma map_of_dict_merge [simp, dict_simps]:
  "map_of (dict_merge a b) = map_of a ++ map_of b"
  by (rule ext)
    (auto simp: dict_merge_def map_of_append map_add_def map_of_overlay map_of_filter_fresh
      split: option.splits)

lemma dict_merge_Nil [simp]: "dict_merge a [] = a" "dict_merge [] b = b"
  by (auto simp: dict_merge_def split_beta)

lemma map_add_absorb [simp]: "m ++ n ++ n = m ++ n"
  by (rule ext) (simp add: map_add_def split: option.splits)

lemma snd_set_dict_merge: "p \<in> set (dict_merge a b) \<Longrightarrow> snd p \<in> snd ` set a \<union> snd ` set b"
  by (force simp: dict_merge_def split: option.splits dest: map_of_SomeD)

lemma dict_has_iff [simp]: "dict_has d k \<longleftrightarrow> k \<in> dom (map_of d)"
  by (auto simp: dict_has_def)

lemma set_dict_keys [simp]: "set (dict_keys d) = dom (map_of d)"
  by (simp add: dict_keys_def dom_map_of_conv_image_fst)

text \<open>\<open>sorted(set(...))\<close>: ascending and without duplicates.\<close>

definition sorted_set :: "'a :: linorder list \<Rightarrow> 'a list" where
  "sorted_set xs = sort (remdups xs)"

lemma set_sorted_set [simp]: "set (sorted_set xs) = set xs"
  by (simp add: sorted_set_def)

lemma sorted_sorted_set: "sorted (sorted_set xs)" "distinct (sorted_set xs)"
  by (simp_all add: sorted_set_def)

lemma sorted_set_empty [simp]: "sorted_set xs = [] \<longleftrightarrow> xs = []"
  by (metis set_empty set_sorted_set)

subsection \<open>Overlaid pointer maps\<close>

text \<open>
  The interface through which table operations see a catalog: looking a table up, putting a
  new location for it, and starting over from a given map. The client's lemmas say what a
  sequence of puts amounts to.
\<close>

locale pointer_overlay =
  fixes look :: "'c \<Rightarrow> 'k \<Rightarrow> 'v option"
    and put :: "'k \<Rightarrow> 'v \<Rightarrow> 'c \<Rightarrow> 'c"
    and reset :: "('k, 'v) dict \<Rightarrow> 'c \<Rightarrow> 'c"
  assumes look_put: "look (put k v c) = (look c)(k \<mapsto> v)"
    and look_reset: "look (reset d c) = map_of d"
begin

lemma look_puts: "look (fold (\<lambda>(k, v). put k v) us c) = look c ++ map_of (rev us)"
  by (induction us arbitrary: c) (auto simp: look_put map_add_upd_left fun_eq_iff map_add_def
      split: option.splits)

lemma look_puts_reset: "look (fold (\<lambda>(k, v). put k v) us (reset d c)) = map_of d ++ map_of (rev us)"
  by (simp add: look_puts look_reset)

lemma look_put_other: "k \<noteq> k' \<Longrightarrow> look (put k' v c) k = look c k"
  by (simp add: look_put)

end

subsection \<open>Strings\<close>

definition rstrip_slash :: "string \<Rightarrow> string" where
  "rstrip_slash s = rev (dropWhile (\<lambda>c. c = CHR ''/'') (rev s))"

lemma rstrip_slash_idem [simp]: "rstrip_slash (rstrip_slash s) = rstrip_slash s"
  by (simp add: rstrip_slash_def)

definition digit_char :: "nat \<Rightarrow> char" where
  "digit_char d = char_of (48 + d)"

fun dec :: "nat \<Rightarrow> string" where
  "dec n = (if n < 10 then [digit_char n] else dec (n div 10) @ [digit_char (n mod 10)])"

declare dec.simps [simp del]

definition dec_int :: "int \<Rightarrow> string" where
  "dec_int i = (if i < 0 then CHR ''-'' # dec (nat (- i)) else dec (nat i))"

text \<open>\<open>int(s)\<close> of a numeral of decimal digits.\<close>

definition undec :: "string \<Rightarrow> nat option" where
  "undec s =
     (if s \<noteq> [] \<and> list_all (\<lambda>c. 48 \<le> (of_char c :: nat) \<and> of_char c \<le> (57 :: nat)) s
      then Some (foldl (\<lambda>n c. 10 * n + (of_char c - 48)) 0 s) else None)"

text \<open>Python's \<open>f"{n:05d}"\<close>.\<close>

definition dec05 :: "nat \<Rightarrow> string" where
  "dec05 n = (let s = dec n in replicate (5 - length s) (CHR ''0'') @ s)"

lemma digit_char_inj: "d < 10 \<Longrightarrow> e < 10 \<Longrightarrow> digit_char d = digit_char e \<Longrightarrow> d = e"
proof -
  assume d: "d < 10" and e: "e < 10" and "digit_char d = digit_char e"
  then have "of_char (char_of (48 + d)) = (of_char (char_of (48 + e)) :: nat)"
    by (simp only: digit_char_def)
  with d e show "d = e" by simp
qed

lemma dec_nonempty [simp]: "dec n \<noteq> []" "[] \<noteq> dec n"
  by (simp_all add: dec.simps [of n])

lemma dec_digits: "list_all (\<lambda>c. 48 \<le> (of_char c :: nat) \<and> of_char c \<le> (57 :: nat)) (dec n)"
proof (induction n rule: dec.induct)
  case (1 n)
  moreover have "n mod 10 \<le> 9" using mod_less_divisor [of 10 n] by linarith
  ultimately show ?case by (subst dec.simps) (simp add: digit_char_def)
qed

lemma slash_dec [simp]: "CHR ''/'' \<notin> set (dec n)"
  using dec_digits [of n] by (auto simp: list_all_iff)

lemma undec_dec [simp]: "undec (dec n) = Some n"
proof -
  have "foldl (\<lambda>n c. 10 * n + (of_char c - 48)) 0 (dec n) = n"
  proof (induction n rule: dec.induct)
    case (1 n)
    then show ?case by (subst dec.simps) (simp add: digit_char_def)
  qed
  then show ?thesis using dec_digits [of n] by (simp add: undec_def)
qed

interpretation decimal: codec dec undec
  by unfold_locales simp

lemma dec_inj: "dec m = dec n \<longleftrightarrow> m = n"
proof
  show "dec m = dec n \<Longrightarrow> m = n"
  proof (induction m arbitrary: n rule: dec.induct)
    case (1 m)
    show ?case
    proof (cases "m < 10")
      case True
      then show ?thesis
        using "1.prems" by (cases "n < 10") (auto simp: dec.simps [of m] dec.simps [of n] digit_char_inj)
    next
      case False
      then have big: "\<not> n < 10"
        using "1.prems" by (auto simp: dec.simps [of m] dec.simps [of n])
      with False "1.prems" have "dec (m div 10) = dec (n div 10)"
        and "digit_char (m mod 10) = digit_char (n mod 10)"
        by (auto simp: dec.simps [of m] dec.simps [of n])
      with False "1.IH" have "m div 10 = n div 10" and "m mod 10 = n mod 10"
        by (auto intro: digit_char_inj)
      then show ?thesis by (metis div_mult_mod_eq)
    qed
  qed
qed simp

end
