(* ===== verification/Errors.thy ===== *)
theory Errors
  imports Prelude
begin

text \<open>
  The exceptions of the program. \<open>src/icechest/errors.py\<close> defines the two that mean
  "nothing was published, re-plan"; the rest are Python's, PyIceberg's and icechunk's own,
  with the data the code puts in them in place of the formatted message.
  An exception that a library raises and the code lets through is \<open>LibError\<close> with its text.
\<close>

subsection \<open>Row predicates\<close>

text \<open>\<open>str | BooleanExpression\<close>: text still to be parsed, or an expression object.\<close>

datatype 'b predicate = PText string | PExpr 'b

subsection \<open>Exceptions\<close>

datatype value_error =
    NoChanges string
  | WrongBranch string string
  | NotExactlyOneRef
  | MalformedStore string string
  | NotDistributionHref string
  | NotProtectedBucket string
  | UnknownAccess string
  | NoBearerToken
  | NullBbox nat
  | FieldIdCollision int
  | NotATiff
  | UnsupportedVersion nat
  | NegativeShift

datatype 'b exn =
    TableConflictError (conflict_table: string) (conflict_predicate: "'b predicate")
      (conflict_snapshot_ids: "int list")
  | UnreplayableChangeError (unreplayable_tables: "string list")
  | NoSuchTableError string
  | TableAlreadyExistsError string
  | NotImplementedError string
  | ValueError value_error
  | KeyError string "string list"
  | TypeError
  | AttributeError
  | IndexError
  | AssertionError
  | ConflictError
  | GranuleError string
  | BatchFailed nat "(string, string) dict"
  | LibError string

text \<open>\<open>IcechestError\<close> is the base class of exactly the two errors of \<open>errors.py\<close>.\<close>

fun is_icechest_error :: "'b exn \<Rightarrow> bool" where
  "is_icechest_error (TableConflictError t p ids) = True"
| "is_icechest_error (UnreplayableChangeError ts) = True"
| "is_icechest_error _ = False"

text \<open>
  Their messages. \<open>repr\<close> of a string and of a predicate are parameters; a list's is its elements'
  between brackets.
\<close>

fun join_with :: "string \<Rightarrow> string list \<Rightarrow> string" where
  "join_with sep [] = []"
| "join_with sep [x] = x"
| "join_with sep (x # y # ys) = x @ sep @ join_with sep (y # ys)"

definition list_text :: "string list \<Rightarrow> string" where
  "list_text xs = ''['' @ join_with '', '' xs @ '']''"

definition conflict_text ::
    "(string \<Rightarrow> string) \<Rightarrow> ('b predicate \<Rightarrow> string) \<Rightarrow> string \<Rightarrow> 'b predicate \<Rightarrow> int list \<Rightarrow> string" where
  "conflict_text repr_str repr_predicate tbl p snapshot_ids =
     ''Cannot replay the operation on table '' @ repr_str tbl @ '': another writer added rows matching ''
     @ repr_predicate p @ '' in snapshots '' @ list_text (map dec_int snapshot_ids)
     @ ''. Nothing was published; re-plan against the current tip and retry.''"

definition unreplayable_text :: "(string \<Rightarrow> string) \<Rightarrow> string list \<Rightarrow> string" where
  "unreplayable_text repr_str tables =
     ''Tables '' @ list_text (map repr_str tables) @ '' have staged changes this transaction cannot ''
     @ ''replay onto another writer's version, so recovering from the conflict would silently discard them. ''
     @ ''Record table work with tx.append(), tx.delete() or tx.overwrite() rather than calling the ''
     @ ''catalog directly.''"

text \<open>A library result whose error is let through.\<close>

definition lib_result :: "string + 'a \<Rightarrow> 'b exn + 'a" where
  "lib_result r = (case r of Inl e \<Rightarrow> Inl (LibError e) | Inr x \<Rightarrow> Inr x)"

lemma lib_result_simps [simp]:
  "lib_result (Inl e) = Inl (LibError e)" "lib_result (Inr x) = Inr x"
  by (simp_all add: lib_result_def)

lemma lib_result_InrD: "lib_result r = Inr x \<Longrightarrow> r = Inr x"
  by (auto simp: lib_result_def split: sum.splits)

end
