(* ===== verification/Json.thy ===== *)
theory Json
  imports Prelude
begin

text \<open>
  The JSON-like Python values found in Zarr attributes and STAC records. \<open>'f\<close> is the type of
  floating-point numbers, left abstract. Objects are association lists in insertion order;
  \<open>json_eq\<close> is Python's \<open>==\<close> on such values, which ignores the order of an object's keys.
  (Python also equates \<open>1\<close>, \<open>1.0\<close> and \<open>True\<close>; no comparison of the program meets that case.)
\<close>

datatype 'f json =
    JNull
  | JBool bool
  | JInt int
  | JFloat 'f
  | JStr string
  | JList "'f json list"
  | JObj "(string \<times> 'f json) list"

lemma json_size_map_of:
  "Some v = map_of d k \<Longrightarrow> size v \<le> size_list (size_prod (\<lambda>_. 0) size) d"
  by (induction d) (auto split: if_splits)

function json_eq :: "'f json \<Rightarrow> 'f json \<Rightarrow> bool" where
  "json_eq x y =
     (case (x, y) of
        (JList xs, JList ys) \<Rightarrow> list_all2 json_eq xs ys
      | (JObj d, JObj e) \<Rightarrow>
          set (map fst d) = set (map fst e) \<and>
          (\<forall>k \<in> set (map fst d).
             case (map_of d k, map_of e k) of
               (Some v, Some w) \<Rightarrow> json_eq v w
             | _ \<Rightarrow> False)
      | _ \<Rightarrow> x = y)"
  by pat_completeness auto
termination
  by (relation "measure (\<lambda>(x, y). size x)")
    (auto intro: json_size_map_of simp: less_Suc_eq_le size_list_estimation')

declare json_eq.simps [simp del]

text \<open>Truthiness, as \<open>x or default\<close> and \<open>if x\<close> use it.\<close>

fun json_truthy :: "('f :: zero) json \<Rightarrow> bool" where
  "json_truthy JNull = False"
| "json_truthy (JBool b) = b"
| "json_truthy (JInt i) = (i \<noteq> 0)"
| "json_truthy (JFloat f) = (f \<noteq> 0)"
| "json_truthy (JStr s) = (s \<noteq> [])"
| "json_truthy (JList xs) = (xs \<noteq> [])"
| "json_truthy (JObj d) = (d \<noteq> [])"

text \<open>Every object inside the value has distinct keys: what a Python dict guarantees.\<close>

fun json_wf :: "'f json \<Rightarrow> bool" where
  "json_wf (JList xs) = (\<forall>x \<in> set xs. json_wf x)"
| "json_wf (JObj d) = (distinct (map fst d) \<and> (\<forall>p \<in> set d. json_wf (snd p)))"
| "json_wf _ = True"

lemma json_eq_refl [simp]: "json_eq x x"
proof (induction x)
  case (JList xs)
  then show ?case by (simp add: json_eq.simps [of "JList xs"] list_all2_same)
next
  case (JObj d)
  have "case (map_of d k, map_of d k) of (Some v, Some w) \<Rightarrow> json_eq v w | _ \<Rightarrow> False"
    if k: "k \<in> set (map fst d)" for k
  proof -
    from k obtain v where v: "map_of d k = Some v"
      by (metis list.set_map map_of_eq_None_iff not_None_eq)
    then have "(k, v) \<in> set d" by (rule map_of_SomeD)
    then have "json_eq v v" by (rule JObj) (simp add: snds.simps)
    with v show ?thesis by simp
  qed
  then show ?case by (simp add: json_eq.simps [of "JObj d"])
qed (simp_all add: json_eq.simps)

lemma json_eq_JObj: "map_of d = map_of e \<Longrightarrow> json_eq (JObj d) (JObj e)"
proof -
  assume same: "map_of d = map_of e"
  have "json_eq (JObj d) (JObj d)" by simp
  moreover have "set (map fst d) = set (map fst e)"
    using same by (metis dom_map_of_conv_image_fst list.set_map)
  ultimately show ?thesis
    using same by (simp only: json_eq.simps [of "JObj d"] prod.case json.case simp_thms)
qed

lemma json_eq_JStr [simp]:
  "json_eq (JStr a) (JStr b) \<longleftrightarrow> a = b" "json_eq v (JStr b) \<longleftrightarrow> v = JStr b"
  by (cases v; auto simp: json_eq.simps)+

lemma json_eq_JList_iff:
  "json_eq w (JList ys) \<longleftrightarrow> (\<exists>xs. w = JList xs \<and> list_all2 json_eq xs ys)"
  by (subst json_eq.simps) (auto split: json.splits)

lemma json_eq_JObj_iff:
  "json_eq w (JObj e) \<longleftrightarrow>
     (\<exists>d. w = JObj d \<and> dom (map_of d) = dom (map_of e)
        \<and> (\<forall>k v v'. map_of d k = Some v \<longrightarrow> map_of e k = Some v' \<longrightarrow> json_eq v v'))"
proof -
  have keys: "(\<forall>k \<in> set (map fst d). case (map_of d k, map_of e k) of
          (Some v, Some w) \<Rightarrow> json_eq v w | _ \<Rightarrow> False)
     \<longleftrightarrow> (\<forall>k v v'. map_of d k = Some v \<longrightarrow> map_of e k = Some v' \<longrightarrow> json_eq v v')"
    if "dom (map_of d) = dom (map_of e)" for d
  proof -
    have "k \<in> set (map fst d) \<longleftrightarrow> (\<exists>v v'. map_of d k = Some v \<and> map_of e k = Some v')" for k
      using that by (metis domD domI dom_map_of_conv_image_fst list.set_map)
    then show ?thesis by (fastforce split: option.splits)
  qed
  show ?thesis
  proof (cases w)
    case (JObj d)
    have "json_eq (JObj d) (JObj e) \<longleftrightarrow> set (map fst d) = set (map fst e)
        \<and> (\<forall>k \<in> set (map fst d). case (map_of d k, map_of e k) of
              (Some v, Some w) \<Rightarrow> json_eq v w | _ \<Rightarrow> False)"
      by (simp only: json_eq.simps [of "JObj d"] prod.case json.case)
    also have "\<dots> \<longleftrightarrow> dom (map_of d) = dom (map_of e)
        \<and> (\<forall>k v v'. map_of d k = Some v \<longrightarrow> map_of e k = Some v' \<longrightarrow> json_eq v v')"
    proof (rule conj_cong)
      show "set (map fst d) = set (map fst e) \<longleftrightarrow> dom (map_of d) = dom (map_of e)"
        by (simp add: dom_map_of_conv_image_fst)
    qed (rule keys)
    finally show ?thesis using JObj by simp
  qed (simp_all add: json_eq.simps [where y = "JObj e"])
qed

end
