(* ===== verification/External.thy ===== *)
theory External
  imports Errors Json
begin

text \<open>
  The libraries the program calls, as parameters. None of icechunk, zarr, PyIceberg and
  pyarrow is in the repository, so their functions are fields of a record \<open>L\<close> that every
  definition using them takes as an argument; nothing here defines what they do.

  \<^item> \<open>'s\<close>: an icechunk session (its base snapshot, its staged Zarr changes);
  \<^item> \<open>'r\<close>: everything outside the process, that is the icechunk repository and the object
    storage of the warehouse, which other writers change too;
  \<^item> \<open>'m\<close>: a parsed \<open>metadata.json\<close>; \<open>'b\<close>: a \<open>BooleanExpression\<close>; \<open>'d\<close>: an Arrow table;
  \<^item> \<open>'o\<close>: any other library object that is only passed on (schemas, partition specs, sort
    orders, requirements, updates, Iceberg snapshots); \<open>'f\<close>: floats inside JSON.

  Below the records stand the laws: documented behaviour of these libraries, each a named
  predicate that a theorem takes as a hypothesis when it needs it.
\<close>

subsection \<open>zarr\<close>

record ('s, 'f) zarr_lib =
  open_group_a :: "'s \<Rightarrow> (string + unit) \<times> 's"
  open_group_r :: "'s \<Rightarrow> string + unit"
  get_attrs :: "'s \<Rightarrow> (string, 'f json) dict"
  update_attrs :: "'s \<Rightarrow> (string, 'f json) dict \<Rightarrow> (string + unit) \<times> 's"

subsection \<open>icechunk\<close>

text \<open>A value in an Icechunk commit's metadata: a pointer map, a null, or anything else.\<close>

datatype meta_value = PointerMap "(string, string) dict" | NullValue | OtherValue string

type_synonym commit_meta = "(string, meta_value) dict"

datatype commit_result = Committed string | CommitConflict | CommitFailed string

text \<open>
  \<open>others n r\<close> is what the other writers make of the outside world \<open>r\<close> just before this
  process's \<open>n\<close>-th call that reads or moves a branch.
\<close>

record ('s, 'f, 'r) icechunk_lib = "('s, 'f) zarr_lib" +
  others :: "nat \<Rightarrow> 'r \<Rightarrow> 'r"
  lookup_branch :: "'r \<Rightarrow> string \<Rightarrow> string + string"
  lookup_tag :: "'r \<Rightarrow> string \<Rightarrow> string + string"
  lookup_snapshot :: "'r \<Rightarrow> string \<Rightarrow> string + commit_meta option"
  writable_session :: "'r \<Rightarrow> string \<Rightarrow> string + 's"
  readonly_session :: "'r \<Rightarrow> string \<Rightarrow> string + 's"
  session_branch :: "'s \<Rightarrow> string"
  session_base :: "'s \<Rightarrow> string"
  has_uncommitted_changes :: "'s \<Rightarrow> bool"
  session_commit :: "'r \<Rightarrow> 's \<Rightarrow> string \<Rightarrow> commit_meta \<Rightarrow> bool \<Rightarrow> commit_result \<times> 'r \<times> 's"
  session_rebase :: "'r \<Rightarrow> 's \<Rightarrow> (string + unit) \<times> 's"
  discard_changes :: "'s \<Rightarrow> 's"

subsection \<open>PyIceberg\<close>

text \<open>\<open>str | tuple[str, ...]\<close>.\<close>

datatype table_ident = IdStr string | IdTuple "string list"

record 'm iceberg_table =
  table_identifier :: "string list"
  table_metadata :: 'm
  table_location :: string

text \<open>What walking the manifests yields: the snapshot id of each entry, or an exception.\<close>

datatype walk = Entries "int option list" | ValidationException string | WalkError string

text \<open>
  \<open>append_rows\<close>, \<open>delete_rows\<close> and \<open>overwrite_rows\<close> are \<open>Table.append\<close>, \<open>Table.delete\<close> and
  \<open>Table.overwrite\<close> up to the point where PyIceberg hands the result back to the catalog: they
  may write data files, and yield the requirements and updates of the one \<open>commit_table\<close> call
  that follows, or \<open>None\<close> when there is nothing to commit.
\<close>

type_synonym ('r, 'o) plan = "(string + ('o list \<times> 'o list) option) \<times> 'r"

record ('s, 'f, 'r, 'm, 'b, 'd, 'o) iceberg_lib = "('s, 'f, 'r) icechunk_lib" +
  table_name_from :: "table_ident \<Rightarrow> string"
  convert_schema :: "'o \<Rightarrow> string + 'o"
  new_table_metadata ::
    "'o \<Rightarrow> 'o \<Rightarrow> 'o \<Rightarrow> string \<Rightarrow> (string, string) dict \<Rightarrow> string + 'm"
  validate_requirement :: "'o \<Rightarrow> 'm \<Rightarrow> string + unit"
  update_table_metadata :: "'m \<Rightarrow> 'o list \<Rightarrow> string option \<Rightarrow> string + 'm"
  metadata_log_len :: "'m \<Rightarrow> nat"
  current_snapshot_id :: "'m \<Rightarrow> int option"
  snapshot_by_id :: "'m \<Rightarrow> int \<Rightarrow> 'o option"
  write_metadata :: "'r \<Rightarrow> string \<Rightarrow> 'm \<Rightarrow> string + 'r"
  read_metadata :: "'r \<Rightarrow> string \<Rightarrow> string + 'm"
  uuid4 :: "nat \<Rightarrow> string"
  parse_expr :: "string \<Rightarrow> string + 'b"
  added_data_files :: "'r \<Rightarrow> 'm iceberg_table \<Rightarrow> 'o \<Rightarrow> 'b \<Rightarrow> 'o \<Rightarrow> walk"
  append_rows :: "'r \<Rightarrow> 'm iceberg_table \<Rightarrow> 'd \<Rightarrow> ('r, 'o) plan"
  delete_rows :: "'r \<Rightarrow> 'm iceberg_table \<Rightarrow> 'b predicate \<Rightarrow> ('r, 'o) plan"
  overwrite_rows :: "'r \<Rightarrow> 'm iceberg_table \<Rightarrow> 'd \<Rightarrow> 'b predicate \<Rightarrow> ('r, 'o) plan"

subsection \<open>The process and the world outside it\<close>

text \<open>
  \<open>remote\<close> is the world outside, \<open>clock\<close> counts this process's calls that read or move a
  branch, \<open>draws\<close> counts the UUIDs it has drawn.
\<close>

record 'r process =
  remote :: 'r
  clock :: nat
  draws :: nat

definition let_others ::
    "('s, 'f, 'r, 'z) icechunk_lib_scheme \<Rightarrow> ('r, 'y) process_scheme \<Rightarrow> ('r, 'y) process_scheme" where
  "let_others L s = s\<lparr>remote := others L (clock s) (remote s), clock := Suc (clock s)\<rparr>"

definition call_lookup_branch ::
    "('s, 'f, 'r, 'z) icechunk_lib_scheme \<Rightarrow> string \<Rightarrow> (('r, 'y) process_scheme, 'b exn, string) pgm" where
  "call_lookup_branch L b =
     pthen (pmodify (let_others L))
       (pbind (pget remote) (\<lambda>r. plift (lib_result (lookup_branch L r b))))"

definition call_lookup_tag ::
    "('s, 'f, 'r, 'z) icechunk_lib_scheme \<Rightarrow> string \<Rightarrow> (('r, 'y) process_scheme, 'b exn, string) pgm" where
  "call_lookup_tag L t =
     pthen (pmodify (let_others L))
       (pbind (pget remote) (\<lambda>r. plift (lib_result (lookup_tag L r t))))"

definition call_writable_session ::
    "('s, 'f, 'r, 'z) icechunk_lib_scheme \<Rightarrow> string \<Rightarrow> (('r, 'y) process_scheme, 'b exn, 's) pgm" where
  "call_writable_session L b =
     pthen (pmodify (let_others L))
       (pbind (pget remote) (\<lambda>r. plift (lib_result (writable_session L r b))))"

subsection \<open>Laws of the outside world\<close>

text \<open>What readers can see of the branches, the tags and the snapshots.\<close>

definition same_refs ::
    "('s, 'f, 'r, 'z) icechunk_lib_scheme \<Rightarrow> 'r \<Rightarrow> 'r \<Rightarrow> bool" where
  "same_refs L r r' \<longleftrightarrow>
     lookup_branch L r' = lookup_branch L r \<and> lookup_tag L r' = lookup_tag L r
     \<and> lookup_snapshot L r' = lookup_snapshot L r"

text \<open>Snapshots and \<open>metadata.json\<close> files that can be read stay readable and unchanged.\<close>

definition keeps_history ::
    "('s, 'f, 'r, 'm, 'b, 'd, 'o, 'z) iceberg_lib_scheme \<Rightarrow> 'r \<Rightarrow> 'r \<Rightarrow> bool" where
  "keeps_history L r r' \<longleftrightarrow>
     (\<forall>i m. lookup_snapshot L r i = Inr m \<longrightarrow> lookup_snapshot L r' i = Inr m)
     \<and> (\<forall>l m. read_metadata L r l = Inr m \<longrightarrow> read_metadata L r' l = Inr m)"

lemma same_refs_refl [simp]: "same_refs L r r"
  by (simp add: same_refs_def)

lemma same_refs_trans: "same_refs L r s \<Longrightarrow> same_refs L s t \<Longrightarrow> same_refs L r t"
  by (simp add: same_refs_def)

lemma keeps_history_refl [simp]: "keeps_history L r r"
  by (simp add: keeps_history_def)

lemma keeps_history_trans: "keeps_history L r s \<Longrightarrow> keeps_history L s t \<Longrightarrow> keeps_history L r t"
  by (simp add: keeps_history_def)

text \<open>
  icechunk. A commit succeeds only when the branch still points at the session's base, and
  then makes exactly one new snapshot, with the given metadata, the tip of that branch; the
  session moves on to it. A commit that conflicts or fails changes nothing a reader can see.
\<close>

definition commit_law ::
    "('s, 'f, 'r, 'm, 'b, 'd, 'o, 'z) iceberg_lib_scheme \<Rightarrow> bool" where
  "commit_law L \<longleftrightarrow>
     (\<forall>r s msg md ae res r' s'. session_commit L r s msg md ae = (res, r', s') \<longrightarrow>
        session_branch L s' = session_branch L s
        \<and> read_metadata L r' = read_metadata L r
        \<and> (case res of
             Committed i \<Rightarrow>
               lookup_branch L r (session_branch L s) = Inr (session_base L s)
               \<and> (\<exists>e. lookup_snapshot L r i = Inl e)
               \<and> lookup_branch L r' = (lookup_branch L r)(session_branch L s := Inr i)
               \<and> lookup_snapshot L r' = (lookup_snapshot L r)(i := Inr (Some md))
               \<and> lookup_tag L r' = lookup_tag L r
               \<and> session_base L s' = i
           | _ \<Rightarrow> same_refs L r r' \<and> session_base L s' = session_base L s))"

text \<open>
  Rebasing moves the session onto the branch's current tip; a rebase that fails leaves the
  session on its branch. Neither writes anything.
\<close>

definition rebase_law ::
    "('s, 'f, 'r, 'z) icechunk_lib_scheme \<Rightarrow> bool" where
  "rebase_law L \<longleftrightarrow>
     (\<forall>r s res s'. session_rebase L r s = (res, s') \<longrightarrow>
        session_branch L s' = session_branch L s
        \<and> (res = Inr () \<longrightarrow> lookup_branch L r (session_branch L s) = Inr (session_base L s')))"

text \<open>A writable session starts at the tip of its branch, with no changes; discarding drops them.\<close>

definition session_law ::
    "('s, 'f, 'r, 'z) icechunk_lib_scheme \<Rightarrow> bool" where
  "session_law L \<longleftrightarrow>
     (\<forall>r b s. writable_session L r b = Inr s \<longrightarrow>
        session_branch L s = b \<and> lookup_branch L r b = Inr (session_base L s)
        \<and> \<not> has_uncommitted_changes L s)
     \<and> (\<forall>s. session_branch L (discard_changes L s) = session_branch L s
          \<and> session_base L (discard_changes L s) = session_base L s
          \<and> \<not> has_uncommitted_changes L (discard_changes L s))"

text \<open>\<open>group.attrs.update\<close> merges into the attributes.\<close>

definition attrs_law :: "('s, 'f, 'z) zarr_lib_scheme \<Rightarrow> bool" where
  "attrs_law L \<longleftrightarrow>
     (\<forall>s u s'. update_attrs L s u = (Inr (), s') \<longrightarrow>
        get_attrs L s' = dict_merge (get_attrs L s) u)"

text \<open>Zarr work on a session stays in the session: it moves neither its branch nor its base.\<close>

definition zarr_law ::
    "('s, 'f, 'r, 'z) icechunk_lib_scheme \<Rightarrow> bool" where
  "zarr_law L \<longleftrightarrow>
     (\<forall>s res s'. open_group_a L s = (res, s') \<longrightarrow>
        session_branch L s' = session_branch L s \<and> session_base L s' = session_base L s)
     \<and> (\<forall>s u res s'. update_attrs L s u = (res, s') \<longrightarrow>
        session_branch L s' = session_branch L s \<and> session_base L s' = session_base L s)"

text \<open>
  Object storage as PyIceberg uses it. \<open>ToOutputFile.table_metadata\<close> refuses to overwrite;
  what it wrote reads back; data files are not metadata files; neither touches the repository.
\<close>

definition storage_law ::
    "('s, 'f, 'r, 'm, 'b, 'd, 'o, 'z) iceberg_lib_scheme \<Rightarrow> bool" where
  "storage_law L \<longleftrightarrow>
     (\<forall>r l m r'. write_metadata L r l m = Inr r' \<longrightarrow>
        (\<exists>e. read_metadata L r l = Inl e)
        \<and> read_metadata L r' = (read_metadata L r)(l := Inr m) \<and> same_refs L r r')
     \<and> (\<forall>r t d res r'. append_rows L r t d = (res, r') \<longrightarrow>
        same_refs L r r' \<and> read_metadata L r' = read_metadata L r)
     \<and> (\<forall>r t p res r'. delete_rows L r t p = (res, r') \<longrightarrow>
        same_refs L r r' \<and> read_metadata L r' = read_metadata L r)
     \<and> (\<forall>r t d p res r'. overwrite_rows L r t d p = (res, r') \<longrightarrow>
        same_refs L r r' \<and> read_metadata L r' = read_metadata L r)"

lemma storage_write_refs:
  "storage_law L \<Longrightarrow> write_metadata L r l m = Inr r' \<Longrightarrow> same_refs L r r'"
  unfolding storage_law_def by blast

lemma storage_write_read:
  "storage_law L \<Longrightarrow> write_metadata L r l m = Inr r' \<Longrightarrow> read_metadata L r' = (read_metadata L r)(l := Inr m)"
  unfolding storage_law_def by blast

lemma storage_write_new:
  "storage_law L \<Longrightarrow> write_metadata L r l m = Inr r' \<Longrightarrow> read_metadata L r l \<noteq> Inr m'"
  unfolding storage_law_def by fastforce

lemma storage_write_kept:
  "storage_law L \<Longrightarrow> write_metadata L r l m = Inr r' \<Longrightarrow> read_metadata L r l' = Inr m'
     \<Longrightarrow> read_metadata L r' l' = Inr m'"
  using storage_write_new [of L r l m r' m'] by (auto simp: storage_write_read)

text \<open>Other writers only add: they keep every snapshot and every \<open>metadata.json\<close>.\<close>

definition others_law ::
    "('s, 'f, 'r, 'm, 'b, 'd, 'o, 'z) iceberg_lib_scheme \<Rightarrow> bool" where
  "others_law L \<longleftrightarrow> (\<forall>n r. keeps_history L r (others L n r))"

text \<open>A table name without dots is its own identifier.\<close>

definition plain_name ::
    "('s, 'f, 'r, 'm, 'b, 'd, 'o, 'z) iceberg_lib_scheme \<Rightarrow> string \<Rightarrow> bool" where
  "plain_name L n \<longleftrightarrow> table_name_from L (IdStr n) = n \<and> table_name_from L (IdTuple [n]) = n"

definition world_laws ::
    "('s, 'f, 'r, 'm, 'b, 'd, 'o, 'z) iceberg_lib_scheme \<Rightarrow> bool" where
  "world_laws L \<longleftrightarrow> commit_law L \<and> rebase_law L \<and> session_law L \<and> storage_law L \<and> others_law L"

end
