(* ===== verification/Reference.thy ===== *)
theory Reference
  imports External
begin

text \<open>
  One concrete choice of the library parameters, for the witnesses only: a repository, sessions
  and a warehouse small enough to evaluate by rewriting. It satisfies every law of \<open>External\<close>,
  which shows the hypotheses of the theorems can hold together; no theorem is about it alone,
  except where a property is that a particular run exists.
  A table is the list of its row ids; a predicate is the list of the ids it matches.
\<close>

datatype ref_obj = OPlain string | OSnapshot int | OAppend "string list" | ODelete "string list"

record ref_meta =
  ref_rows :: "string list"
  ref_snaps :: "(int \<times> string list) list"
  ref_log :: nat
  ref_props :: "(string, string) dict"

record ref_session =
  ref_branch :: string
  ref_base :: string
  ref_attrs :: "(string, int json) dict"
  ref_changed :: bool

record ref_remote =
  ref_branches :: "(string, string) dict"
  ref_tags :: "(string, string) dict"
  ref_snapshots :: "(string, commit_meta option \<times> (string, int json) dict) dict"
  ref_files :: "(string, ref_meta) dict"

definition ref_find :: "(string, 'a) dict \<Rightarrow> string \<Rightarrow> string + 'a" where
  "ref_find d k = (case map_of d k of None \<Rightarrow> Inl ''not found'' | Some v \<Rightarrow> Inr v)"

definition ref_lookup ::
    "(string, commit_meta option \<times> (string, int json) dict) dict \<Rightarrow> string \<Rightarrow> string + commit_meta option" where
  "ref_lookup d i = (case map_of d i of None \<Rightarrow> Inl ''no such snapshot'' | Some v \<Rightarrow> Inr (fst v))"

definition ref_current :: "ref_meta \<Rightarrow> int option" where
  "ref_current m = (if ref_snaps m = [] then None else Some (int (length (ref_snaps m))))"

fun ref_update1 :: "ref_meta \<Rightarrow> ref_obj \<Rightarrow> ref_meta" where
  "ref_update1 m (OAppend rows) =
     m\<lparr>ref_rows := ref_rows m @ rows,
       ref_snaps := (int (length (ref_snaps m)) + 1, rows) # ref_snaps m\<rparr>"
| "ref_update1 m (ODelete ids) =
     m\<lparr>ref_rows := filter (\<lambda>r. r \<notin> set ids) (ref_rows m),
       ref_snaps := (int (length (ref_snaps m)) + 1, []) # ref_snaps m\<rparr>"
| "ref_update1 m _ = m"

definition ref_commit ::
    "ref_remote \<Rightarrow> ref_session \<Rightarrow> string \<Rightarrow> commit_meta \<Rightarrow> bool
     \<Rightarrow> commit_result \<times> ref_remote \<times> ref_session" where
  "ref_commit r s msg md ae =
     (let i = ''S'' @ dec (length (ref_snapshots r))
      in if map_of (ref_branches r) (ref_branch s) \<noteq> Some (ref_base s) then (CommitConflict, r, s)
         else if \<not> ref_changed s \<and> \<not> ae then (CommitFailed ''no changes to commit'', r, s)
         else if map_of (ref_snapshots r) i \<noteq> None then (CommitFailed ''id in use'', r, s)
         else (Committed i,
               r\<lparr>ref_branches := dict_set (ref_branch s) i (ref_branches r),
                 ref_snapshots := dict_set i (Some md, ref_attrs s) (ref_snapshots r)\<rparr>,
               s\<lparr>ref_base := i, ref_changed := False\<rparr>))"

text \<open>
  A rebase carries what the session changed since its base over to the tip: entries it set are
  set, entries it deleted are deleted, the rest is the tip's. It is a conflict if the session
  changed an entry at which the tip has a new node (an object or a string, see \<open>ref_node\<close>).
\<close>

definition ref_merge ::
    "(string, int json) dict \<Rightarrow> (string, int json) dict \<Rightarrow> (string, int json) dict \<Rightarrow> (string, int json) dict" where
  "ref_merge base mine tip =
     dict_merge (filter (\<lambda>(k, v). map_of base k = None \<or> map_of mine k \<noteq> None) tip)
       (filter (\<lambda>(k, v). map_of base k \<noteq> map_of mine k) mine)"

definition ref_is_node :: "(string, int json) dict \<Rightarrow> string \<Rightarrow> bool" where
  "ref_is_node d k = (case map_of d k of Some (JObj a) \<Rightarrow> True | Some (JStr c) \<Rightarrow> True | _ \<Rightarrow> False)"

definition ref_clash ::
    "(string, int json) dict \<Rightarrow> (string, int json) dict \<Rightarrow> (string, int json) dict \<Rightarrow> bool" where
  "ref_clash base mine tip =
     list_ex (\<lambda>(k, v). ref_is_node tip k \<and> \<not> ref_is_node base k \<and> map_of base k \<noteq> map_of mine k) tip"

definition ref_rebase :: "ref_remote \<Rightarrow> ref_session \<Rightarrow> (string + unit) \<times> ref_session" where
  "ref_rebase r s =
     (case map_of (ref_branches r) (ref_branch s) of
        None \<Rightarrow> (Inl ''no such branch'', s)
      | Some i \<Rightarrow> (case (map_of (ref_snapshots r) (ref_base s), map_of (ref_snapshots r) i) of
            (Some (_, base), Some (_, tip)) \<Rightarrow>
              if ref_clash base (ref_attrs s) tip then (Inl ''rebase conflict'', s)
              else (Inr (), s\<lparr>ref_base := i, ref_attrs := ref_merge base (ref_attrs s) tip\<rparr>)
          | _ \<Rightarrow> (Inl ''no such snapshot'', s)))"

text \<open>The text \<open>column == 'id'\<close> matches \<open>id\<close>; a text without quotes is an id itself.\<close>

definition ref_ids :: "string \<Rightarrow> string list" where
  "ref_ids t =
     (case dropWhile (\<lambda>c. c \<noteq> CHR 0x27) t of
        [] \<Rightarrow> [t] | _ # v \<Rightarrow> [takeWhile (\<lambda>c. c \<noteq> CHR 0x27) v])"

definition ref_matches :: "(string list) predicate \<Rightarrow> string list" where
  "ref_matches p = (case p of PText t \<Rightarrow> ref_ids t | PExpr e \<Rightarrow> e)"

definition ref_walk ::
    "ref_remote \<Rightarrow> ref_meta iceberg_table \<Rightarrow> ref_obj \<Rightarrow> string list \<Rightarrow> ref_obj \<Rightarrow> walk" where
  "ref_walk r t tip e base =
     (case (tip, base) of
        (OSnapshot i, OSnapshot j) \<Rightarrow>
          if j \<le> i
          then Entries (map (Some \<circ> fst)
                 (filter (\<lambda>(k, rows). j \<le> k \<and> k \<le> i \<and> list_ex (\<lambda>x. x \<in> set e) rows)
                   (ref_snaps (table_metadata t))))
          else ValidationException ''no matching snapshot''
      | _ \<Rightarrow> WalkError ''not a snapshot'')"

definition ref_lib ::
    "(nat \<Rightarrow> ref_remote \<Rightarrow> ref_remote)
     \<Rightarrow> (ref_session, int, ref_remote, ref_meta, string list, string list, ref_obj) iceberg_lib" where
  "ref_lib oth =
     \<lparr>open_group_a = (\<lambda>s. (Inr (), s)),
      open_group_r = (\<lambda>s. Inr ()),
      get_attrs = ref_attrs,
      update_attrs = (\<lambda>s u. (Inr (), s\<lparr>ref_attrs := dict_merge (ref_attrs s) u, ref_changed := True\<rparr>)),
      others = oth,
      lookup_branch = (\<lambda>r. ref_find (ref_branches r)),
      lookup_tag = (\<lambda>r. ref_find (ref_tags r)),
      lookup_snapshot = (\<lambda>r. ref_lookup (ref_snapshots r)),
      writable_session = (\<lambda>r b. case map_of (ref_branches r) b of
           None \<Rightarrow> Inl ''no such branch''
         | Some i \<Rightarrow> (case map_of (ref_snapshots r) i of
               None \<Rightarrow> Inl ''no such snapshot''
             | Some (md, attrs) \<Rightarrow>
                 Inr \<lparr>ref_branch = b, ref_base = i, ref_attrs = attrs, ref_changed = False\<rparr>)),
      readonly_session = (\<lambda>r i. case map_of (ref_snapshots r) i of
           None \<Rightarrow> Inl ''no such snapshot''
         | Some (md, attrs) \<Rightarrow>
             Inr \<lparr>ref_branch = [], ref_base = i, ref_attrs = attrs, ref_changed = False\<rparr>),
      session_branch = ref_branch,
      session_base = ref_base,
      has_uncommitted_changes = ref_changed,
      session_commit = ref_commit,
      session_rebase = ref_rebase,
      discard_changes = (\<lambda>s. s\<lparr>ref_changed := False\<rparr>),
      table_name_from = (\<lambda>i. case i of IdStr n \<Rightarrow> n | IdTuple ns \<Rightarrow> concat ns),
      convert_schema = Inr,
      new_table_metadata = (\<lambda>sc ps so loc props.
         Inr \<lparr>ref_rows = [], ref_snaps = [], ref_log = 0, ref_props = props\<rparr>),
      validate_requirement = (\<lambda>rq m. Inr ()),
      update_table_metadata = (\<lambda>m ups loc. Inr ((foldl ref_update1 m ups)\<lparr>ref_log := Suc (ref_log m)\<rparr>)),
      metadata_log_len = ref_log,
      current_snapshot_id = ref_current,
      snapshot_by_id = (\<lambda>m i. if 0 < i \<and> i \<le> int (length (ref_snaps m)) then Some (OSnapshot i) else None),
      write_metadata = (\<lambda>r l m. case map_of (ref_files r) l of
           None \<Rightarrow> Inr (r\<lparr>ref_files := dict_set l m (ref_files r)\<rparr>)
         | Some m' \<Rightarrow> Inl ''file exists''),
      read_metadata = (\<lambda>r. ref_find (ref_files r)),
      uuid4 = (\<lambda>n. ''u'' @ dec n),
      parse_expr = (\<lambda>t. Inr (ref_ids t)),
      added_data_files = ref_walk,
      append_rows = (\<lambda>r t rows. (Inr (Some ([], [OAppend rows])), r)),
      delete_rows = (\<lambda>r t p. if list_ex (\<lambda>x. x \<in> set (ref_matches p)) (ref_rows (table_metadata t))
         then (Inr (Some ([], [ODelete (ref_matches p)])), r) else (Inr None, r)),
      overwrite_rows = (\<lambda>r t rows p.
         (Inr (Some ([], [ODelete (ref_matches p), OAppend rows])), r))\<rparr>"

subsection \<open>The laws hold\<close>

lemma ref_find_set: "ref_find (dict_set k v d) = (ref_find d)(k := Inr v)"
  by (rule ext) (simp add: ref_find_def)

lemma ref_find_Inr [simp]: "ref_find d k = Inr v \<longleftrightarrow> map_of d k = Some v"
  by (simp add: ref_find_def split: option.splits)

lemma ref_find_Inl: "map_of d k = None \<Longrightarrow> ref_find d k = Inl ''not found''"
  by (simp add: ref_find_def)

lemma ref_lookup_set: "ref_lookup (dict_set k v d) = (ref_lookup d)(k := Inr (fst v))"
  by (rule ext) (simp add: ref_lookup_def)

lemma ref_lookup_Inr: "ref_lookup d k = Inr md \<longleftrightarrow> (\<exists>attrs. map_of d k = Some (md, attrs))"
  by (auto simp: ref_lookup_def split: option.splits)

lemma ref_lookup_ex: "(\<exists>e. ref_lookup d k = Inl e) \<longleftrightarrow> (\<forall>a b. map_of d k \<noteq> Some (a, b))"
  by (auto simp: ref_lookup_def split: option.splits)

lemma ref_commit_law: "commit_law (ref_lib oth)"
  unfolding commit_law_def
  by (auto simp: ref_lib_def ref_commit_def Let_def ref_find_set ref_lookup_set ref_lookup_ex same_refs_def
      split: if_splits)

lemma ref_rebase_law: "rebase_law (ref_lib oth)"
  by (auto simp: rebase_law_def ref_lib_def ref_rebase_def Let_def split: option.splits if_splits)

lemma ref_session_law: "session_law (ref_lib oth)"
  by (auto simp: session_law_def ref_lib_def split: option.splits)

lemma ref_zarr_law: "zarr_law (ref_lib oth)"
  by (auto simp: zarr_law_def ref_lib_def)

lemma ref_attrs_law: "attrs_law (ref_lib oth)"
  by (auto simp: attrs_law_def ref_lib_def)

lemma ref_storage_law: "storage_law (ref_lib oth)"
  by (auto simp: storage_law_def ref_lib_def ref_find_set ref_find_Inl same_refs_def
      split: option.splits if_splits)

lemma ref_world_laws:
  "(\<And>n r. keeps_history (ref_lib oth) r (oth n r)) \<Longrightarrow> world_laws (ref_lib oth)"
  by (simp add: world_laws_def ref_commit_law ref_rebase_law ref_session_law ref_storage_law
      others_law_def) (simp add: ref_lib_def)

lemma ref_plain_name [simp]: "plain_name (ref_lib oth) n"
  by (simp add: plain_name_def ref_lib_def)

text \<open>No other writers.\<close>

definition alone :: "nat \<Rightarrow> ref_remote \<Rightarrow> ref_remote" where
  "alone n r = r"

lemma ref_alone_laws: "world_laws (ref_lib alone)"
  by (rule ref_world_laws) (simp add: alone_def)

end
