(* ===== verification/Pointer.thy ===== *)
theory Pointer
  imports Reference
begin

text \<open>
  \<open>src/icechest/pointer.py\<close>: the table pointer map carried in Icechunk commit metadata.
  A value under the key that is not a mapping is outside the type the code declares for it;
  \<open>dict(...)\<close> of it is modelled as a \<open>TypeError\<close> (\<open>None\<close> in \<open>pointers_of_meta\<close>).
\<close>

definition POINTER_KEY :: string where
  "POINTER_KEY = ''iceberg:table_versions''"

definition pointers_of_meta :: "commit_meta option \<Rightarrow> (string, string) dict option" where
  "pointers_of_meta md =
     (let metadata = (case md of None \<Rightarrow> [] | Some d \<Rightarrow> d)
      in case map_of metadata POINTER_KEY of
           None \<Rightarrow> Some []
         | Some NullValue \<Rightarrow> Some []
         | Some (PointerMap d) \<Rightarrow> Some d
         | Some (OtherValue v) \<Rightarrow> None)"

definition read_pointers ::
    "('s, 'f, 'r, 'z) icechunk_lib_scheme \<Rightarrow> string
     \<Rightarrow> (('r, 'y) process_scheme, 'b exn, (string, string) dict) pgm" where
  "read_pointers L snapshot_id =
     pbind (pget remote) (\<lambda>r.
     pbind (plift (lib_result (lookup_snapshot L r snapshot_id))) (\<lambda>md.
     (case pointers_of_meta md of None \<Rightarrow> praise TypeError | Some p \<Rightarrow> pret p)))"

definition read_pointers_at_branch ::
    "('s, 'f, 'r, 'z) icechunk_lib_scheme \<Rightarrow> string
     \<Rightarrow> (('r, 'y) process_scheme, 'b exn, (string, string) dict) pgm" where
  "read_pointers_at_branch L branch =
     pbind (call_lookup_branch L branch) (\<lambda>i. read_pointers L i)"

definition read_pointers_at_tag ::
    "('s, 'f, 'r, 'z) icechunk_lib_scheme \<Rightarrow> string
     \<Rightarrow> (('r, 'y) process_scheme, 'b exn, (string, string) dict) pgm" where
  "read_pointers_at_tag L tag =
     pbind (call_lookup_tag L tag) (\<lambda>i. read_pointers L i)"

definition commit_metadata :: "(string, string) dict \<Rightarrow> commit_meta" where
  "commit_metadata pointers = [(POINTER_KEY, PointerMap pointers)]"

subsection \<open>Round trip and what reading can do\<close>

text \<open>The pointer map of a snapshot, as a plain function of the outside world.\<close>

definition pointers_at ::
    "('s, 'f, 'r, 'z) icechunk_lib_scheme \<Rightarrow> 'r \<Rightarrow> string \<Rightarrow> (string, string) dict option" where
  "pointers_at L r i =
     (case lookup_snapshot L r i of Inl e \<Rightarrow> None | Inr md \<Rightarrow> pointers_of_meta md)"

lemma pointers_of_commit_metadata [simp]:
  "pointers_of_meta (Some (commit_metadata p)) = Some p"
  by (simp add: pointers_of_meta_def commit_metadata_def)

lemma read_pointers_Some [simp]:
  "pointers_at L (remote s) i = Some p \<Longrightarrow> read_pointers L i s = (Inr p, s)"
  by (auto simp: read_pointers_def pbind_run pointers_at_def split: sum.splits option.splits)

lemma read_pointers_InrD:
  "read_pointers L i s = (Inr p, s') \<Longrightarrow> s' = s \<and> pointers_at L (remote s) i = Some p"
  by (auto simp: read_pointers_def pbind_run pointers_at_def split: sum.splits option.splits)

lemma read_pointers_state [simp]: "snd (read_pointers L i s) = s"
  by (auto simp: read_pointers_def pbind_run split: sum.splits option.splits)

lemma pointers_at_keeps:
  "keeps_history L r r' \<Longrightarrow> pointers_at L r i = Some p \<Longrightarrow> pointers_at L r' i = Some p"
  by (auto simp: pointers_at_def keeps_history_def split: sum.splits)

lemma pointers_at_same_refs: "same_refs L r r' \<Longrightarrow> pointers_at L r' = pointers_at L r"
  by (simp add: pointers_at_def same_refs_def fun_eq_iff)

lemma call_lookup_branch_InrD:
  "call_lookup_branch L b s = (Inr i, s') \<Longrightarrow>
     s' = let_others L s \<and> lookup_branch L (remote (let_others L s)) b = Inr i"
  by (simp add: call_lookup_branch_def pthen_run pbind_run) (blast dest: lib_result_InrD)

lemma read_pointers_at_branch_InrD:
  assumes "read_pointers_at_branch L b s = (Inr p :: 'b exn + _, s')"
  shows "s' = let_others L s
    \<and> (\<exists>i. lookup_branch L (remote s') b = Inr i \<and> pointers_at L (remote s') i = Some p)"
proof -
  obtain i s1 where look: "call_lookup_branch L b s = (Inr i :: 'b exn + _, s1)"
    and rd: "read_pointers L i s1 = (Inr p :: 'b exn + _, s')"
    using assms unfolding read_pointers_at_branch_def by (rule pbind_InrE)
  from call_lookup_branch_InrD [OF look] read_pointers_InrD [OF rd] show ?thesis by auto
qed

end
