(* ===== verification/Catalog.thy ===== *)
theory Catalog
  imports Pointer
begin

text \<open>
  \<open>src/icechest/catalog.py\<close>: the PyIceberg catalog whose source of truth is a pointer map.
  An \<open>IcechunkCatalog\<close> is the record \<open>catalog_state\<close>; it extends the process, so an operation
  is a program on the catalog together with the world outside. Objects that own a catalog
  (the transaction) extend the record further, and every operation leaves their fields alone.
\<close>

subsection \<open>State\<close>

definition SAFETY_PROPERTIES :: "(string, string) dict" where
  "SAFETY_PROPERTIES =
     [(''gc.enabled'', ''false''),
      (''write.metadata.delete-after-commit.enabled'', ''false'')]"

record 'r catalog_state = "'r process" +
  warehouse :: string
  pointers :: "(string, string) dict"
  staged :: "(string, string) dict"
  read_only :: bool
  io_properties :: "(string, string) dict"

definition catalog_init ::
    "string \<Rightarrow> (string, string) dict option \<Rightarrow> (string, string) dict option \<Rightarrow> bool
     \<Rightarrow> ('r, 'y) process_scheme \<Rightarrow> 'r catalog_state" where
  "catalog_init warehouse0 pointers0 properties0 ro p =
     \<lparr>remote = remote p, clock = clock p, draws = draws p,
      warehouse = rstrip_slash warehouse0,
      pointers = (case pointers0 of None \<Rightarrow> [] | Some d \<Rightarrow> d),
      staged = [],
      read_only = ro,
      io_properties = (case properties0 of None \<Rightarrow> [] | Some d \<Rightarrow> d)\<rparr>"

subsection \<open>Pointer plumbing\<close>

definition current_pointers :: "('r, 'y) catalog_state_scheme \<Rightarrow> (string, string) dict" where
  "current_pointers s = dict_merge (pointers s) (staged s)"

definition rebase_onto ::
    "(string, string) dict \<Rightarrow> ('r, 'y) catalog_state_scheme \<Rightarrow> ('r, 'y) catalog_state_scheme" where
  "rebase_onto ptrs s = s\<lparr>pointers := ptrs, staged := []\<rparr>"

definition stage ::
    "string \<Rightarrow> string \<Rightarrow> ('r, 'y) catalog_state_scheme \<Rightarrow> ('r, 'y) catalog_state_scheme" where
  "stage name location s = s\<lparr>staged := dict_set name location (staged s)\<rparr>"

definition metadata_location_for ::
    "('s, 'f, 'r, 'm, 'b, 'd, 'o, 'z) iceberg_lib_scheme \<Rightarrow> string \<Rightarrow> nat
     \<Rightarrow> (('r, 'y) catalog_state_scheme, 'b exn, string) pgm" where
  "metadata_location_for L table_name version =
     pbind (pget draws) (\<lambda>n.
     pthen (pmodify (\<lambda>s. s\<lparr>draws := Suc n\<rparr>))
       (pget (\<lambda>s. warehouse s @ ''/'' @ table_name @ ''/metadata/''
                  @ dec05 version @ ''-'' @ uuid4 L n @ ''.metadata.json'')))"

definition resolve ::
    "('s, 'f, 'r, 'm, 'b, 'd, 'o, 'z) iceberg_lib_scheme \<Rightarrow> table_ident
     \<Rightarrow> (('r, 'y) catalog_state_scheme, 'b exn, string) pgm" where
  "resolve L ident =
     (let name = table_name_from L ident
      in pbind (pget current_pointers) (\<lambda>ptrs.
         case map_of ptrs name of
           None \<Rightarrow> praise (NoSuchTableError name)
         | Some l \<Rightarrow> pret l))"

subsection \<open>Object storage\<close>

definition call_write_metadata ::
    "('s, 'f, 'r, 'm, 'b, 'd, 'o, 'z) iceberg_lib_scheme \<Rightarrow> string \<Rightarrow> 'm
     \<Rightarrow> (('r, 'y) catalog_state_scheme, 'b exn, unit) pgm" where
  "call_write_metadata L location m =
     (\<lambda>s. case write_metadata L (remote s) location m of
            Inl e \<Rightarrow> (Inl (LibError e), s)
          | Inr r \<Rightarrow> (Inr (), s\<lparr>remote := r\<rparr>))"

definition call_read_metadata ::
    "('s, 'f, 'r, 'm, 'b, 'd, 'o, 'z) iceberg_lib_scheme \<Rightarrow> string
     \<Rightarrow> (('r, 'y) catalog_state_scheme, 'b exn, 'm) pgm" where
  "call_read_metadata L location =
     pbind (pget remote) (\<lambda>r. plift (lib_result (read_metadata L r location)))"

text \<open>
  The tail shared by \<open>create_table\<close> and \<open>commit_table\<close>: name a new \<open>metadata.json\<close>, write it,
  stage its location.
\<close>

definition write_and_stage ::
    "('s, 'f, 'r, 'm, 'b, 'd, 'o, 'z) iceberg_lib_scheme \<Rightarrow> string \<Rightarrow> nat \<Rightarrow> 'm
     \<Rightarrow> (('r, 'y) catalog_state_scheme, 'b exn, string) pgm" where
  "write_and_stage L name version m =
     pbind (metadata_location_for L name version) (\<lambda>metadata_location.
     pthen (call_write_metadata L metadata_location m)
    (pthen (pmodify (stage name metadata_location))
    (pret metadata_location)))"

subsection \<open>The Catalog interface\<close>

definition assert_writable :: "(('r, 'y) catalog_state_scheme, 'b exn, unit) pgm" where
  "assert_writable =
     pbind (pget read_only) (\<lambda>ro. pguard (\<not> ro) (NotImplementedError ''read-only catalog''))"

definition create_table ::
    "('s, 'f, 'r, 'm, 'b, 'd, 'o, 'z) iceberg_lib_scheme \<Rightarrow> table_ident \<Rightarrow> 'o \<Rightarrow> string option
     \<Rightarrow> 'o \<Rightarrow> 'o \<Rightarrow> (string, string) dict
     \<Rightarrow> (('r, 'y) catalog_state_scheme, 'b exn, 'm iceberg_table) pgm" where
  "create_table L ident schema0 location0 partition_spec sort_order properties =
     pthen assert_writable
     (let name = table_name_from L ident
      in pbind (pget current_pointers) (\<lambda>ptrs.
         pthen (pguard (\<not> dict_has ptrs name) (TableAlreadyExistsError name))
        (pbind (plift (lib_result (convert_schema L schema0))) (\<lambda>schema.
         pbind (pget (\<lambda>s. rstrip_slash
                   (case location0 of
                      None \<Rightarrow> warehouse s @ ''/'' @ name
                    | Some l \<Rightarrow> if l = [] then warehouse s @ ''/'' @ name else l))) (\<lambda>location.
         pbind (plift (lib_result (new_table_metadata L schema partition_spec sort_order location
                   (dict_merge SAFETY_PROPERTIES properties)))) (\<lambda>metadata.
         pbind (write_and_stage L name 0 metadata) (\<lambda>metadata_location.
         pret \<lparr>table_identifier = [name], table_metadata = metadata,
               table_location = metadata_location\<rparr>)))))))"

definition load_table ::
    "('s, 'f, 'r, 'm, 'b, 'd, 'o, 'z) iceberg_lib_scheme \<Rightarrow> table_ident
     \<Rightarrow> (('r, 'y) catalog_state_scheme, 'b exn, 'm iceberg_table) pgm" where
  "load_table L ident =
     (let name = table_name_from L ident
      in pbind (resolve L ident) (\<lambda>metadata_location.
         pbind (call_read_metadata L metadata_location) (\<lambda>metadata.
         pret \<lparr>table_identifier = [name], table_metadata = metadata,
               table_location = metadata_location\<rparr>)))"

definition commit_table ::
    "('s, 'f, 'r, 'm, 'b, 'd, 'o, 'z) iceberg_lib_scheme \<Rightarrow> 'm iceberg_table \<Rightarrow> 'o list \<Rightarrow> 'o list
     \<Rightarrow> (('r, 'y) catalog_state_scheme, 'b exn, 'm \<times> string) pgm" where
  "commit_table L table requirements updates =
     pthen assert_writable
     (let name = table_name_from L (IdTuple (table_identifier table))
      in pbind (pget (\<lambda>s. map_of (current_pointers s) name)) (\<lambda>base_location.
         pbind (case base_location of
                  None \<Rightarrow> pret (table_metadata table)
                | Some l \<Rightarrow> if l = [] then pret (table_metadata table) else call_read_metadata L l)
           (\<lambda>base_metadata.
         pthen (for_each (\<lambda>rq. plift (lib_result (validate_requirement L rq base_metadata))) requirements)
        (pbind (plift (lib_result (update_table_metadata L base_metadata updates base_location)))
           (\<lambda>new_metadata.
         pbind (write_and_stage L name (metadata_log_len L new_metadata) new_metadata)
           (\<lambda>metadata_location.
         pret (new_metadata, metadata_location)))))))"

definition table_exists ::
    "('s, 'f, 'r, 'm, 'b, 'd, 'o, 'z) iceberg_lib_scheme \<Rightarrow> table_ident
     \<Rightarrow> ('r, 'y) catalog_state_scheme \<Rightarrow> bool" where
  "table_exists L ident s = dict_has (current_pointers s) (table_name_from L ident)"

definition list_tables :: "('r, 'y) catalog_state_scheme \<Rightarrow> table_ident list" where
  "list_tables s = map (\<lambda>name. IdTuple [name]) (sorted_set (dict_keys (current_pointers s)))"

subsection \<open>Deliberately unsupported\<close>

definition unsupported :: "string \<Rightarrow> (('r, 'y) catalog_state_scheme, 'b exn, 'a) pgm" where
  "unsupported what = praise (NotImplementedError what)"

definition drop_table :: "table_ident \<Rightarrow> (('r, 'y) catalog_state_scheme, 'b exn, unit) pgm" where
  "drop_table ident = unsupported ''drop_table''"

definition purge_table :: "table_ident \<Rightarrow> (('r, 'y) catalog_state_scheme, 'b exn, unit) pgm" where
  "purge_table ident = unsupported ''purge_table''"

definition rename_table ::
    "table_ident \<Rightarrow> table_ident \<Rightarrow> (('r, 'y) catalog_state_scheme, 'b exn, 'm iceberg_table) pgm" where
  "rename_table from_ident to_ident = unsupported ''rename_table''"

definition register_table ::
    "table_ident \<Rightarrow> string \<Rightarrow> (('r, 'y) catalog_state_scheme, 'b exn, 'm iceberg_table) pgm" where
  "register_table ident location = unsupported ''register_table''"

definition create_namespace ::
    "table_ident \<Rightarrow> (string, string) dict \<Rightarrow> (('r, 'y) catalog_state_scheme, 'b exn, unit) pgm" where
  "create_namespace ns properties = unsupported ''create_namespace''"

definition drop_namespace :: "table_ident \<Rightarrow> (('r, 'y) catalog_state_scheme, 'b exn, unit) pgm" where
  "drop_namespace ns = unsupported ''drop_namespace''"

definition list_namespaces :: "table_ident \<Rightarrow> table_ident list" where
  "list_namespaces ns = []"

definition namespace_exists :: "table_ident \<Rightarrow> bool" where
  "namespace_exists ns = False"

definition load_namespace_properties ::
    "table_ident \<Rightarrow> (('r, 'y) catalog_state_scheme, 'b exn, (string, string) dict) pgm" where
  "load_namespace_properties ns = unsupported ''load_namespace_properties''"

definition update_namespace_properties ::
    "table_ident \<Rightarrow> string list option \<Rightarrow> (string, string) dict
     \<Rightarrow> (('r, 'y) catalog_state_scheme, 'b exn, unit) pgm" where
  "update_namespace_properties ns removals updates = unsupported ''update_namespace_properties''"

definition create_table_transaction :: "(('r, 'y) catalog_state_scheme, 'b exn, unit) pgm" where
  "create_table_transaction = unsupported ''create_table_transaction''"

definition drop_view :: "table_ident \<Rightarrow> (('r, 'y) catalog_state_scheme, 'b exn, unit) pgm" where
  "drop_view ident = unsupported ''drop_view''"

definition list_views :: "table_ident \<Rightarrow> table_ident list" where
  "list_views ns = []"

definition view_exists :: "table_ident \<Rightarrow> bool" where
  "view_exists ident = False"

subsection \<open>The overlay contract\<close>

lemma current_pointers_stage [simp]:
  "map_of (current_pointers (stage n l s)) = (map_of (current_pointers s))(n \<mapsto> l)"
  by (simp add: current_pointers_def stage_def)

lemma current_pointers_rebase [simp]: "current_pointers (rebase_onto p s) = p"
  by (simp add: current_pointers_def rebase_onto_def)

interpretation overlay: pointer_overlay "\<lambda>s. map_of (current_pointers s)" stage rebase_onto
  by unfold_locales simp_all

text \<open>
  Rebasing discards what was staged and adopts the given pointers; whatever is staged
  afterwards overlays them, the last staging of a table winning. This is the pointer map a
  retry publishes.
\<close>

lemma rebase_then_stage:
  "map_of (current_pointers (fold (\<lambda>(n, l). stage n l) us (rebase_onto p s)))
     = map_of p ++ map_of (rev us)"
  by (rule overlay.look_puts_reset)

subsection \<open>What every catalog operation leaves alone\<close>

text \<open>
  Catalog work never moves a branch, a tag or a snapshot, never changes a \<open>metadata.json\<close> that
  exists, never touches the base pointers or the configuration, and never unstages a table.
\<close>

definition catalog_frame ::
    "('s, 'f, 'r, 'm, 'b, 'd, 'o, 'z) iceberg_lib_scheme
     \<Rightarrow> ('r, 'y) catalog_state_scheme \<Rightarrow> ('r, 'y) catalog_state_scheme \<Rightarrow> bool" where
  "catalog_frame L s s' \<longleftrightarrow>
     same_refs L (remote s) (remote s')
     \<and> (\<forall>l m. read_metadata L (remote s) l = Inr m \<longrightarrow> read_metadata L (remote s') l = Inr m)
     \<and> pointers s' = pointers s \<and> warehouse s' = warehouse s \<and> read_only s' = read_only s
     \<and> io_properties s' = io_properties s \<and> clock s' = clock s
     \<and> dom (map_of (staged s)) \<subseteq> dom (map_of (staged s'))
     \<and> catalog_state.more s' = catalog_state.more s"

lemma catalog_frameD:
  assumes "catalog_frame L s s'"
  shows "same_refs L (remote s) (remote s')"
    and "read_metadata L (remote s) l = Inr m \<Longrightarrow> read_metadata L (remote s') l = Inr m"
    and "pointers s' = pointers s" and "warehouse s' = warehouse s" and "read_only s' = read_only s"
    and "io_properties s' = io_properties s" and "clock s' = clock s"
    and "dom (map_of (staged s)) \<subseteq> dom (map_of (staged s'))"
    and "catalog_state.more s' = catalog_state.more s"
  using assms unfolding catalog_frame_def by blast+

interpretation catalog: step_frame
    "catalog_frame L :: ('r, 'y) catalog_state_scheme \<Rightarrow> ('r, 'y) catalog_state_scheme \<Rightarrow> bool"
    for L :: "('s, 'f, 'r, 'm, 'b, 'd, 'o, 'z) iceberg_lib_scheme"
proof unfold_locales
  show "catalog_frame L s s" for s :: "('r, 'y) catalog_state_scheme"
    by (simp add: catalog_frame_def)
  fix s t u :: "('r, 'y) catalog_state_scheme"
  assume a: "catalog_frame L s t" and b: "catalog_frame L t u"
  show "catalog_frame L s u"
    unfolding catalog_frame_def
    by (intro conjI allI impI same_refs_trans [OF catalog_frameD(1) [OF a] catalog_frameD(1) [OF b]]
        subset_trans [OF catalog_frameD(8) [OF a] catalog_frameD(8) [OF b]])
      (simp_all add: catalog_frameD(2-7,9) [OF a] catalog_frameD(2-7,9) [OF b])
qed

lemma catalog_frame_history: "catalog_frame L s s' \<Longrightarrow> keeps_history L (remote s) (remote s')"
  by (simp add: catalog_frame_def keeps_history_def same_refs_def)

lemma metadata_location_for_run:
  "metadata_location_for L n v s =
     (Inr (warehouse s @ ''/'' @ n @ ''/metadata/'' @ dec05 v @ ''-'' @ uuid4 L (draws s) @ ''.metadata.json''),
      s\<lparr>draws := Suc (draws s)\<rparr>)"
  by (simp add: metadata_location_for_def)

lemma metadata_location_for_frame: "keeps (catalog_frame L) (metadata_location_for L n v)"
  by (simp add: keeps_def metadata_location_for_run catalog_frame_def)

lemma call_write_metadata_frame:
  "storage_law L \<Longrightarrow> keeps (catalog_frame L) (call_write_metadata L l m)"
  by (auto simp: keeps_def call_write_metadata_def catalog_frame_def storage_write_kept storage_write_refs
      split: sum.splits)

lemma call_read_metadata_frame: "keeps (catalog_frame L) (call_read_metadata L l)"
  unfolding call_read_metadata_def by (intro catalog.steps)

lemma stage_frame: "catalog_frame L s (stage n l s)"
  by (auto simp: catalog_frame_def stage_def)

lemma write_and_stage_frame: "storage_law L \<Longrightarrow> keeps (catalog_frame L) (write_and_stage L n v m)"
  unfolding write_and_stage_def
  by (intro catalog.steps metadata_location_for_frame call_write_metadata_frame stage_frame)

lemma assert_writable_frame: "keeps (catalog_frame L) assert_writable"
  unfolding assert_writable_def by (intro catalog.steps)

lemma resolve_frame: "keeps (catalog_frame L) (resolve L i)"
  unfolding resolve_def Let_def
  by (intro catalog.steps) (auto intro: catalog.steps split: option.splits)

lemma create_table_frame: "storage_law L \<Longrightarrow> keeps (catalog_frame L) (create_table L i sc loc ps so pr)"
  unfolding create_table_def Let_def
  by (intro catalog.steps assert_writable_frame write_and_stage_frame)

lemma load_table_frame: "keeps (catalog_frame L) (load_table L i)"
  unfolding load_table_def Let_def
  by (intro catalog.steps resolve_frame call_read_metadata_frame)

lemma commit_table_frame: "storage_law L \<Longrightarrow> keeps (catalog_frame L) (commit_table L t rq up)"
  unfolding commit_table_def Let_def
  by (intro catalog.steps catalog.for_each_step assert_writable_frame write_and_stage_frame)
    (auto intro: catalog.steps call_read_metadata_frame split: option.splits)

subsection \<open>Which tables an operation stages\<close>

definition stages_only ::
    "string set \<Rightarrow> ('r, 'y) catalog_state_scheme \<Rightarrow> ('r, 'y) catalog_state_scheme \<Rightarrow> bool" where
  "stages_only N s s' \<longleftrightarrow> (\<forall>n. n \<notin> N \<longrightarrow> map_of (staged s') n = map_of (staged s) n)"

interpretation only: step_frame "stages_only N" for N
  by unfold_locales (auto simp: stages_only_def)

text \<open>Every staged location holds a \<open>metadata.json\<close>: no pointer in waiting dangles.\<close>

definition staged_resolves ::
    "('s, 'f, 'r, 'm, 'b, 'd, 'o, 'z) iceberg_lib_scheme \<Rightarrow> ('r, 'y) catalog_state_scheme \<Rightarrow> bool" where
  "staged_resolves L s \<longleftrightarrow>
     (\<forall>n l. map_of (staged s) n = Some l \<longrightarrow> (\<exists>m. read_metadata L (remote s) l = Inr m))"

definition keeps_resolving ::
    "('s, 'f, 'r, 'm, 'b, 'd, 'o, 'z) iceberg_lib_scheme
     \<Rightarrow> ('r, 'y) catalog_state_scheme \<Rightarrow> ('r, 'y) catalog_state_scheme \<Rightarrow> bool" where
  "keeps_resolving L s s' \<longleftrightarrow> (staged_resolves L s \<longrightarrow> staged_resolves L s')"

interpretation resolving: step_frame
    "keeps_resolving L :: ('r, 'y) catalog_state_scheme \<Rightarrow> ('r, 'y) catalog_state_scheme \<Rightarrow> bool"
    for L :: "('s, 'f, 'r, 'm, 'b, 'd, 'o, 'z) iceberg_lib_scheme"
  by unfold_locales (auto simp: keeps_resolving_def)

lemma write_and_stage_InrD:
  assumes law: "storage_law L" and run: "write_and_stage L n v m s = (Inr l, s')"
  shows "l = warehouse s @ ''/'' @ n @ ''/metadata/'' @ dec05 v @ ''-'' @ uuid4 L (draws s) @ ''.metadata.json''"
    and "read_metadata L (remote s) l \<noteq> Inr m'"
    and "read_metadata L (remote s') = (read_metadata L (remote s))(l := Inr m)"
    and "staged s' = dict_set n l (staged s)"
  using run storage_write_new [OF law] storage_write_read [OF law]
  by (auto simp: write_and_stage_def metadata_location_for_run call_write_metadata_def stage_def
      pbind_run pthen_run split: sum.splits)

lemma write_and_stage_InlD:
  "write_and_stage L n v m s = (Inl e, s') \<Longrightarrow> remote s' = remote s \<and> staged s' = staged s"
  by (auto simp: write_and_stage_def metadata_location_for_run call_write_metadata_def stage_def
      pbind_run pthen_run split: sum.splits)

lemma write_and_stage_only: "n \<in> N \<Longrightarrow> keeps (stages_only N) (write_and_stage L n v m)"
  by (rule keepsI)
    (auto simp: write_and_stage_def metadata_location_for_run call_write_metadata_def stage_def
      pbind_run pthen_run stages_only_def split: sum.splits)

lemma write_and_stage_resolving:
  assumes law: "storage_law L"
  shows "keeps (keeps_resolving L) (write_and_stage L n v m)"
proof (rule keepsI)
  fix s r s'
  assume run: "write_and_stage L n v m s = (r, s')"
  show "keeps_resolving L s s'"
  proof (cases r)
    case (Inl e)
    with run write_and_stage_InlD show ?thesis
      by (fastforce simp: keeps_resolving_def staged_resolves_def)
  next
    case (Inr l)
    note facts = write_and_stage_InrD [OF law run [unfolded Inr]]
    show ?thesis
      using facts(2) by (auto simp: keeps_resolving_def staged_resolves_def facts(3,4))
  qed
qed

lemma create_table_only:
  "table_name_from L i \<in> N \<Longrightarrow> keeps (stages_only N) (create_table L i sc loc ps so pr)"
  unfolding create_table_def assert_writable_def Let_def
  by (intro only.steps write_and_stage_only)

lemma create_table_resolving:
  "storage_law L \<Longrightarrow> keeps (keeps_resolving L) (create_table L i sc loc ps so pr)"
  unfolding create_table_def assert_writable_def Let_def
  by (intro resolving.steps write_and_stage_resolving)

lemma load_table_state [simp]: "snd (load_table L i s) = s"
  by (auto simp: load_table_def resolve_def call_read_metadata_def Let_def pbind_run
      split: sum.splits option.splits)

lemma load_table_InrD:
  "load_table L i s = (Inr t, s') \<Longrightarrow> s' = s \<and>
     (\<exists>l m. map_of (current_pointers s) (table_name_from L i) = Some l \<and> read_metadata L (remote s) l = Inr m
        \<and> t = \<lparr>table_identifier = [table_name_from L i], table_metadata = m, table_location = l\<rparr>)"
  by (auto simp: load_table_def resolve_def call_read_metadata_def Let_def pbind_run
      split: sum.splits option.splits dest: lib_result_InrD)

lemma load_table_InlD: "load_table L i s = (Inl e, s') \<Longrightarrow> s' = s"
  by (metis load_table_state snd_conv)

lemma base_metadata_state [simp]:
  "snd ((case bl of None \<Rightarrow> pret x | Some l \<Rightarrow> if l = [] then pret x else call_read_metadata L l) s) = s"
  by (auto simp: call_read_metadata_def pbind_run split: sum.splits option.splits)

lemma commit_table_only:
  "table_name_from L (IdTuple (table_identifier t)) \<in> N \<Longrightarrow> keeps (stages_only N) (commit_table L t rq up)"
  unfolding commit_table_def assert_writable_def Let_def
  by (intro only.steps only.for_each_step write_and_stage_only)
    (simp add: keeps_def only.refl)

lemma commit_table_resolving:
  "storage_law L \<Longrightarrow> keeps (keeps_resolving L) (commit_table L t rq up)"
  unfolding commit_table_def assert_writable_def Let_def
  by (intro resolving.steps resolving.for_each_step write_and_stage_resolving)
    (simp add: keeps_def resolving.refl)

subsection \<open>What the operations do\<close>

definition table_location_arg ::
    "string option \<Rightarrow> string \<Rightarrow> ('r, 'y) catalog_state_scheme \<Rightarrow> string" where
  "table_location_arg location0 name s =
     rstrip_slash (case location0 of
       None \<Rightarrow> warehouse s @ ''/'' @ name
     | Some l \<Rightarrow> if l = [] then warehouse s @ ''/'' @ name else l)"

lemma create_table_InrD:
  assumes "create_table L i sc0 loc ps so pr s = (Inr t :: 'b exn + 'm iceberg_table, s')"
  shows "\<not> read_only s \<and> table_name_from L i \<notin> dom (map_of (current_pointers s))
    \<and> (\<exists>sc m l. convert_schema L sc0 = Inr sc
         \<and> new_table_metadata L sc ps so (table_location_arg loc (table_name_from L i) s)
             (dict_merge SAFETY_PROPERTIES pr) = Inr m
         \<and> write_and_stage L (table_name_from L i) 0 m s = (Inr l :: 'b exn + string, s')
         \<and> t = \<lparr>table_identifier = [table_name_from L i], table_metadata = m, table_location = l\<rparr>)"
  using assms
  by (auto simp: create_table_def assert_writable_def Let_def table_location_arg_def
      elim!: pbind_InrE pthen_InrE dest!: lib_result_InrD split: if_splits)

definition base_metadata ::
    "('s, 'f, 'r, 'm, 'b, 'd, 'o, 'z) iceberg_lib_scheme \<Rightarrow> 'm iceberg_table
     \<Rightarrow> ('r, 'y) catalog_state_scheme \<Rightarrow> string + 'm" where
  "base_metadata L t s =
     (case map_of (current_pointers s) (table_name_from L (IdTuple (table_identifier t))) of
        None \<Rightarrow> Inr (table_metadata t)
      | Some l \<Rightarrow> if l = [] then Inr (table_metadata t) else read_metadata L (remote s) l)"

lemma commit_table_InrE:
  assumes "commit_table L t rqs ups s = (Inr res :: 'b exn + _, s')"
  obtains base m l where "\<not> read_only s"
    and "base_metadata L t s = Inr base"
    and "for_each (\<lambda>rq. plift (lib_result (validate_requirement L rq base))) rqs s
          = (Inr () :: 'b exn + unit, s)"
    and "update_table_metadata L base ups
           (map_of (current_pointers s) (table_name_from L (IdTuple (table_identifier t)))) = Inr m"
    and "write_and_stage L (table_name_from L (IdTuple (table_identifier t))) (metadata_log_len L m) m s
          = (Inr l :: 'b exn + string, s')"
    and "res = (m, l)"
  using assms
  by (auto simp: commit_table_def assert_writable_def Let_def call_read_metadata_def base_metadata_def
      elim!: pbind_InrE pthen_InrE dest!: lib_result_InrD dest: for_each_plift_cases
      split: if_splits option.splits) (fastforce dest: for_each_plift_cases)+

lemma load_table_staged:
  assumes "map_of (current_pointers s) (table_name_from L i) = Some l"
    and "read_metadata L (remote s) l = Inr m"
  shows "load_table L i s =
    (Inr \<lparr>table_identifier = [table_name_from L i], table_metadata = m, table_location = l\<rparr>, s)"
  using assms by (simp add: load_table_def resolve_def call_read_metadata_def Let_def pbind_run)

lemma write_and_stage_loads:
  assumes "storage_law L" and "write_and_stage L (table_name_from L i) v m s = (Inr l, s')"
  shows "load_table L i s' =
    (Inr \<lparr>table_identifier = [table_name_from L i], table_metadata = m, table_location = l\<rparr>, s')"
  using write_and_stage_InrD [OF assms] write_and_stage_frame [OF assms(1)] assms(2)
  by (intro load_table_staged) (auto simp: current_pointers_def dest: keepsD catalog_frameD)

text \<open>
  C28. Creating a table: when \<open>create_table\<close> returns, the catalog was writable and did not know
  the name; the table's \<open>metadata.json\<close> is a file that did not exist before; loading the name
  gives back exactly the table returned; and no other table's pointer moved.
\<close>

theorem create_table_correct:
  assumes law: "storage_law L"
    and run: "create_table L i sc loc ps so pr s = (Inr t :: 'b exn + 'm iceberg_table, s')"
  shows "\<not> read_only s \<and> table_name_from L i \<notin> dom (map_of (current_pointers s))
    \<and> (\<forall>m. read_metadata L (remote s) (table_location t) \<noteq> Inr m)
    \<and> load_table L i s' = (Inr t :: 'b exn + 'm iceberg_table, s')
    \<and> map_of (current_pointers s') = (map_of (current_pointers s))(table_name_from L i \<mapsto> table_location t)"
proof -
  from create_table_InrD [OF run] obtain m l where
    ok: "\<not> read_only s" "table_name_from L i \<notin> dom (map_of (current_pointers s))"
    and w: "write_and_stage L (table_name_from L i) 0 m s = (Inr l :: 'b exn + string, s')"
    and t: "t = \<lparr>table_identifier = [table_name_from L i], table_metadata = m, table_location = l\<rparr>"
    by blast
  have "pointers s' = pointers s"
    using write_and_stage_frame [OF law] w by (blast dest: keepsD catalog_frameD)
  then have "map_of (current_pointers s') = (map_of (current_pointers s))(table_name_from L i \<mapsto> l)"
    by (simp add: current_pointers_def write_and_stage_InrD(4) [OF law w])
  then show ?thesis
    using ok t write_and_stage_InrD(2) [OF law w] write_and_stage_loads [OF law w] by simp
qed

text \<open>
  C27. Committing to a table: when \<open>commit_table\<close> returns, every requirement held of the version
  the catalog pointed at, the new version is that version with the updates applied and not the
  caller's possibly stale copy, it went to a file that did not exist before, and loading the
  table now gives it (read your own writes).
\<close>

theorem commit_table_correct:
  assumes law: "storage_law L"
    and run: "commit_table L t rqs ups s = (Inr (m, l) :: 'b exn + _, s')"
    and name: "table_name_from L (IdTuple (table_identifier t)) = table_name_from L i"
  shows "\<not> read_only s
    \<and> (\<exists>base. base_metadata L t s = Inr base
         \<and> (\<forall>rq \<in> set rqs. validate_requirement L rq base = Inr ())
         \<and> update_table_metadata L base ups (map_of (current_pointers s) (table_name_from L i)) = Inr m)
    \<and> (\<forall>m'. read_metadata L (remote s) l \<noteq> Inr m')
    \<and> load_table L i s' =
        (Inr \<lparr>table_identifier = [table_name_from L i], table_metadata = m, table_location = l\<rparr> :: 'b exn + _, s')
    \<and> map_of (current_pointers s') = (map_of (current_pointers s))(table_name_from L i \<mapsto> l)"
proof -
  from run obtain base where ok: "\<not> read_only s" "base_metadata L t s = Inr base"
    and rq: "for_each (\<lambda>rq. plift (lib_result (validate_requirement L rq base))) rqs s
          = (Inr () :: 'b exn + unit, s)"
    and up: "update_table_metadata L base ups (map_of (current_pointers s) (table_name_from L i)) = Inr m"
    and w: "write_and_stage L (table_name_from L i) (metadata_log_len L m) m s = (Inr l :: 'b exn + string, s')"
    by (elim commit_table_InrE) (auto simp: name)
  have "pointers s' = pointers s"
    using write_and_stage_frame [OF law] w by (blast dest: keepsD catalog_frameD)
  then have "map_of (current_pointers s') = (map_of (current_pointers s))(table_name_from L i \<mapsto> l)"
    by (simp add: current_pointers_def write_and_stage_InrD(4) [OF law w])
  moreover have "\<forall>rq \<in> set rqs. validate_requirement L rq base = Inr ()"
    using rq by (induction rqs) (auto simp: pthen_run lib_result_def split: sum.splits prod.splits)
  ultimately show ?thesis
    using ok up write_and_stage_InrD(2) [OF law w] write_and_stage_loads [OF law w] by auto
qed

text \<open>
  A catalog opened from a snapshot refuses to write: \<open>create_table\<close> and \<open>commit_table\<close>
  raise \<open>NotImplementedError\<close> and change nothing, no file and no staged pointer.
\<close>

lemma read_only_catalog_refuses:
  assumes "read_only s"
  shows "create_table L i sc loc ps so pr s = (Inl (NotImplementedError ''read-only catalog''), s)
    \<and> commit_table L t rqs ups s = (Inl (NotImplementedError ''read-only catalog''), s)"
  using assms by (simp add: create_table_def commit_table_def assert_writable_def pthen_run pbind_run)

text \<open>
  C33. The safety properties reach every table created: \<open>gc.enabled\<close> and
  \<open>write.metadata.delete-after-commit.enabled\<close> are passed as \<open>"false"\<close> unless the caller gave
  the key a value of its own, which then wins.
\<close>

theorem safety_properties_applied:
  assumes stores: "\<And>sc ps so loc d m. new_table_metadata L sc ps so loc d = Inr m \<Longrightarrow> props_of m = map_of d"
    and run: "create_table L i sc loc ps so pr s = (Inr t :: 'b exn + 'm iceberg_table, s')"
    and key: "k \<in> set (dict_keys SAFETY_PROPERTIES)"
  shows "props_of (table_metadata t) k =
     (case map_of pr k of None \<Rightarrow> Some ''false'' | Some v \<Rightarrow> Some v)"
proof -
  from create_table_InrD [OF run]
  have "props_of (table_metadata t) = map_of (dict_merge SAFETY_PROPERTIES pr)"
    by (auto dest: stores)
  with key show ?thesis
    by (auto simp: map_add_def SAFETY_PROPERTIES_def dict_keys_def split: option.splits)
qed

end
