(* ===== verification/Validation.thy ===== *)
theory Validation
  imports Catalog
begin

text \<open>
  \<open>src/icechest/validation.py\<close>: which snapshots between the version an operation was planned
  against and the version that won added rows the operation's predicate matches. The walk over
  the manifests is PyIceberg's; what the module relies on is stated below as \<open>walk_law\<close>.
\<close>

definition as_predicate ::
    "('s, 'f, 'r, 'm, 'b, 'd, 'o, 'z) iceberg_lib_scheme \<Rightarrow> 'b predicate \<Rightarrow> 'b exn + 'b" where
  "as_predicate L p =
     (case p of PText t \<Rightarrow> lib_result (parse_expr L t) | PExpr e \<Rightarrow> Inr e)"

definition window_ids :: "int \<Rightarrow> int option list \<Rightarrow> int list" where
  "window_ids base entries =
     sorted_set (filter (\<lambda>i. i \<noteq> base) (concat (map (\<lambda>e. case e of None \<Rightarrow> [] | Some i \<Rightarrow> [i]) entries)))"

definition conflicting_adds ::
    "('s, 'f, 'r, 'm, 'b, 'd, 'o, 'z) iceberg_lib_scheme \<Rightarrow> 'm iceberg_table \<Rightarrow> int \<Rightarrow> int
     \<Rightarrow> 'b predicate \<Rightarrow> 'r \<Rightarrow> 'b exn + int list" where
  "conflicting_adds L table base_snapshot_id tip_snapshot_id predicate r =
     (if base_snapshot_id = tip_snapshot_id then Inr []
      else case (snapshot_by_id L (table_metadata table) base_snapshot_id,
                 snapshot_by_id L (table_metadata table) tip_snapshot_id) of
             (Some base, Some tip) \<Rightarrow>
               (case as_predicate L predicate of
                  Inl e \<Rightarrow> Inl e
                | Inr data_filter \<Rightarrow>
                    (case added_data_files L r table tip data_filter base of
                       Entries entries \<Rightarrow> Inr (window_ids base_snapshot_id entries)
                     | ValidationException e \<Rightarrow> Inr [tip_snapshot_id]
                     | WalkError e \<Rightarrow> Inl (LibError e)))
           | _ \<Rightarrow> Inr [tip_snapshot_id])"

subsection \<open>The window\<close>

lemma set_window_ids [simp]: "set (window_ids base es) = {i. Some i \<in> set es \<and> i \<noteq> base}"
  by (force simp: window_ids_def split: option.splits)

lemma window_ids_sorted: "sorted (window_ids base es)" "distinct (window_ids base es)"
  by (simp_all add: window_ids_def sorted_sorted_set)

lemma window_ids_empty: "window_ids base es = [] \<longleftrightarrow> (\<forall>i. Some i \<in> set es \<longrightarrow> i = base)"
  by (metis (mono_tags, lifting) empty_iff empty_set mem_Collect_eq set_empty set_window_ids
      ex_in_conv)

text \<open>
  What PyIceberg's walk gives. \<open>lineage m tip base\<close> is the list of snapshot ids from \<open>tip\<close> back to
  and including \<open>base\<close>, if \<open>base\<close> is an ancestor; \<open>adds m i e\<close> says that snapshot \<open>i\<close> added a data
  file whose statistics do not rule out a row matching \<open>e\<close>. A walk that completes reached the
  base, and names exactly the snapshots on the way, the base included, that added such a file.
\<close>

definition walk_law ::
    "('s, 'f, 'r, 'm, 'b, 'd, 'o, 'z) iceberg_lib_scheme
     \<Rightarrow> ('m \<Rightarrow> int \<Rightarrow> int \<Rightarrow> int list option) \<Rightarrow> ('m \<Rightarrow> int \<Rightarrow> 'b \<Rightarrow> bool) \<Rightarrow> bool" where
  "walk_law L lineage adds \<longleftrightarrow>
     (\<forall>r t tip e base tip_id base_id es.
        snapshot_by_id L (table_metadata t) tip_id = Some tip
        \<longrightarrow> snapshot_by_id L (table_metadata t) base_id = Some base
        \<longrightarrow> added_data_files L r t tip e base = Entries es
        \<longrightarrow> (\<exists>path. lineage (table_metadata t) tip_id base_id = Some path
              \<and> (\<forall>i. Some i \<in> set es \<longleftrightarrow> i \<in> set path \<and> adds (table_metadata t) i e)))"

text \<open>No snapshot after \<open>base\<close>, up to and including \<open>tip\<close>, added a file that may match.\<close>

definition clean_window ::
    "('m \<Rightarrow> int \<Rightarrow> int \<Rightarrow> int list option) \<Rightarrow> ('m \<Rightarrow> int \<Rightarrow> 'b \<Rightarrow> bool) \<Rightarrow> 'm \<Rightarrow> int \<Rightarrow> int \<Rightarrow> 'b \<Rightarrow> bool" where
  "clean_window lineage adds m base tip e \<longleftrightarrow>
     (\<exists>path. lineage m tip base = Some path \<and> (\<forall>i \<in> set path. i \<noteq> base \<longrightarrow> \<not> adds m i e))"

lemma conflicting_adds_empty:
  assumes law: "walk_law L lineage adds"
    and run: "conflicting_adds L t base tip p r = (Inr [] :: 'b exn + _)"
  shows "base = tip
    \<or> (\<exists>e. as_predicate L p = (Inr e :: 'b exn + _) \<and> clean_window lineage adds (table_metadata t) base tip e)"
proof (cases "base = tip")
  case False
  with run obtain b tp e es where
    snaps: "snapshot_by_id L (table_metadata t) base = Some b" "snapshot_by_id L (table_metadata t) tip = Some tp"
    and e: "as_predicate L p = (Inr e :: 'b exn + _)"
    and es: "added_data_files L r t tp e b = Entries es" "window_ids base es = []"
    by (auto simp: conflicting_adds_def split: option.splits sum.splits walk.splits)
  from law snaps es(1) obtain path where "lineage (table_metadata t) tip base = Some path"
    and "\<forall>i. Some i \<in> set es \<longleftrightarrow> i \<in> set path \<and> adds (table_metadata t) i e"
    unfolding walk_law_def by blast
  with es(2) have "clean_window lineage adds (table_metadata t) base tip e"
    by (auto simp: clean_window_def window_ids_empty)
  with e show ?thesis by blast
qed simp

text \<open>
  C29. The window is exactly (base, tip]: when the walk completes, the ids reported are, sorted
  and without repetition, the snapshots after the base up to and including the tip that added a
  file which may match; the base's own additions are never reported.
\<close>

theorem conflicting_adds_exact:
  assumes law: "walk_law L lineage adds" and "base \<noteq> tip"
    and "snapshot_by_id L (table_metadata t) base = Some b"
    and "snapshot_by_id L (table_metadata t) tip = Some tp"
    and "as_predicate L p = (Inr e :: 'b exn + 'b)"
    and "added_data_files L r t tp e b = Entries es"
  shows "\<exists>ids path. conflicting_adds L t base tip p r = (Inr ids :: 'b exn + int list)
    \<and> lineage (table_metadata t) tip base = Some path
    \<and> sorted ids \<and> distinct ids
    \<and> set ids = {i \<in> set path. i \<noteq> base \<and> adds (table_metadata t) i e}"
proof -
  from assms obtain path where path: "lineage (table_metadata t) tip base = Some path"
    and ids: "\<forall>i. Some i \<in> set es \<longleftrightarrow> i \<in> set path \<and> adds (table_metadata t) i e"
    unfolding walk_law_def by blast
  have "conflicting_adds L t base tip p r = (Inr (window_ids base es) :: 'b exn + int list)"
    using assms by (simp add: conflicting_adds_def)
  moreover have "set (window_ids base es) = {i \<in> set path. i \<noteq> base \<and> adds (table_metadata t) i e}"
    using ids by auto
  ultimately show ?thesis
    using path window_ids_sorted [of base es] by blast
qed

text \<open>
  Nothing is taken as safe without proof: when either end of the window is unknown to the
  winner's table, or the walk back does not reach the base, the tip itself is reported as a
  conflict, whatever the predicate.
\<close>

lemma unprovable_window_conflicts:
  assumes "base \<noteq> tip"
    and "snapshot_by_id L (table_metadata t) base = None \<or> snapshot_by_id L (table_metadata t) tip = None
      \<or> (\<exists>b tp e msg. snapshot_by_id L (table_metadata t) base = Some b
            \<and> snapshot_by_id L (table_metadata t) tip = Some tp
            \<and> as_predicate L p = (Inr e :: 'b exn + 'b)
            \<and> added_data_files L r t tp e b = ValidationException msg)"
  shows "conflicting_adds L t base tip p r = (Inr [tip] :: 'b exn + int list)"
  using assms by (auto simp: conflicting_adds_def split: option.splits)

end
