(* ===== verification/Convention.thy ===== *)
theory Convention
  imports Reference
begin

text \<open>
  \<open>src/icechest/convention.py\<close>: how the root Zarr group declares its tables. Attributes are
  JSON values; where the code calls a method a value of that shape does not have, the model
  raises what Python raises (\<open>TypeError\<close>, \<open>AttributeError\<close>). A non-object under
  \<open>iceberg:tables\<close>, and a binding whose location is not a string, are outside the types the
  code declares and are modelled as \<open>TypeError\<close>.
\<close>

subsection \<open>Constants\<close>

definition CONVENTION_UUID :: string where
  "CONVENTION_UUID = ''66da9667-d40f-46cb-93a5-7c915af5f7dc''"

definition CONVENTION_NAME :: string where
  "CONVENTION_NAME = ''iceberg:''"

definition CONVENTION_VERSION :: string where
  "CONVENTION_VERSION = ''1''"

definition SCHEMA_URL :: string where
  "SCHEMA_URL = ''https://raw.githubusercontent.com/developmentseed/icechest/''
     @ ''refs/tags/v1/conventions/icechunk-iceberg/schema.json''"

definition SPEC_URL :: string where
  "SPEC_URL = ''https://github.com/developmentseed/icechest/blob/v1/''
     @ ''conventions/icechunk-iceberg/README.md''"

definition CONVENTIONS_KEY :: string where
  "CONVENTIONS_KEY = ''zarr_conventions''"

definition TABLES_ATTR :: string where
  "TABLES_ATTR = ''iceberg:tables''"

definition VERSION_ATTR :: string where
  "VERSION_ATTR = ''iceberg:version''"

definition CONVENTION_METADATA_OBJECT :: "(string, string) dict" where
  "CONVENTION_METADATA_OBJECT =
     [(''uuid'', CONVENTION_UUID),
      (''schema_url'', SCHEMA_URL),
      (''spec_url'', SPEC_URL),
      (''name'', CONVENTION_NAME),
      (''description'',
       ''Binds a Zarr group to Apache Iceberg tables describing its arrays, ''
       @ ''with the current table version resolved from the Icechunk snapshot.'')]"

definition json_of_strings :: "(string, string) dict \<Rightarrow> 'f json" where
  "json_of_strings d = JObj (map (\<lambda>(k, v). (k, JStr v)) d)"

subsection \<open>Bindings\<close>

record table_binding =
  binding_location :: string

definition to_attrs :: "table_binding \<Rightarrow> 'f json" where
  "to_attrs b = JObj [(''location'', JStr (binding_location b))]"

fun from_attrs :: "'f json \<Rightarrow> 'b exn + table_binding" where
  "from_attrs (JObj raw) =
     (case map_of raw ''location'' of
        None \<Rightarrow> Inl (KeyError ''location'' [])
      | Some (JStr l) \<Rightarrow> Inr \<lparr>binding_location = l\<rparr>
      | Some _ \<Rightarrow> Inl TypeError)"
| "from_attrs _ = Inl TypeError"

lemma from_to_attrs [simp]: "from_attrs (to_attrs b) = Inr b"
  by (simp add: to_attrs_def)

definition binding_of_attrs :: "'f json \<Rightarrow> table_binding option" where
  "binding_of_attrs j = (case from_attrs j :: unit exn + _ of Inl e \<Rightarrow> None | Inr b \<Rightarrow> Some b)"

interpretation binding: codec to_attrs binding_of_attrs
  by unfold_locales (simp add: binding_of_attrs_def)

subsection \<open>Reading the attributes\<close>

text \<open>\<open>list(attrs.get(key) or [])\<close> and \<open>dict(attrs.get(key) or {})\<close>.\<close>

definition attr_list :: "(string, 'f :: zero json) dict \<Rightarrow> string \<Rightarrow> 'b exn + 'f json list" where
  "attr_list attrs key =
     (case map_of attrs key of
        None \<Rightarrow> Inr []
      | Some v \<Rightarrow>
          if \<not> json_truthy v then Inr []
          else (case v of
                  JList xs \<Rightarrow> Inr xs
                | JObj d \<Rightarrow> Inr (map (\<lambda>(k, _). JStr k) d)
                | JStr s \<Rightarrow> Inr (map (\<lambda>c. JStr [c]) s)
                | _ \<Rightarrow> Inl TypeError))"

definition attr_dict :: "(string, 'f :: zero json) dict \<Rightarrow> string \<Rightarrow> 'b exn + (string, 'f json) dict" where
  "attr_dict attrs key =
     (case map_of attrs key of
        None \<Rightarrow> Inr []
      | Some v \<Rightarrow>
          if \<not> json_truthy v then Inr []
          else (case v of JObj d \<Rightarrow> Inr d | _ \<Rightarrow> Inl TypeError))"

text \<open>\<open>any(cmo.get("uuid") == CONVENTION_UUID for cmo in declared)\<close>, stopping at the first hit.\<close>

fun any_declared :: "'f json list \<Rightarrow> 'b exn + bool" where
  "any_declared [] = Inr False"
| "any_declared (JObj cmo # rest) =
     (case map_of cmo ''uuid'' of
        Some v \<Rightarrow> if json_eq v (JStr CONVENTION_UUID) then Inr True else any_declared rest
      | None \<Rightarrow> any_declared rest)"
| "any_declared (_ # rest) = Inl AttributeError"

definition is_declared ::
    "('s, 'f :: zero, 'z) zarr_lib_scheme \<Rightarrow> ('s, 'b exn, bool) pgm" where
  "is_declared L =
     pbind (pget (get_attrs L)) (\<lambda>attrs.
     pbind (plift (attr_list attrs CONVENTIONS_KEY)) (\<lambda>declared.
     plift (any_declared declared)))"

fun bindings_of :: "(string, 'f json) dict \<Rightarrow> 'b exn + (string, table_binding) dict" where
  "bindings_of [] = Inr []"
| "bindings_of ((name, b) # raw) =
     (case from_attrs b of
        Inl e \<Rightarrow> Inl e
      | Inr tb \<Rightarrow> (case bindings_of raw of Inl e \<Rightarrow> Inl e | Inr rest \<Rightarrow> Inr ((name, tb) # rest)))"

definition read_bindings ::
    "('s, 'f :: zero, 'z) zarr_lib_scheme \<Rightarrow> ('s, 'b exn, (string, table_binding) dict) pgm" where
  "read_bindings L =
     pbind (pget (get_attrs L)) (\<lambda>attrs.
     pbind (plift (attr_dict attrs TABLES_ATTR)) (\<lambda>raw.
     plift (bindings_of raw)))"

subsection \<open>Declaring\<close>

definition declared_attrs ::
    "(string, 'f :: zero json) dict \<Rightarrow> (string, table_binding) dict \<Rightarrow> 'b exn + (string, 'f json) dict" where
  "declared_attrs attrs bindings =
     (case attr_list attrs CONVENTIONS_KEY of
        Inl e \<Rightarrow> Inl e
      | Inr declared0 \<Rightarrow>
     (case any_declared declared0 of
        Inl e \<Rightarrow> Inl e
      | Inr found \<Rightarrow>
     (case attr_dict attrs TABLES_ATTR of
        Inl e \<Rightarrow> Inl e
      | Inr tables0 \<Rightarrow>
          let declared = (if found then declared0
                          else declared0 @ [json_of_strings CONVENTION_METADATA_OBJECT]);
              tables = dict_merge tables0 (map (\<lambda>(name, b). (name, to_attrs b)) bindings)
          in Inr [(CONVENTIONS_KEY, JList declared),
                  (VERSION_ATTR, JStr CONVENTION_VERSION),
                  (TABLES_ATTR, JObj tables)])))"

definition attrs_unchanged :: "(string, 'f json) dict \<Rightarrow> (string, 'f json) dict \<Rightarrow> bool" where
  "attrs_unchanged attrs updated =
     list_all (\<lambda>(k, v). case map_of attrs k of None \<Rightarrow> False | Some w \<Rightarrow> json_eq w v) updated"

definition declare_tables ::
    "('s, 'f :: zero, 'z) zarr_lib_scheme \<Rightarrow> (string, table_binding) dict \<Rightarrow> ('s, 'b exn, unit) pgm" where
  "declare_tables L bindings =
     pbind (pget (get_attrs L)) (\<lambda>attrs.
     pbind (plift (declared_attrs attrs bindings)) (\<lambda>updated.
     if attrs_unchanged attrs updated then pret ()
     else (\<lambda>s. case update_attrs L s updated of (r, s') \<Rightarrow> (lib_result r, s'))))"

subsection \<open>What declaring does\<close>

lemma any_declared_append:
  "any_declared xs = (Inr False :: 'b exn + bool) \<Longrightarrow> any_declared (xs @ ys) = (any_declared ys :: 'b exn + bool)"
  by (induction xs rule: any_declared.induct) (auto split: option.splits if_splits)

lemma any_declared_cmo [simp]:
  "any_declared [json_of_strings CONVENTION_METADATA_OBJECT] = Inr True"
  by (simp add: json_of_strings_def CONVENTION_METADATA_OBJECT_def)

lemma bindings_of_ok:
  "(\<exists>d. bindings_of raw = (Inr d :: 'b exn + _)) \<longleftrightarrow> (\<forall>p \<in> set raw. \<exists>b. from_attrs (snd p) = (Inr b :: 'b exn + _))"
  by (induction raw rule: bindings_of.induct) (auto split: sum.splits)

lemma bindings_of_lookup:
  "bindings_of raw = (Inr d :: 'b exn + _) \<Longrightarrow>
     map_of d n = Option.bind (map_of raw n) (\<lambda>j. projr_option (from_attrs j :: 'b exn + _))"
proof (induction raw arbitrary: d)
  case Nil
  then show ?case by simp
next
  case (Cons p raw)
  then show ?case by (cases p) (auto split: sum.splits)
qed

text \<open>The three attributes a declaration asks for.\<close>

definition declaration_attrs :: "'f json list \<Rightarrow> (string, 'f json) dict \<Rightarrow> (string, 'f json) dict" where
  "declaration_attrs declared tables =
     [(CONVENTIONS_KEY, JList declared), (VERSION_ATTR, JStr CONVENTION_VERSION),
      (TABLES_ATTR, JObj tables)]"

lemma declaration_keys [simp]:
  "CONVENTIONS_KEY \<noteq> VERSION_ATTR" "CONVENTIONS_KEY \<noteq> TABLES_ATTR" "VERSION_ATTR \<noteq> TABLES_ATTR"
  "VERSION_ATTR \<noteq> CONVENTIONS_KEY" "TABLES_ATTR \<noteq> CONVENTIONS_KEY" "TABLES_ATTR \<noteq> VERSION_ATTR"
  by (simp_all add: CONVENTIONS_KEY_def VERSION_ATTR_def TABLES_ATTR_def)

lemma map_of_declaration_attrs:
  "map_of (declaration_attrs declared tables) k =
     (if k = CONVENTIONS_KEY then Some (JList declared)
      else if k = VERSION_ATTR then Some (JStr CONVENTION_VERSION)
      else if k = TABLES_ATTR then Some (JObj tables) else None)"
  by (simp add: declaration_attrs_def)

lemma declared_attrs_Inr_iff:
  "declared_attrs attrs bs = (Inr upd :: 'b exn + _) \<longleftrightarrow>
     (\<exists>declared0 found tables0.
        attr_list attrs CONVENTIONS_KEY = (Inr declared0 :: 'b exn + _)
        \<and> any_declared declared0 = (Inr found :: 'b exn + bool)
        \<and> attr_dict attrs TABLES_ATTR = (Inr tables0 :: 'b exn + _)
        \<and> upd = declaration_attrs
            (if found then declared0 else declared0 @ [json_of_strings CONVENTION_METADATA_OBJECT])
            (dict_merge tables0 (map (\<lambda>(name, b). (name, to_attrs b)) bs)))"
  by (auto simp: declared_attrs_def declaration_attrs_def Let_def split: sum.splits)

lemma declare_tables_Inr_iff:
  "declare_tables L bs s = (Inr u :: 'b exn + unit, s') \<longleftrightarrow>
     (\<exists>upd. declared_attrs (get_attrs L s) bs = (Inr upd :: 'b exn + _)
        \<and> (if attrs_unchanged (get_attrs L s) upd then s' = s
           else update_attrs L s upd = (Inr (), s')))"
  by (auto simp: declare_tables_def pbind_run lib_result_def split: sum.splits prod.splits)

text \<open>Asking again for what a declaration asked for asks for nothing new.\<close>

lemma declared_attrs_again:
  fixes attrs attrs' :: "(string, 'f :: zero json) dict"
  assumes first: "declared_attrs attrs bs = (Inr upd :: 'b exn + _)"
    and attrs': "map_of attrs' = map_of attrs ++ map_of upd"
  obtains upd' where "declared_attrs attrs' bs = (Inr upd' :: 'b exn + _)"
    and "attrs_unchanged attrs' upd'"
proof -
  let ?new = "map (\<lambda>(name, b). (name, to_attrs b)) bs :: (string, 'f json) dict"
  from first obtain declared0 found tables0 where
    found: "any_declared declared0 = (Inr found :: 'b exn + bool)"
    and upd: "upd = declaration_attrs
            (if found then declared0 else declared0 @ [json_of_strings CONVENTION_METADATA_OBJECT])
            (dict_merge tables0 ?new)" (is "upd = declaration_attrs ?declared ?tables")
    by (auto simp: declared_attrs_Inr_iff)
  have look: "map_of attrs' CONVENTIONS_KEY = Some (JList ?declared)"
    "map_of attrs' VERSION_ATTR = Some (JStr CONVENTION_VERSION)"
    "map_of attrs' TABLES_ATTR = Some (JObj ?tables)"
    by (simp_all add: attrs' upd map_add_def map_of_declaration_attrs)
  have list': "attr_list attrs' CONVENTIONS_KEY = (Inr ?declared :: 'b exn + _)"
    and dict': "attr_dict attrs' TABLES_ATTR = (Inr ?tables :: 'b exn + _)"
    by (auto simp: attr_list_def attr_dict_def look)
  have found': "any_declared ?declared = (Inr True :: 'b exn + bool)"
    using found by (auto simp: any_declared_append)
  have "declared_attrs attrs' bs = (Inr (declaration_attrs ?declared (dict_merge ?tables ?new)) :: 'b exn + _)"
    unfolding declared_attrs_Inr_iff using list' dict' found' by force
  moreover have "attrs_unchanged attrs' (declaration_attrs ?declared (dict_merge ?tables ?new))"
    by (auto simp: attrs_unchanged_def declaration_attrs_def look intro!: json_eq_JObj)
  ultimately show thesis by (rule that)
qed

text \<open>
  C30. Declaring the same bindings a second time changes nothing: whatever attributes the root
  group held, once a declaration has gone through, repeating it returns without touching the
  session, so it cannot dirty the Zarr node.
\<close>

theorem declare_idempotent:
  assumes "attrs_law L" and "declare_tables L bs s = (Inr u :: 'b exn + unit, s')"
  shows "declare_tables L bs s' = (Inr () :: 'b exn + unit, s')"
proof -
  from assms(2) obtain upd where upd: "declared_attrs (get_attrs L s) bs = (Inr upd :: 'b exn + _)"
    and run: "if attrs_unchanged (get_attrs L s) upd then s' = s else update_attrs L s upd = (Inr (), s')"
    by (auto simp: declare_tables_Inr_iff)
  show ?thesis
  proof (cases "attrs_unchanged (get_attrs L s) upd")
    case True
    with run assms(2) show ?thesis by simp
  next
    case False
    with run assms(1) have "map_of (get_attrs L s') = map_of (get_attrs L s) ++ map_of upd"
      by (simp add: attrs_law_def)
    with upd show ?thesis
      by (auto simp: declare_tables_Inr_iff elim: declared_attrs_again)
  qed
qed

text \<open>Either way the root group then carries the attributes the declaration asked for.\<close>

lemma declare_tables_attrs:
  assumes law: "attrs_law L" and run: "declare_tables L bs s = (Inr u :: 'b exn + unit, s')"
  shows "\<exists>upd. declared_attrs (get_attrs L s) bs = (Inr upd :: 'b exn + _)
     \<and> (\<forall>k. case map_of upd k of
            None \<Rightarrow> map_of (get_attrs L s') k = map_of (get_attrs L s) k
          | Some v \<Rightarrow> (\<exists>w. map_of (get_attrs L s') k = Some w \<and> json_eq w v))"
  using run law
  by (fastforce simp: declare_tables_Inr_iff attrs_law_def attrs_unchanged_def list_all_iff map_add_def
      split: option.splits if_splits dest: map_of_SomeD)

lemma from_attrs_json_eq:
  "json_eq v w \<Longrightarrow> from_attrs w = (Inr b :: 'b exn + _) \<Longrightarrow> from_attrs v = (Inr b :: 'b exn + _)"
proof (cases w)
  case (JObj e)
  assume eq: "json_eq v w" and w: "from_attrs w = (Inr b :: 'b exn + _)"
  from w JObj obtain l where e: "map_of e ''location'' = Some (JStr l)" and b: "b = \<lparr>binding_location = l\<rparr>"
    by (auto split: option.splits json.splits)
  from eq JObj obtain d where v: "v = JObj d" and dom: "dom (map_of d) = dom (map_of e)"
    and ent: "\<And>k x y. map_of d k = Some x \<Longrightarrow> map_of e k = Some y \<Longrightarrow> json_eq x y"
    by (auto simp: json_eq_JObj_iff)
  from dom e obtain x where x: "map_of d ''location'' = Some x" by (metis domD domI)
  with ent e have "x = JStr l" by force
  with v b x show ?thesis by simp
qed auto

lemma attrs_unchanged_declared:
  assumes upd: "declared_attrs attrs bs = (Inr upd :: 'b exn + _)" and same: "attrs_unchanged attrs upd"
    and declared0: "attr_list attrs CONVENTIONS_KEY = (Inr declared0 :: 'b exn + _)"
  shows "any_declared declared0 = (Inr True :: 'b exn + bool)"
proof -
  from upd declared0 obtain found tables where
    found: "any_declared declared0 = (Inr found :: 'b exn + bool)"
    and upd_eq: "upd = declaration_attrs
      (if found then declared0 else declared0 @ [json_of_strings CONVENTION_METADATA_OBJECT]) tables"
    by (auto simp: declared_attrs_Inr_iff)
  from same upd_eq obtain w where w: "map_of attrs CONVENTIONS_KEY = Some w"
    and eq: "json_eq w (JList
      (if found then declared0 else declared0 @ [json_of_strings CONVENTION_METADATA_OBJECT]))"
    by (auto simp: attrs_unchanged_def declaration_attrs_def split: option.splits)
  have found
  proof (rule ccontr)
    assume "\<not> found"
    with eq obtain ys where ys: "w = JList ys" "length ys = Suc (length declared0)"
      by (auto simp: json_eq_JList_iff dest: list_all2_lengthD)
    with w declared0 show False by (auto simp: attr_list_def split: if_splits)
  qed
  with found show ?thesis by simp
qed

text \<open>Merging declared bindings into a group's tables overlays the bindings read from them.\<close>

abbreviation binding_entries :: "(string, table_binding) dict \<Rightarrow> (string, 'f json) dict" where
  "binding_entries bs \<equiv> map (\<lambda>(name, b). (name, to_attrs b)) bs"

lemma binding_entries_lookup: "map_of (binding_entries bs) = map_option to_attrs \<circ> map_of bs"
  by (rule map_of_map)

lemma merged_bindings:
  assumes raw: "bindings_of tables0 = (Inr old :: 'b exn + _)"
  shows "\<exists>d. bindings_of (dict_merge tables0 (binding_entries bs)) = (Inr d :: 'b exn + _)
    \<and> map_of d = map_of old ++ map_of bs"
proof -
  have parse: "\<forall>p \<in> set tables0. \<exists>b. from_attrs (snd p) = (Inr b :: 'b exn + _)"
    using raw by (simp only: bindings_of_ok [symmetric]) blast
  have "\<exists>b. from_attrs (snd p) = (Inr b :: 'b exn + _)" if "p \<in> set (dict_merge tables0 (binding_entries bs))" for p
    using snd_set_dict_merge [OF that]
  proof
    assume "snd p \<in> snd ` set tables0"
    then obtain q where "q \<in> set tables0" and "snd p = snd q" by (rule imageE) simp
    with parse show ?thesis by simp
  qed auto
  then obtain d where d: "bindings_of (dict_merge tables0 (binding_entries bs)) = (Inr d :: 'b exn + _)"
    using bindings_of_ok [where raw = "dict_merge tables0 (binding_entries bs)" and 'b = 'b] by blast
  moreover have "map_of d = map_of old ++ map_of bs"
    by (rule ext)
      (auto simp: bindings_of_lookup [OF d] bindings_of_lookup [OF raw] binding_entries_lookup map_add_def
        split: option.splits)
  ultimately show ?thesis by blast
qed

text \<open>Where the merge changes nothing, the bindings were declared already.\<close>

lemma unchanged_bindings:
  assumes raw: "bindings_of tables0 = (Inr old :: 'b exn + _)"
    and tables0: "attr_dict attrs TABLES_ATTR = (Inr tables0 :: 'b exn + _)"
    and same: "attrs_unchanged attrs (declaration_attrs declared (dict_merge tables0 (binding_entries bs)))"
  shows "map_of old = map_of old ++ map_of bs"
proof (rule ext)
  fix n
  let ?tables = "dict_merge tables0 (binding_entries bs)"
  from same obtain w where w: "map_of attrs TABLES_ATTR = Some w" and eq: "json_eq w (JObj ?tables)"
    by (auto simp: attrs_unchanged_def declaration_attrs_def split: option.splits)
  from eq obtain d where d: "w = JObj d" and dom: "dom (map_of d) = dom (map_of ?tables)"
    and ent: "\<And>k x y. map_of d k = Some x \<Longrightarrow> map_of ?tables k = Some y \<Longrightarrow> json_eq x y"
    by (auto simp: json_eq_JObj_iff)
  from d w tables0 have td: "tables0 = d" by (auto simp: attr_dict_def split: if_splits)
  show "map_of old n = (map_of old ++ map_of bs) n"
  proof (cases "map_of bs n")
    case (Some b)
    then have t: "map_of ?tables n = Some (to_attrs b)" by (simp add: binding_entries_lookup map_add_def)
    then have "n \<in> dom (map_of ?tables)" by blast
    then obtain x where x: "map_of d n = Some x" unfolding dom [symmetric] by blast
    then have "json_eq x (to_attrs b)" using t by (rule ent)
    then have "from_attrs x = (Inr b :: 'b exn + _)" by (rule from_attrs_json_eq) simp
    with x td raw Some show ?thesis by (simp add: bindings_of_lookup map_add_def)
  qed (simp add: map_add_def)
qed

text \<open>
  C31. Declaring bindings adds exactly them: after a successful declaration the root group
  declares the convention, and reading the bindings back gives the earlier ones overlaid with
  the declared ones.
\<close>

theorem declare_binds:
  fixes L :: "('s, 'f :: zero, 'z) zarr_lib_scheme"
  assumes law: "attrs_law L"
    and old: "read_bindings L s = (Inr old :: 'b exn + _, s)"
    and run: "declare_tables L bs s = (Inr u :: 'b exn + unit, s')"
  shows "is_declared L s' = (Inr True :: 'b exn + bool, s')
    \<and> (\<exists>new. read_bindings L s' = (Inr new :: 'b exn + _, s') \<and> map_of new = map_of old ++ map_of bs)"
proof -
  from run obtain upd where upd: "declared_attrs (get_attrs L s) bs = (Inr upd :: 'b exn + _)"
    and step: "if attrs_unchanged (get_attrs L s) upd then s' = s else update_attrs L s upd = (Inr (), s')"
    by (auto simp: declare_tables_Inr_iff)
  from upd obtain declared0 found tables0 where
    declared0: "attr_list (get_attrs L s) CONVENTIONS_KEY = (Inr declared0 :: 'b exn + _)"
    and found: "any_declared declared0 = (Inr found :: 'b exn + bool)"
    and tables0: "attr_dict (get_attrs L s) TABLES_ATTR = (Inr tables0 :: 'b exn + _)"
    and upd_eq: "upd = declaration_attrs
       (if found then declared0 else declared0 @ [json_of_strings CONVENTION_METADATA_OBJECT])
       (dict_merge tables0 (binding_entries bs))" (is "_ = declaration_attrs ?declared ?tables")
    by (auto simp: declared_attrs_Inr_iff)
  from old tables0 have raw: "bindings_of tables0 = (Inr old :: 'b exn + _)"
    by (simp add: read_bindings_def pbind_run)
  show ?thesis
  proof (cases "attrs_unchanged (get_attrs L s) upd")
    case True
    have "is_declared L s = (Inr True :: 'b exn + bool, s)"
      using attrs_unchanged_declared [OF upd True declared0] declared0
      by (simp add: is_declared_def pbind_run)
    with True step old unchanged_bindings [OF raw tables0 True [unfolded upd_eq]] show ?thesis by auto
  next
    case False
    with step law have attrs': "map_of (get_attrs L s') = map_of (get_attrs L s) ++ map_of upd"
      by (simp add: attrs_law_def)
    have look: "map_of (get_attrs L s') CONVENTIONS_KEY = Some (JList ?declared)"
      "map_of (get_attrs L s') TABLES_ATTR = Some (JObj ?tables)"
      by (simp_all add: attrs' upd_eq map_add_def map_of_declaration_attrs)
    have "is_declared L s' = (Inr True :: 'b exn + bool, s')"
      using found by (auto simp: is_declared_def pbind_run attr_list_def look any_declared_append)
    moreover obtain d where "bindings_of ?tables = (Inr d :: 'b exn + _)" "map_of d = map_of old ++ map_of bs"
      using merged_bindings [OF raw] by blast
    ultimately show ?thesis
      by (auto simp: read_bindings_def pbind_run attr_dict_def look)
  qed
qed

end
