(* ===== verification/Transaction.thy ===== *)
theory Transaction
  imports Validation Convention
begin

text \<open>
  \<open>src/icechest/transaction.py\<close>, first part: the table intents, the state of a
  \<open>HybridTransaction\<close>, opening one and staging work on it. A transaction owns its catalog, so
  its record extends the catalog's; the Icechunk session is a field. The part of \<open>HybridRepo\<close>
  a transaction needs (the warehouse and the FileIO properties) is the record \<open>hybrid_repo\<close>.
\<close>

subsection \<open>HybridRepo and its catalogs\<close>

record hybrid_repo =
  repo_warehouse :: string
  repo_io_properties :: "(string, string) dict"

definition hybrid_repo_init :: "string \<Rightarrow> (string, string) dict option \<Rightarrow> hybrid_repo" where
  "hybrid_repo_init warehouse0 io0 =
     \<lparr>repo_warehouse = rstrip_slash warehouse0,
      repo_io_properties = (case io0 of None \<Rightarrow> [] | Some d \<Rightarrow> d)\<rparr>"

text \<open>\<open>'h\<close> is the Icechunk repository that \<open>Repository.open_or_create\<close> opens, kept beside the settings.\<close>

definition hybrid_repo_create ::
    "('st \<Rightarrow> string + 'h) \<Rightarrow> 'st \<Rightarrow> string \<Rightarrow> (string, string) dict option \<Rightarrow> 'b exn + 'h \<times> hybrid_repo" where
  "hybrid_repo_create open_or_create storage warehouse0 io0 =
     rbind (lib_result (open_or_create storage)) (\<lambda>h. Inr (h, hybrid_repo_init warehouse0 io0))"

definition catalog_for ::
    "hybrid_repo \<Rightarrow> (string, string) dict \<Rightarrow> bool \<Rightarrow> ('r, 'y) process_scheme \<Rightarrow> 'r catalog_state" where
  "catalog_for conf ptrs ro p =
     catalog_init (repo_warehouse conf) (Some ptrs) (Some (repo_io_properties conf)) ro p"

subsection \<open>Intents\<close>

datatype ('d, 'b, 'o) intent =
    CreateTable (intent_name: string) (create_schema: 'o) (create_location: string)
      (create_properties: "(string, string) dict") (create_partition_spec: 'o) (create_sort_order: 'o)
  | AppendRows (intent_name: string) (append_data: 'd)
  | DeleteRows (intent_name: string) (delete_predicate: "'b predicate")
  | OverwriteRows (intent_name: string) (overwrite_data: 'd) (overwrite_predicate: "'b predicate")

text \<open>
  A PyIceberg table operation that hands its result back to the catalog that loaded the table:
  it may write data files, and then calls \<open>commit_table\<close> unless there is nothing to commit.
\<close>

definition hand_back ::
    "('s, 'f, 'r, 'm, 'b, 'd, 'o, 'z) iceberg_lib_scheme \<Rightarrow> 'm iceberg_table
     \<Rightarrow> ('r \<Rightarrow> ('r, 'o) plan) \<Rightarrow> (('r, 'y) catalog_state_scheme, 'b exn, unit) pgm" where
  "hand_back L t operation =
     (\<lambda>s. case operation (remote s) of
            (Inl e, r) \<Rightarrow> (Inl (LibError e), s\<lparr>remote := r\<rparr>)
          | (Inr None, r) \<Rightarrow> (Inr (), s\<lparr>remote := r\<rparr>)
          | (Inr (Some (rqs, ups)), r) \<Rightarrow>
              pbind (commit_table L t rqs ups) (\<lambda>_. pret ()) (s\<lparr>remote := r\<rparr>))"

fun intent_apply ::
    "('s, 'f, 'r, 'm, 'b, 'd, 'o, 'z) iceberg_lib_scheme \<Rightarrow> ('d, 'b, 'o) intent
     \<Rightarrow> (('r, 'y) catalog_state_scheme, 'b exn, unit) pgm" where
  "intent_apply L (CreateTable name schema location properties partition_spec sort_order) =
     pbind (pget (table_exists L (IdStr name))) (\<lambda>exists.
     if exists then pret ()
     else pbind (create_table L (IdStr name) schema (Some location) partition_spec sort_order properties)
            (\<lambda>_. pret ()))"
| "intent_apply L (AppendRows name data) =
     pbind (load_table L (IdStr name)) (\<lambda>t. hand_back L t (\<lambda>r. append_rows L r t data))"
| "intent_apply L (DeleteRows name predicate) =
     pbind (load_table L (IdStr name)) (\<lambda>t. hand_back L t (\<lambda>r. delete_rows L r t predicate))"
| "intent_apply L (OverwriteRows name data predicate) =
     pbind (load_table L (IdStr name)) (\<lambda>t. hand_back L t (\<lambda>r. overwrite_rows L r t data predicate))"

definition validate_removal ::
    "('s, 'f, 'r, 'm, 'b, 'd, 'o, 'z) iceberg_lib_scheme \<Rightarrow> string \<Rightarrow> 'b predicate \<Rightarrow> int option
     \<Rightarrow> (('r, 'y) catalog_state_scheme, 'b exn, unit) pgm" where
  "validate_removal L name predicate base_snapshot_id =
     pbind (pget (table_exists L (IdStr name))) (\<lambda>exists.
     if \<not> exists then pret ()
     else pbind (load_table L (IdStr name)) (\<lambda>table.
       case current_snapshot_id L (table_metadata table) of
         None \<Rightarrow> pret ()
       | Some tip_snapshot_id \<Rightarrow>
           (case base_snapshot_id of
              None \<Rightarrow> praise (TableConflictError name predicate [tip_snapshot_id])
            | Some base \<Rightarrow>
                pbind (pget remote) (\<lambda>r.
                pbind (plift (conflicting_adds L table base tip_snapshot_id predicate r)) (\<lambda>ids.
                pguard (ids = []) (TableConflictError name predicate ids))))))"

fun intent_validate ::
    "('s, 'f, 'r, 'm, 'b, 'd, 'o, 'z) iceberg_lib_scheme \<Rightarrow> ('d, 'b, 'o) intent \<Rightarrow> int option
     \<Rightarrow> (('r, 'y) catalog_state_scheme, 'b exn, unit) pgm" where
  "intent_validate L (DeleteRows name predicate) base = validate_removal L name predicate base"
| "intent_validate L (OverwriteRows name data predicate) base = validate_removal L name predicate base"
| "intent_validate L _ base = pret ()"

subsection \<open>The transaction's state\<close>

record ('r, 's, 'd, 'b, 'o) transaction = "'r catalog_state" +
  repo_conf :: hybrid_repo
  branch :: string
  message :: string
  max_retries :: int
  intents :: "('d, 'b, 'o) intent list"
  base_snapshots :: "(string, int option) dict"
  unmanaged_staged :: "string list"
  session :: 's
  snapshot_id :: "string option"

definition DEFAULT_MAX_RETRIES :: int where
  "DEFAULT_MAX_RETRIES = 10"

definition tx_of ::
    "hybrid_repo \<Rightarrow> string \<Rightarrow> string \<Rightarrow> int \<Rightarrow> 's \<Rightarrow> (string, string) dict
     \<Rightarrow> ('r, 'y) process_scheme \<Rightarrow> ('r, 's, 'd, 'b, 'o) transaction" where
  "tx_of conf b msg retries sess ptrs p =
     catalog_state.extend (catalog_for conf ptrs False p)
       \<lparr>repo_conf = conf, branch = b, message = msg, max_retries = retries, intents = [],
        base_snapshots = [], unmanaged_staged = [], session = sess, snapshot_id = None\<rparr>"

text \<open>\<open>HybridTransaction.__init__\<close>: a session on the branch, and the catalog at its base snapshot.\<close>

definition tx_init ::
    "('s, 'f, 'r, 'm, 'b, 'd, 'o, 'z) iceberg_lib_scheme \<Rightarrow> hybrid_repo \<Rightarrow> string \<Rightarrow> string \<Rightarrow> int
     \<Rightarrow> 's option
     \<Rightarrow> (('r, 'y) process_scheme, 'b exn, ('r, 's, 'd, 'b, 'o) transaction) pgm" where
  "tx_init L conf b msg retries given =
     pbind (case given of
              None \<Rightarrow> call_writable_session L b
            | Some sess \<Rightarrow>
                pthen (pguard (session_branch L sess = b) (ValueError (WrongBranch (session_branch L sess) b)))
                  (pret sess)) (\<lambda>sess.
     pbind (read_pointers L (session_base L sess)) (\<lambda>ptrs.
     pget (tx_of conf b msg retries sess ptrs)))"

subsection \<open>Staging\<close>

definition on_session ::
    "('s, 'b exn, 'a) pgm \<Rightarrow> (('r, 's, 'd, 'b, 'o) transaction, 'b exn, 'a) pgm" where
  "on_session m s = (case m (session s) of (r, sess) \<Rightarrow> (r, s\<lparr>session := sess\<rparr>))"

text \<open>The \<open>group\<close> property: opening the root group in mode "a" creates it where it is missing.\<close>

definition tx_group ::
    "('s, 'f, 'r, 'm, 'b, 'd, 'o, 'z) iceberg_lib_scheme
     \<Rightarrow> (('r, 's, 'd, 'b, 'o) transaction, 'b exn, unit) pgm" where
  "tx_group L = on_session (\<lambda>sess. case open_group_a L sess of (r, sess') \<Rightarrow> (lib_result r, sess'))"

definition add_intent ::
    "('d, 'b, 'o) intent \<Rightarrow> ('r, 's, 'd, 'b, 'o) transaction \<Rightarrow> ('r, 's, 'd, 'b, 'o) transaction" where
  "add_intent i s = s\<lparr>intents := intents s @ [i]\<rparr>"

definition tx_create_table ::
    "('s, 'f :: zero, 'r, 'm, 'b, 'd, 'o, 'z) iceberg_lib_scheme \<Rightarrow> string \<Rightarrow> 'o \<Rightarrow> string option
     \<Rightarrow> (string, string) dict option \<Rightarrow> 'o \<Rightarrow> 'o
     \<Rightarrow> (('r, 's, 'd, 'b, 'o) transaction, 'b exn, unit) pgm" where
  "tx_create_table L name schema location0 properties0 partition_spec sort_order =
     pbind (pget (\<lambda>s. let default = repo_warehouse (repo_conf s) @ ''/'' @ name
                      in rstrip_slash (case location0 of
                           None \<Rightarrow> default
                         | Some l \<Rightarrow> if l = [] then default else l))) (\<lambda>location.
     pthen (tx_group L)
    (pthen (on_session (declare_tables L [(name, \<lparr>binding_location = location\<rparr>)]))
    (pmodify (add_intent
       (CreateTable name schema location (case properties0 of None \<Rightarrow> [] | Some d \<Rightarrow> d)
          partition_spec sort_order)))))"

definition tx_append ::
    "string \<Rightarrow> 'd \<Rightarrow> (('r, 's, 'd, 'b, 'o) transaction, 'b exn, unit) pgm" where
  "tx_append name data = pmodify (add_intent (AppendRows name data))"

definition capture_base_snapshot ::
    "('s, 'f, 'r, 'm, 'b, 'd, 'o, 'z) iceberg_lib_scheme \<Rightarrow> string
     \<Rightarrow> (('r, 's, 'd, 'b, 'o) transaction, 'b exn, unit) pgm" where
  "capture_base_snapshot L name =
     (\<lambda>s. if dict_has (base_snapshots s) name then (Inr (), s)
          else if \<not> dict_has (pointers s) name
          then (Inr (), s\<lparr>base_snapshots := dict_set name None (base_snapshots s)\<rparr>)
          else pbind (load_table L (IdStr name)) (\<lambda>t.
                 pmodify (\<lambda>s. s\<lparr>base_snapshots :=
                   dict_set name (current_snapshot_id L (table_metadata t)) (base_snapshots s)\<rparr>)) s)"

definition tx_delete ::
    "('s, 'f, 'r, 'm, 'b, 'd, 'o, 'z) iceberg_lib_scheme \<Rightarrow> string \<Rightarrow> 'b predicate
     \<Rightarrow> (('r, 's, 'd, 'b, 'o) transaction, 'b exn, unit) pgm" where
  "tx_delete L name predicate =
     pthen (capture_base_snapshot L name) (pmodify (add_intent (DeleteRows name predicate)))"

definition tx_overwrite ::
    "('s, 'f, 'r, 'm, 'b, 'd, 'o, 'z) iceberg_lib_scheme \<Rightarrow> string \<Rightarrow> 'd \<Rightarrow> 'b predicate
     \<Rightarrow> (('r, 's, 'd, 'b, 'o) transaction, 'b exn, unit) pgm" where
  "tx_overwrite L name data predicate =
     pthen (capture_base_snapshot L name) (pmodify (add_intent (OverwriteRows name data predicate)))"

subsection \<open>What an intent leaves alone\<close>

lemma hand_back_step:
  fixes L :: "('s, 'f, 'r, 'm, 'b, 'd, 'o, 'z) iceberg_lib_scheme"
    and R :: "('r, 'y) catalog_state_scheme \<Rightarrow> ('r, 'y) catalog_state_scheme \<Rightarrow> bool"
  assumes R: "\<And>s res r. operation (remote s) = (res, r) \<Longrightarrow> R s (s\<lparr>remote := r\<rparr>)"
    and frame: "step_frame R"
    and commit: "\<And>rqs ups. keeps R (commit_table L t rqs ups :: (_, 'b exn, _) pgm)"
  shows "keeps R (hand_back L t operation :: (_, 'b exn, _) pgm)"
proof (rule keepsI)
  fix s s' :: "('r, 'y) catalog_state_scheme" and r :: "'b exn + unit"
  assume run: "hand_back L t operation s = (r, s')"
  obtain res r1 where op1: "operation (remote s) = (res, r1)" by fastforce
  have first: "R s (s\<lparr>remote := r1\<rparr>)" by (rule R [OF op1])
  have commit': "keeps R (pbind (commit_table L t rqs ups) (\<lambda>_. pret ()) :: (_, 'b exn, _) pgm)" for rqs ups
    by (intro step_frame.bind_step [OF frame] step_frame.pure_step [OF frame] commit)
  show "R s s'"
  proof (cases res)
    case (Inr plan)
    show ?thesis
    proof (cases plan)
      case None
      with Inr run op1 first show ?thesis by (simp add: hand_back_def)
    next
      case (Some p)
      obtain rqs ups where "p = (rqs, ups)" by fastforce
      with Inr Some run op1
      have "pbind (commit_table L t rqs ups) (\<lambda>_. pret ()) (s\<lparr>remote := r1\<rparr>) = (r, s')"
        by (simp add: hand_back_def)
      with commit' have "R (s\<lparr>remote := r1\<rparr>) s'" by (rule keepsD)
      with first show ?thesis by (rule step_frame.trans [OF frame])
    qed
  qed (use run op1 first in \<open>simp add: hand_back_def\<close>)
qed

text \<open>
  An intent is a sequence of catalog operations, so it respects whatever relation they respect
  and the writing of data files respects.
\<close>

lemma storage_data_files:
  assumes "storage_law L"
  shows "append_rows L r t d = (res, r') \<Longrightarrow> same_refs L r r' \<and> read_metadata L r' = read_metadata L r"
    and "delete_rows L r t p = (res, r') \<Longrightarrow> same_refs L r r' \<and> read_metadata L r' = read_metadata L r"
    and "overwrite_rows L r t d p = (res, r') \<Longrightarrow> same_refs L r r' \<and> read_metadata L r' = read_metadata L r"
  using assms unfolding storage_law_def by blast+

text \<open>What one of PyIceberg's row operations makes of the outside world before the catalog is called.\<close>

definition data_write ::
    "('s, 'f, 'r, 'm, 'b, 'd, 'o, 'z) iceberg_lib_scheme \<Rightarrow> 'r \<Rightarrow> 'r \<Rightarrow> bool" where
  "data_write L r r' \<longleftrightarrow>
     (\<exists>t d res. append_rows L r t d = (res, r')) \<or> (\<exists>t p res. delete_rows L r t p = (res, r'))
     \<or> (\<exists>t d p res. overwrite_rows L r t d p = (res, r'))"

lemma data_writeI:
  "append_rows L r t d = (res, r') \<Longrightarrow> data_write L r r'"
  "delete_rows L r t p = (res, r') \<Longrightarrow> data_write L r r'"
  "overwrite_rows L r t d p = (res, r') \<Longrightarrow> data_write L r r'"
  unfolding data_write_def by blast+

lemma data_write_quiet:
  "storage_law L \<Longrightarrow> data_write L r r' \<Longrightarrow> same_refs L r r' \<and> read_metadata L r' = read_metadata L r"
  unfolding data_write_def using storage_data_files [of L] by (elim disjE exE) blast+

lemma load_hand_back_step:
  fixes L :: "('s, 'f, 'r, 'm, 'b, 'd, 'o, 'z) iceberg_lib_scheme"
    and R :: "('r, 'y) catalog_state_scheme \<Rightarrow> ('r, 'y) catalog_state_scheme \<Rightarrow> bool"
  assumes frame: "step_frame R"
    and hand: "\<And>t. table_identifier t = [table_name_from L i] \<Longrightarrow> keeps R (hand_back L t (opn t) :: (_, 'b exn, _) pgm)"
  shows "keeps R (pbind (load_table L i) (\<lambda>t. hand_back L t (opn t)) :: (_, 'b exn, _) pgm)"
proof (rule keepsI)
  fix s s' :: "('r, 'y) catalog_state_scheme" and r
  assume run: "pbind (load_table L i) (\<lambda>t. hand_back L t (opn t)) s = (r :: 'b exn + unit, s')"
  obtain res s1 where load: "load_table L i s = (res :: 'b exn + _, s1)" by fastforce
  show "R s s'"
  proof (cases res)
    case (Inl e)
    with run load show ?thesis
      by (auto simp: step_frame.refl [OF frame] dest: load_table_InlD)
  next
    case (Inr t)
    with load have "s1 = s" and t: "table_identifier t = [table_name_from L i]"
      by (auto dest: load_table_InrD)
    with run load Inr have "hand_back L t (opn t) s = (r, s')" by simp
    with hand [OF t] show ?thesis by (rule keepsD)
  qed
qed

lemma intent_apply_step:
  fixes L :: "('s, 'f, 'r, 'm, 'b, 'd, 'o, 'z) iceberg_lib_scheme"
    and R :: "('r, 'y) catalog_state_scheme \<Rightarrow> ('r, 'y) catalog_state_scheme \<Rightarrow> bool"
  assumes R: "\<And>s r. data_write L (remote s) r \<Longrightarrow> R s (s\<lparr>remote := r\<rparr>)"
    and frame: "step_frame R"
    and create: "\<And>sc loc ps so pr. keeps R
        (create_table L (IdStr (intent_name i)) sc loc ps so pr :: (_, 'b exn, _) pgm)"
    and commit: "\<And>t rqs ups. table_identifier t = [table_name_from L (IdStr (intent_name i))]
        \<Longrightarrow> keeps R (commit_table L t rqs ups :: (_, 'b exn, _) pgm)"
  shows "keeps R (intent_apply L i :: (_, 'b exn, _) pgm)"
proof (cases i)
  case (CreateTable n sc loc pr ps so)
  then show ?thesis
    using create by (auto intro!: step_frame.steps [OF frame])
qed (auto intro!: load_hand_back_step [OF frame] hand_back_step [where R = R, OF R frame commit]
       intro: data_writeI)

lemma intent_apply_frame: "storage_law L \<Longrightarrow> keeps (catalog_frame L) (intent_apply L i)"
  by (rule intent_apply_step)
    (auto intro: create_table_frame commit_table_frame catalog.step_frame_axioms
      simp: catalog_frame_def data_write_quiet)

lemma intent_apply_resolving: "storage_law L \<Longrightarrow> keeps (keeps_resolving L) (intent_apply L i)"
  by (rule intent_apply_step)
    (auto intro: create_table_resolving commit_table_resolving resolving.step_frame_axioms
      simp: keeps_resolving_def staged_resolves_def data_write_quiet)

lemma intent_apply_only:
  assumes "storage_law L" and "plain_name L (intent_name i)"
  shows "keeps (stages_only {intent_name i}) (intent_apply L i)"
  using assms
  by (intro intent_apply_step)
    (auto intro: create_table_only commit_table_only only.step_frame_axioms
      simp: stages_only_def plain_name_def)

end
