(* ===== verification/Commit.thy ===== *)
theory Commit
  imports Transaction
begin

text \<open>
  \<open>src/icechest/transaction.py\<close>, second part: the commit loop, recovery from a conflict and the
  context manager. Each pass of \<open>for attempt in range(max_retries + 1)\<close> is one element of the
  list the loop recurses over, so it ends by construction; \<open>others\<close> acts before each of the
  calls that read or move the branch (the commit, the read of the tip, the rebase).
\<close>

subsection \<open>Calls on the session\<close>

definition call_session_commit ::
    "('s, 'f, 'r, 'm, 'b, 'd, 'o, 'z) iceberg_lib_scheme \<Rightarrow> commit_meta \<Rightarrow> bool
     \<Rightarrow> ('r, 's, 'd, 'b, 'o) transaction \<Rightarrow> commit_result \<times> ('r, 's, 'd, 'b, 'o) transaction" where
  "call_session_commit L md allow_empty s0 =
     (let s = let_others L s0
      in case session_commit L (remote s) (session s) (message s) md allow_empty of
           (res, r, sess) \<Rightarrow> (res, s\<lparr>remote := r, session := sess\<rparr>))"

definition call_session_rebase ::
    "('s, 'f, 'r, 'm, 'b, 'd, 'o, 'z) iceberg_lib_scheme
     \<Rightarrow> (('r, 's, 'd, 'b, 'o) transaction, 'b exn, unit) pgm" where
  "call_session_rebase L s0 =
     (let s = let_others L s0
      in case session_rebase L (remote s) (session s) of
           (res, sess) \<Rightarrow> (lib_result res, s\<lparr>session := sess\<rparr>))"

definition discard ::
    "('s, 'f, 'r, 'm, 'b, 'd, 'o, 'z) iceberg_lib_scheme
     \<Rightarrow> ('r, 's, 'd, 'b, 'o) transaction \<Rightarrow> ('r, 's, 'd, 'b, 'o) transaction" where
  "discard L s = s\<lparr>session := discard_changes L (session s)\<rparr>"

subsection \<open>Recovery\<close>

definition orphaned_tables :: "('r, 's, 'd, 'b, 'o) transaction \<Rightarrow> string list" where
  "orphaned_tables s =
     (let covered = map intent_name (intents s)
      in sorted_set (unmanaged_staged s @ filter (\<lambda>n. n \<notin> set covered) (dict_keys (staged s))))"

definition assert_staged_is_covered :: "(('r, 's, 'd, 'b, 'o) transaction, 'b exn, unit) pgm" where
  "assert_staged_is_covered =
     pbind (pget orphaned_tables) (\<lambda>orphaned. pguard (orphaned = []) (UnreplayableChangeError orphaned))"

text \<open>Running a program of another catalog object in the same world.\<close>

definition with_catalog ::
    "'r catalog_state \<Rightarrow> ('r catalog_state, 'b exn, 'a) pgm
     \<Rightarrow> (('r, 'y) process_scheme, 'b exn, 'a) pgm" where
  "with_catalog c m s =
     (case m c of (r, c') \<Rightarrow> (r, s\<lparr>remote := remote c', clock := clock c', draws := draws c'\<rparr>))"

definition validate_replayable ::
    "('s, 'f, 'r, 'm, 'b, 'd, 'o, 'z) iceberg_lib_scheme \<Rightarrow> (string, string) dict
     \<Rightarrow> (('r, 's, 'd, 'b, 'o) transaction, 'b exn, unit) pgm" where
  "validate_replayable L tip_pointers =
     (\<lambda>s. with_catalog (catalog_for (repo_conf s) tip_pointers False s)
        (for_each (\<lambda>i. intent_validate L i
             (case map_of (base_snapshots s) (intent_name i) of None \<Rightarrow> None | Some b \<Rightarrow> b))
           (intents s)) s)"

definition recover ::
    "('s, 'f, 'r, 'm, 'b, 'd, 'o, 'z) iceberg_lib_scheme
     \<Rightarrow> (('r, 's, 'd, 'b, 'o) transaction, 'b exn, unit) pgm" where
  "recover L =
     pbind (pget branch) (\<lambda>b.
     pbind (read_pointers_at_branch L b) (\<lambda>tip_pointers.
     pthen assert_staged_is_covered
    (pthen (validate_replayable L tip_pointers)
    (pthen (pmodify (rebase_onto tip_pointers))
           (call_session_rebase L)))))"

subsection \<open>The loop\<close>

definition apply_intents ::
    "('s, 'f, 'r, 'm, 'b, 'd, 'o, 'z) iceberg_lib_scheme
     \<Rightarrow> (('r, 's, 'd, 'b, 'o) transaction, 'b exn, unit) pgm" where
  "apply_intents L = pbind (pget intents) (\<lambda>is. for_each (intent_apply L) is)"

definition nothing_to_publish ::
    "('s, 'f, 'r, 'm, 'b, 'd, 'o, 'z) iceberg_lib_scheme \<Rightarrow> ('r, 's, 'd, 'b, 'o) transaction \<Rightarrow> bool" where
  "nothing_to_publish L s \<longleftrightarrow> staged s = [] \<and> \<not> has_uncommitted_changes L (session s)"

definition allow_empty ::
    "('s, 'f, 'r, 'm, 'b, 'd, 'o, 'z) iceberg_lib_scheme \<Rightarrow> ('r, 's, 'd, 'b, 'o) transaction \<Rightarrow> bool" where
  "allow_empty L s \<longleftrightarrow>
     (let table_only = staged s \<noteq> [] \<and> \<not> has_uncommitted_changes L (session s)
      in table_only \<or> nothing_to_publish L s)"

text \<open>One pass: \<open>Some i\<close> is a published snapshot, \<open>None\<close> is \<open>continue\<close>.\<close>

definition commit_attempt ::
    "('s, 'f, 'r, 'm, 'b, 'd, 'o, 'z) iceberg_lib_scheme \<Rightarrow> int
     \<Rightarrow> (('r, 's, 'd, 'b, 'o) transaction, 'b exn, string option) pgm" where
  "commit_attempt L attempt =
     pthen (apply_intents L)
     (\<lambda>s. if nothing_to_publish L s \<and> attempt = 0
          then (Inl (ValueError (NoChanges (message s))), s)
          else case call_session_commit L (commit_metadata (current_pointers s)) (allow_empty L s) s of
                 (Committed i, s') \<Rightarrow> (Inr (Some i), s'\<lparr>snapshot_id := Some i\<rparr>)
               | (CommitFailed e, s') \<Rightarrow> (Inl (LibError e), s')
               | (CommitConflict, s') \<Rightarrow>
                   if attempt = max_retries s' then (Inl ConflictError, s')
                   else pthen (recover L) (pret None) s')"

fun commit_loop ::
    "('s, 'f, 'r, 'm, 'b, 'd, 'o, 'z) iceberg_lib_scheme \<Rightarrow> int list
     \<Rightarrow> (('r, 's, 'd, 'b, 'o) transaction, 'b exn, string) pgm" where
  "commit_loop L [] = praise AssertionError"
| "commit_loop L (attempt # rest) =
     pbind (commit_attempt L attempt) (\<lambda>r. case r of Some i \<Rightarrow> pret i | None \<Rightarrow> commit_loop L rest)"

definition commit ::
    "('s, 'f, 'r, 'm, 'b, 'd, 'o, 'z) iceberg_lib_scheme
     \<Rightarrow> (('r, 's, 'd, 'b, 'o) transaction, 'b exn, string) pgm" where
  "commit L =
     pthen (pmodify (\<lambda>s. s\<lparr>unmanaged_staged := dict_keys (staged s)\<rparr>))
       (pbind (pget max_retries) (\<lambda>n. commit_loop L [0..n]))"

subsection \<open>The context manager\<close>

definition tx_exit ::
    "('s, 'f, 'r, 'm, 'b, 'd, 'o, 'z) iceberg_lib_scheme \<Rightarrow> bool
     \<Rightarrow> (('r, 's, 'd, 'b, 'o) transaction, 'b exn, unit) pgm" where
  "tx_exit L exc_raised =
     (if exc_raised then pmodify (discard L)
      else ptry (pthen (commit L) (pret ()))
             (\<lambda>e. pthen (pmodify (discard L)) (praise e)))"

text \<open>\<open>with repo.transaction(...) as tx: body\<close>.\<close>

definition with_transaction ::
    "('s, 'f, 'r, 'm, 'b, 'd, 'o, 'z) iceberg_lib_scheme
     \<Rightarrow> (('r, 's, 'd, 'b, 'o) transaction, 'b exn, unit) pgm
     \<Rightarrow> (('r, 's, 'd, 'b, 'o) transaction, 'b exn, unit) pgm" where
  "with_transaction L body s =
     (case body s of
        (Inl e, s') \<Rightarrow> pthen (tx_exit L True) (praise e) s'
      | (Inr u, s') \<Rightarrow> tx_exit L False s')"

end
