(* ===== verification/Atomicity.thy ===== *)
theory Atomicity
  imports Commit
begin

text \<open>
  What a commit does to the outside world: nothing a reader can see until one single step
  publishes everything, and nothing at all when it raises. The relations here are the frames
  of the transaction's operations; each is a \<open>step_frame\<close>, so the operations' lemmas are
  one line each.
\<close>

subsection \<open>Relations on the outside world\<close>

text \<open>
  \<open>unpublished L r r'\<close>: from \<open>r\<close> to \<open>r'\<close> this process moved no branch or tag, made no
  snapshot and damaged no \<open>metadata.json\<close>; the other writers may have moved branches.
\<close>

inductive ref_step ::
    "('s, 'f, 'r, 'm, 'b, 'd, 'o, 'z) iceberg_lib_scheme \<Rightarrow> 'r \<Rightarrow> 'r \<Rightarrow> bool" for L where
  quiet: "same_refs L r r' \<Longrightarrow> keeps_history L r r' \<Longrightarrow> ref_step L r r'"
| other: "ref_step L r (others L n r)"

inductive_cases ref_stepE [elim!]: "ref_step L r r'"

abbreviation unpublished ::
    "('s, 'f, 'r, 'm, 'b, 'd, 'o, 'z) iceberg_lib_scheme \<Rightarrow> 'r \<Rightarrow> 'r \<Rightarrow> bool" where
  "unpublished L \<equiv> (ref_step L)\<^sup>*\<^sup>*"

definition published ::
    "('s, 'f, 'r, 'm, 'b, 'd, 'o, 'z) iceberg_lib_scheme \<Rightarrow> string \<Rightarrow> string \<Rightarrow> (string, string) dict
     \<Rightarrow> 'r \<Rightarrow> 'r \<Rightarrow> bool" where
  "published L b i ptrs r r' \<longleftrightarrow>
     (\<exists>e. lookup_snapshot L r i = Inl e)
     \<and> lookup_branch L r' = (lookup_branch L r)(b := Inr i)
     \<and> lookup_snapshot L r' = (lookup_snapshot L r)(i := Inr (Some (commit_metadata ptrs)))
     \<and> lookup_tag L r' = lookup_tag L r
     \<and> read_metadata L r' = read_metadata L r"

lemma unpublished_quiet:
  assumes "unpublished L r r'" and "\<And>n r. same_refs L r (others L n r)"
  shows "same_refs L r r'"
  using assms(1) by (induction rule: rtranclp_induct) (auto intro: same_refs_trans assms(2))

lemma published_history:
  assumes "published L b i p r r'"
  shows "keeps_history L r r'"
  using assms by (auto simp: published_def keeps_history_def)

lemma published_pointers:
  "published L b i p r r' \<Longrightarrow> pointers_at L r' = (pointers_at L r)(i := Some p)"
  by (auto simp: published_def pointers_at_def)

lemma unpublished_others: "unpublished L r (others L n r)"
  by (blast intro: ref_step.other)

lemma unpublished_same_refs: "same_refs L r r' \<Longrightarrow> keeps_history L r r' \<Longrightarrow> unpublished L r r'"
  by (blast intro: ref_step.quiet)

lemma unpublished_history:
  assumes "others_law L" and "unpublished L r r'"
  shows "keeps_history L r r'"
  using assms(2)
proof (induction rule: rtranclp_induct)
  case (step y z)
  then have "keeps_history L y z" using assms(1) by (auto simp: others_law_def)
  with step.IH show ?case by (rule keeps_history_trans)
qed simp

subsection \<open>Frames of the transaction\<close>

definition quiet_frame ::
    "('s, 'f, 'r, 'm, 'b, 'd, 'o, 'z) iceberg_lib_scheme
     \<Rightarrow> ('r, 's, 'd, 'b, 'o) transaction \<Rightarrow> ('r, 's, 'd, 'b, 'o) transaction \<Rightarrow> bool" where
  "quiet_frame L s s' \<longleftrightarrow>
     unpublished L (remote s) (remote s') \<and> keeps_history L (remote s) (remote s')"

definition history_frame ::
    "('s, 'f, 'r, 'm, 'b, 'd, 'o, 'z) iceberg_lib_scheme
     \<Rightarrow> ('r, 's, 'd, 'b, 'o) transaction \<Rightarrow> ('r, 's, 'd, 'b, 'o) transaction \<Rightarrow> bool" where
  "history_frame L s s' \<longleftrightarrow> keeps_history L (remote s) (remote s')"

text \<open>What no step of a commit changes about the transaction itself.\<close>

definition config_frame ::
    "('s, 'f, 'r, 'm, 'b, 'd, 'o, 'z) iceberg_lib_scheme
     \<Rightarrow> ('r, 's, 'd, 'b, 'o) transaction \<Rightarrow> ('r, 's, 'd, 'b, 'o) transaction \<Rightarrow> bool" where
  "config_frame L s s' \<longleftrightarrow>
     intents s' = intents s \<and> branch s' = branch s \<and> message s' = message s
     \<and> max_retries s' = max_retries s \<and> repo_conf s' = repo_conf s
     \<and> base_snapshots s' = base_snapshots s
     \<and> warehouse s' = warehouse s \<and> read_only s' = read_only s
     \<and> session_branch L (session s') = session_branch L (session s)"

interpretation quiet: step_frame
    "quiet_frame L :: ('r, 's, 'd, 'b, 'o) transaction \<Rightarrow> ('r, 's, 'd, 'b, 'o) transaction \<Rightarrow> bool"
    for L :: "('s, 'f, 'r, 'm, 'b, 'd, 'o, 'z) iceberg_lib_scheme"
  by unfold_locales (auto simp: quiet_frame_def intro: keeps_history_trans)

interpretation hist: step_frame
    "history_frame L :: ('r, 's, 'd, 'b, 'o) transaction \<Rightarrow> ('r, 's, 'd, 'b, 'o) transaction \<Rightarrow> bool"
    for L :: "('s, 'f, 'r, 'm, 'b, 'd, 'o, 'z) iceberg_lib_scheme"
  by unfold_locales (auto simp: history_frame_def intro: keeps_history_trans)

interpretation config: step_frame
    "config_frame L :: ('r, 's, 'd, 'b, 'o) transaction \<Rightarrow> ('r, 's, 'd, 'b, 'o) transaction \<Rightarrow> bool"
    for L :: "('s, 'f, 'r, 'm, 'b, 'd, 'o, 'z) iceberg_lib_scheme"
  by unfold_locales (auto simp: config_frame_def)

lemma tx_more:
  fixes s s' :: "('r, 's, 'd, 'b, 'o) transaction"
  assumes "catalog_state.more s' = catalog_state.more s"
  shows "session s' = session s" "intents s' = intents s" "branch s' = branch s"
    "message s' = message s" "max_retries s' = max_retries s" "repo_conf s' = repo_conf s"
    "base_snapshots s' = base_snapshots s" "unmanaged_staged s' = unmanaged_staged s"
    "snapshot_id s' = snapshot_id s"
  using assms by (cases s, cases s', simp)+

subsection \<open>The steps of recovery\<close>

lemma let_others_quiet: "world_laws L \<Longrightarrow> quiet_frame L s (let_others L s)"
  by (simp add: quiet_frame_def let_others_def world_laws_def others_law_def unpublished_others)

lemma let_others_config: "config_frame L s (let_others L s)"
  by (simp add: config_frame_def let_others_def)

lemma validate_removal_state [simp]:
  fixes L :: "('s, 'f, 'r, 'm, 'b, 'd, 'o, 'z) iceberg_lib_scheme"
  shows "snd (validate_removal L n p b c) = c"
proof -
  obtain res c1 where "load_table L (IdStr n) c = (res :: 'b exn + 'm iceberg_table, c1)" by fastforce
  moreover from this have "c1 = c" by (metis load_table_state snd_conv)
  ultimately show ?thesis
    by (auto simp: validate_removal_def pbind_run split: sum.splits option.splits)
qed

lemma intent_validate_state [simp]: "snd (intent_validate L i b c) = c"
  by (cases i) simp_all

lemma for_each_state:
  assumes "\<And>x. x \<in> set xs \<Longrightarrow> snd (f x s) = s"
  shows "snd (for_each f xs s) = s"
  using assms
proof (induction xs)
  case (Cons x xs)
  obtain r s1 where "f x s = (r, s1)" by fastforce
  moreover from this Cons.prems have "s1 = s" by (metis list.set_intros(1) snd_conv)
  ultimately show ?case using Cons by (cases r) simp_all
qed simp

lemma validate_replayable_state [simp]: "snd (validate_replayable L tip s) = s"
  by (simp add: validate_replayable_def with_catalog_def split_beta for_each_state
      catalog_for_def catalog_init_def)

lemma read_tip_quiet:
  assumes "world_laws L"
  shows "keeps (quiet_frame L) (read_pointers_at_branch L b)"
  unfolding read_pointers_at_branch_def call_lookup_branch_def
  by (intro quiet.steps let_others_quiet assms) (simp add: keeps_def quiet.refl)

lemma read_tip_config: "keeps (config_frame L) (read_pointers_at_branch L b)"
  unfolding read_pointers_at_branch_def call_lookup_branch_def
  by (intro config.steps let_others_config) (simp add: keeps_def config.refl)

lemma assert_covered_state [simp]: "snd (assert_staged_is_covered s) = s"
  by (simp add: assert_staged_is_covered_def pbind_run)

lemma session_rebase_quiet: "world_laws L \<Longrightarrow> keeps (quiet_frame L) (call_session_rebase L)"
  using let_others_quiet by (auto simp: keeps_def call_session_rebase_def Let_def quiet_frame_def split_beta)

lemma session_rebase_config:
  assumes "world_laws L"
  shows "keeps (config_frame L) (call_session_rebase L)"
proof -
  have "session_branch L (snd (session_rebase L r sess)) = session_branch L sess" for r sess
    using assms unfolding world_laws_def rebase_law_def by (metis surjective_pairing)
  then show ?thesis
    by (simp add: keeps_def call_session_rebase_def Let_def split_beta config_frame_def let_others_def)
qed

lemma recover_quiet:
  assumes "world_laws L"
  shows "keeps (quiet_frame L) (recover L)"
  unfolding recover_def
  by (intro quiet.steps read_tip_quiet session_rebase_quiet assms)
    (simp_all add: keeps_def quiet.refl quiet_frame_def rebase_onto_def)

text \<open>A recovery that goes through leaves nothing staged, and takes two ticks of the clock.\<close>

lemma recover_done:
  fixes L :: "('s, 'f, 'r, 'm, 'b, 'd, 'o, 'z) iceberg_lib_scheme"
  assumes run: "recover L s = (Inr u, s')"
  obtains tip where
    "lookup_branch L (others L (clock s) (remote s)) (branch s) = Inr tip"
    and "pointers_at L (others L (clock s) (remote s)) tip = Some (pointers s')"
    and "staged s' = []" and "clock s' = clock s + 2"
    and "session_rebase L (others L (Suc (clock s)) (others L (clock s) (remote s))) (session s)
           = (Inr (), session s')"
    and "remote s' = others L (Suc (clock s)) (others L (clock s) (remote s))"
proof -
  let ?s1 = "let_others L s"
  from run obtain tip_ptrs s2 s3 s4 where
    rd: "read_pointers_at_branch L (branch s) s = (Inr tip_ptrs :: 'b exn + _, s2)"
    and cov: "assert_staged_is_covered s2 = (Inr (), s3)"
    and val: "validate_replayable L tip_ptrs s3 = (Inr (), s4)"
    and reb: "call_session_rebase L (rebase_onto tip_ptrs s4) = (Inr u, s')"
    by (auto simp: recover_def elim!: pbind_InrE pthen_InrE)
  from rd obtain tip where tip: "lookup_branch L (remote ?s1) (branch s) = Inr tip"
    and ptrs: "pointers_at L (remote ?s1) tip = Some tip_ptrs" and s2: "s2 = ?s1"
    using read_pointers_at_branch_InrD [OF rd] by auto
  have s4: "s4 = ?s1"
  proof -
    have "s3 = snd (assert_staged_is_covered s2)" and "s4 = snd (validate_replayable L tip_ptrs s3)"
      using cov val by simp_all
    with s2 show ?thesis by simp
  qed
  show thesis
    using that [of tip] tip ptrs reb unfolding s4
    by (auto simp: call_session_rebase_def Let_def let_others_def rebase_onto_def
        dest!: lib_result_InrD split: prod.splits)
qed

lemma recover_config:
  assumes "world_laws L"
  shows "keeps (config_frame L) (recover L)"
  unfolding recover_def
  by (intro config.steps read_tip_config session_rebase_config assms)
    (simp_all add: keeps_def config.refl config_frame_def rebase_onto_def)

lemma apply_intents_frame:
  assumes "world_laws L"
  shows "keeps (catalog_frame L) (apply_intents L)"
  unfolding apply_intents_def
  using assms
  by (intro catalog.steps catalog.for_each_step intent_apply_frame) (simp add: world_laws_def)

lemma catalog_frame_quiet: "catalog_frame L s s' \<Longrightarrow> quiet_frame L s s'"
  by (simp add: quiet_frame_def catalog_frame_history unpublished_same_refs catalog_frameD(1))

lemma catalog_frame_config: "catalog_frame L s s' \<Longrightarrow> config_frame L s s'"
  by (simp add: config_frame_def catalog_frameD(4,5) tx_more [OF catalog_frameD(9)])

subsection \<open>The commit itself\<close>

lemma call_session_commit_config:
  assumes "world_laws L" and "call_session_commit L md ae s = (res, s')"
  shows "config_frame L s s'" and "pointers s' = pointers s" and "staged s' = staged s"
    and "clock s' = Suc (clock s)"
  using assms
  by (auto simp: call_session_commit_def Let_def let_others_def config_frame_def world_laws_def
      commit_law_def split: prod.splits)

lemma call_session_commit_failed:
  assumes laws: "world_laws L" and run: "call_session_commit L md ae s = (res, s')"
    and res: "\<And>i. res \<noteq> Committed i"
  shows "quiet_frame L s s'" and "session_base L (session s') = session_base L (session s)"
proof -
  let ?s1 = "let_others L s"
  obtain r sess where c: "session_commit L (remote ?s1) (session ?s1) (message ?s1) md ae = (res, r, sess)"
    and s': "s' = ?s1\<lparr>remote := r, session := sess\<rparr>"
    using run by (auto simp: call_session_commit_def Let_def split: prod.splits)
  have "read_metadata L r = read_metadata L (remote ?s1)" and same: "same_refs L (remote ?s1) r"
    and base: "session_base L sess = session_base L (session ?s1)"
    using laws c res unfolding world_laws_def commit_law_def
    by (auto split: commit_result.splits) (metis commit_result.exhaust commit_result.simps(11,12))+
  then have "quiet_frame L ?s1 s'"
    by (auto simp: quiet_frame_def s' keeps_history_def same_refs_def intro: unpublished_same_refs)
  then show "quiet_frame L s s'" by (rule quiet.trans [OF let_others_quiet [OF laws]])
  show "session_base L (session s') = session_base L (session s)"
    using base by (simp add: s' let_others_def)
qed

lemma call_session_commit_done:
  assumes laws: "world_laws L" and run: "call_session_commit L (commit_metadata p) ae s = (Committed i, s')"
  shows "published L (session_branch L (session s)) i p (remote (let_others L s)) (remote s')"
    and "lookup_branch L (remote (let_others L s)) (session_branch L (session s))
           = Inr (session_base L (session s))"
    and "session_base L (session s') = i"
proof -
  let ?s1 = "let_others L s"
  obtain r sess where c: "session_commit L (remote ?s1) (session ?s1) (message ?s1) (commit_metadata p) ae
      = (Committed i, r, sess)"
    and s': "s' = ?s1\<lparr>remote := r, session := sess\<rparr>"
    using run by (auto simp: call_session_commit_def Let_def split: prod.splits)
  have law: "commit_law L" using laws by (simp add: world_laws_def)
  have "published L (session_branch L (session ?s1)) i p (remote ?s1) r
    \<and> lookup_branch L (remote ?s1) (session_branch L (session ?s1)) = Inr (session_base L (session ?s1))
    \<and> session_base L sess = i"
    using law [unfolded commit_law_def, rule_format, OF c] by (simp add: published_def)
  then show "published L (session_branch L (session s)) i p (remote (let_others L s)) (remote s')"
    and "lookup_branch L (remote (let_others L s)) (session_branch L (session s))
           = Inr (session_base L (session s))"
    and "session_base L (session s') = i"
    by (simp_all add: s' let_others_def)
qed

text \<open>One pass of the loop: published, refused, or recovered and to be tried again.\<close>

lemma commit_attempt_published:
  assumes laws: "world_laws L" and run: "commit_attempt L a s = (Inr (Some i), s')"
  obtains s1 where "apply_intents L s = (Inr (), s1)"
    and "published L (session_branch L (session s)) i (current_pointers s1)
           (remote (let_others L s1)) (remote s')"
    and "lookup_branch L (remote (let_others L s1)) (session_branch L (session s))
           = Inr (session_base L (session s))"
    and "config_frame L s s'" and "current_pointers s' = current_pointers s1"
    and "snapshot_id s' = Some i" and "session_base L (session s') = i" and "clock s' = Suc (clock s1)"
proof -
  from run obtain s1 s2 where ap: "apply_intents L s = (Inr (), s1)"
    and c: "call_session_commit L (commit_metadata (current_pointers s1)) (allow_empty L s1) s1 = (Committed i, s2)"
    and s': "s' = s2\<lparr>snapshot_id := Some i\<rparr>"
    by (auto simp: commit_attempt_def elim!: pthen_InrE pthen_InlE
        split: if_splits prod.splits commit_result.splits)
  have frame: "catalog_frame L s s1" by (rule keepsD [OF apply_intents_frame [OF laws] ap])
  note sess = tx_more(1) [OF catalog_frameD(9) [OF frame]]
  note cfg = call_session_commit_config [OF laws c]
  have "config_frame L s s2" using cfg(1) catalog_frame_config [OF frame] by (rule config.trans [rotated])
  then have "config_frame L s s'" by (simp add: s' config_frame_def)
  then show thesis
    using that [of s1] ap call_session_commit_done [OF laws c] cfg
    by (simp add: s' sess current_pointers_def)
qed

lemma commit_attempt_unpublished:
  assumes laws: "world_laws L" and run: "commit_attempt L a s = (res, s')"
    and res: "\<And>i. res \<noteq> Inr (Some i)"
  shows "quiet_frame L s s' \<and> config_frame L s s'"
proof -
  obtain r1 s1 where ap: "apply_intents L s = (r1, s1)" by fastforce
  have frame: "catalog_frame L s s1" by (rule keepsD [OF apply_intents_frame [OF laws] ap])
  note qc = catalog_frame_quiet [OF frame] catalog_frame_config [OF frame]
  have ?thesis if "s' = s1" using qc that by simp
  moreover have ?thesis
    if c: "call_session_commit L (commit_metadata (current_pointers s1)) (allow_empty L s1) s1 = (cres, s2)"
      and no: "\<And>i. cres \<noteq> Committed i" and rest: "s' = s2 \<or> (\<exists>r. recover L s2 = (r, s'))" for cres s2
  proof -
    have "quiet_frame L s s2" "config_frame L s s2"
      using qc call_session_commit_failed(1) [OF laws c no] call_session_commit_config(1) [OF laws c]
      by (blast intro: quiet.trans config.trans)+
    with rest show ?thesis
      using keepsD [OF recover_quiet [OF laws]] keepsD [OF recover_config [OF laws]]
      by (blast intro: quiet.trans config.trans)
  qed
  moreover have "s' = s1 \<or> (\<exists>cres s2.
      call_session_commit L (commit_metadata (current_pointers s1)) (allow_empty L s1) s1 = (cres, s2)
      \<and> (\<forall>i. cres \<noteq> Committed i) \<and> (s' = s2 \<or> (\<exists>r. recover L s2 = (r, s'))))"
    using run ap res
    by (cases r1)
      (auto simp: commit_attempt_def pthen_run split: if_splits prod.splits commit_result.splits sum.splits)
  ultimately show ?thesis by blast
qed

text \<open>The whole loop: any number of passes that publish nothing, then at most one that does.\<close>

lemma commit_loop_published:
  assumes laws: "world_laws L" and run: "commit_loop L attempts s = (Inr i, s')"
  obtains s0 s1 a where "quiet_frame L s s0" and "config_frame L s s0" and "a \<in> set attempts"
    and "commit_attempt L a s0 = (Inr (Some i), s')"
  using run
proof (induction attempts arbitrary: s thesis)
  case Nil
  then show ?case by simp
next
  case (Cons a rest)
  from Cons.prems(2) obtain r s1 where at: "commit_attempt L a s = (Inr r, s1)"
    and go: "(case r of Some i \<Rightarrow> pret i | None \<Rightarrow> commit_loop L rest) s1 = (Inr i, s')"
    by (auto elim: pbind_InrE)
  show ?case
  proof (cases r)
    case (Some j)
    with go at have "commit_attempt L a s = (Inr (Some i), s')" by simp
    then show ?thesis by (rule Cons.prems(1) [OF quiet.refl config.refl, rotated]) simp
  next
    case None
    with go have rest: "commit_loop L rest s1 = (Inr i, s')" by simp
    have step: "quiet_frame L s s1 \<and> config_frame L s s1"
      using commit_attempt_unpublished [OF laws at] None by simp
    show ?thesis
    proof (rule Cons.IH [OF _ rest])
      fix s0 a'
      assume "quiet_frame L s1 s0" "config_frame L s1 s0" "a' \<in> set rest"
        "commit_attempt L a' s0 = (Inr (Some i), s')"
      then show ?thesis
        using step by (intro Cons.prems(1) [of s0 a']) (auto intro: quiet.trans config.trans)
    qed
  qed
qed

lemma commit_loop_unpublished:
  assumes laws: "world_laws L" and run: "commit_loop L attempts s = (Inl e, s')"
  shows "quiet_frame L s s' \<and> config_frame L s s'"
  using run
proof (induction attempts arbitrary: s)
  case Nil
  then show ?case by (simp add: quiet.refl config.refl)
next
  case (Cons a rest)
  obtain r s1 where at: "commit_attempt L a s = (r, s1)" by fastforce
  show ?case
  proof (cases "r = Inr None")
    case True
    with at Cons.prems have "commit_loop L rest s1 = (Inl e, s')" by simp
    with Cons.IH have "quiet_frame L s1 s' \<and> config_frame L s1 s'" by blast
    moreover have "quiet_frame L s s1 \<and> config_frame L s s1"
      using commit_attempt_unpublished [OF laws at] True by simp
    ultimately show ?thesis by (blast intro: quiet.trans config.trans)
  next
    case False
    with at Cons.prems have "s' = s1" and "\<And>i. r \<noteq> Inr (Some i)"
      by (auto simp: pbind_run split: sum.splits option.splits)
    then show ?thesis using commit_attempt_unpublished [OF laws at] by simp
  qed
qed

lemma commit_as_loop:
  "commit L s = commit_loop L [0..max_retries s] (s\<lparr>unmanaged_staged := dict_keys (staged s)\<rparr>)"
  by (simp add: commit_def)

lemma commit_history:
  assumes laws: "world_laws L"
  shows "keeps (history_frame L) (commit L)"
proof (rule keepsI)
  fix s r s'
  assume run: "commit L s = (r, s')"
  let ?s = "s\<lparr>unmanaged_staged := dict_keys (staged s)\<rparr>"
  show "history_frame L s s'"
  proof (cases r)
    case (Inl e)
    with run have "quiet_frame L ?s s'"
      using commit_loop_unpublished [OF laws] by (simp add: commit_as_loop)
    then show ?thesis by (simp add: quiet_frame_def history_frame_def)
  next
    case (Inr i)
    with run have "commit_loop L [0..max_retries s] ?s = (Inr i, s')" by (simp add: commit_as_loop)
    then obtain s0 a where "quiet_frame L ?s s0" and "commit_attempt L a s0 = (Inr (Some i), s')"
      by (rule commit_loop_published [OF laws])
    moreover from this(2) obtain s1 where ap: "apply_intents L s0 = (Inr (), s1)"
      and pub: "published L (session_branch L (session s0)) i (current_pointers s1)
            (remote (let_others L s1)) (remote s')"
      by (rule commit_attempt_published [OF laws])
    moreover have "quiet_frame L s0 (let_others L s1)"
      using catalog_frame_quiet [OF keepsD [OF apply_intents_frame [OF laws] ap]] let_others_quiet [OF laws]
      by (rule quiet.trans)
    ultimately show ?thesis
      using published_history [OF pub]
      by (auto simp: quiet_frame_def history_frame_def intro: keeps_history_trans)
  qed
qed

lemma commit_raised:
  assumes "world_laws L" and "commit L s = (Inl e, s')"
  shows "unpublished L (remote s) (remote s') \<and> config_frame L s s'"
proof -
  have "quiet_frame L (s\<lparr>unmanaged_staged := dict_keys (staged s)\<rparr>) s'
      \<and> config_frame L (s\<lparr>unmanaged_staged := dict_keys (staged s)\<rparr>) s'"
    using assms commit_loop_unpublished by (fastforce simp: commit_as_loop)
  then show ?thesis by (simp add: quiet_frame_def config_frame_def)
qed

lemma commit_returned:
  assumes laws: "world_laws L" and run: "commit L s = (Inr i, s')"
    and br: "session_branch L (session s) = branch s"
  shows "(\<exists>r. unpublished L (remote s) r \<and> published L (branch s) i (current_pointers s') r (remote s'))
    \<and> snapshot_id s' = Some i"
proof -
  let ?s = "s\<lparr>unmanaged_staged := dict_keys (staged s)\<rparr>"
  from run have "commit_loop L [0..max_retries s] ?s = (Inr i, s')" by (simp add: commit_as_loop)
  then obtain s0 a where q: "quiet_frame L ?s s0" "config_frame L ?s s0"
    and at: "commit_attempt L a s0 = (Inr (Some i), s')"
    by (rule commit_loop_published [OF laws])
  from at obtain s1 where ap: "apply_intents L s0 = (Inr (), s1)"
    and pub: "published L (session_branch L (session s0)) i (current_pointers s1)
          (remote (let_others L s1)) (remote s')"
    and fin: "current_pointers s' = current_pointers s1" "snapshot_id s' = Some i"
    by (rule commit_attempt_published [OF laws])
  have "quiet_frame L s0 (let_others L s1)"
    using catalog_frame_quiet [OF keepsD [OF apply_intents_frame [OF laws] ap]] let_others_quiet [OF laws]
    by (rule quiet.trans)
  with q(1) have "unpublished L (remote s) (remote (let_others L s1))"
    by (auto simp: quiet_frame_def)
  with pub fin q(2) br show ?thesis by (auto simp: config_frame_def)
qed

text \<open>The last pass of the loop, or none is left; and what a repeated pass keeps holds there.\<close>

lemma commit_loop_last:
  assumes step: "\<And>a s s'. I s \<Longrightarrow> commit_attempt L a s = (Inr None, s') \<Longrightarrow> I s'"
    and "I s" and run: "commit_loop L attempts s = (r, s')"
  obtains (exhausted) "I s'" and "r = Inl AssertionError"
    | (last) s0 a q where "I s0" and "commit_attempt L a s0 = (q, s')" and "q \<noteq> Inr None"
      and "r = map_sum id the q"
  using assms(2) run
proof (induction attempts arbitrary: s thesis)
  case Nil
  then show ?case by simp
next
  case (Cons a rest)
  obtain q s1 where at: "commit_attempt L a s = (q, s1)" by fastforce
  show ?case
  proof (cases "q = Inr None")
    case True
    then have "commit_loop L rest s1 = (r, s')" using Cons.prems(4) at by simp
    moreover have "I s1" using step Cons.prems(3) at True by blast
    ultimately show ?thesis using Cons.IH Cons.prems(1,2) by blast
  next
    case False
    then have "s' = s1" "r = map_sum id the q"
      using Cons.prems(4) at by (cases q; auto simp: pbind_run split: option.splits)+
    with at False Cons.prems(2,3) show ?thesis by blast
  qed
qed

subsection \<open>The arrays\<close>

text \<open>
  \<open>view\<close> is what a reader sees of the arrays through a session, and \<open>snapshot_view\<close> what it sees of
  them in a snapshot. A commit makes a snapshot of exactly the arrays of the session, and leaves those
  of every other snapshot as they are; one that conflicts or fails leaves the session's arrays too.
\<close>

definition snapshot_view ::
    "('s, 'f, 'r, 'z) icechunk_lib_scheme \<Rightarrow> ('s \<Rightarrow> 'v) \<Rightarrow> 'r \<Rightarrow> string \<Rightarrow> 'v option" where
  "snapshot_view L view r i = (case readonly_session L r i of Inl e \<Rightarrow> None | Inr q \<Rightarrow> Some (view q))"

definition view_law ::
    "('s, 'f, 'r, 'z) icechunk_lib_scheme \<Rightarrow> ('s \<Rightarrow> 'v) \<Rightarrow> bool" where
  "view_law L view \<longleftrightarrow>
     (\<forall>r s msg md ae res r' s'. session_commit L r s msg md ae = (res, r', s') \<longrightarrow>
        (case res of
           Committed i \<Rightarrow> snapshot_view L view r' = (snapshot_view L view r)(i := Some (view s))
         | _ \<Rightarrow> snapshot_view L view r' = snapshot_view L view r \<and> view s' = view s))"

text \<open>
  \<open>carried L view r0 z z'\<close>: the session \<open>z'\<close> is \<open>z\<close> with its arrays, after any number of rebases in
  worlds that came after \<open>r0\<close>.
\<close>

inductive carry_step ::
    "('s, 'f, 'r, 'm, 'b, 'd, 'o, 'z) iceberg_lib_scheme \<Rightarrow> ('s \<Rightarrow> 'v) \<Rightarrow> 'r \<Rightarrow> 's \<Rightarrow> 's \<Rightarrow> bool"
    for L view r0 where
  kept: "view z' = view z \<Longrightarrow> session_branch L z' = session_branch L z \<Longrightarrow> session_base L z' = session_base L z
    \<Longrightarrow> carry_step L view r0 z z'"
| rebased: "unpublished L r0 r \<Longrightarrow> session_rebase L r z = (Inr (), z') \<Longrightarrow> carry_step L view r0 z z'"

abbreviation carried ::
    "('s, 'f, 'r, 'm, 'b, 'd, 'o, 'z) iceberg_lib_scheme \<Rightarrow> ('s \<Rightarrow> 'v) \<Rightarrow> 'r \<Rightarrow> 's \<Rightarrow> 's \<Rightarrow> bool" where
  "carried L view r0 \<equiv> (carry_step L view r0)\<^sup>*\<^sup>*"

lemma carried_later:
  assumes "carried L view r1 z z'" and "unpublished L r0 r1"
  shows "carried L view r0 z z'"
  using assms(1)
proof (induction rule: rtranclp_induct)
  case (step y z)
  from step.hyps(2) have "carry_step L view r0 y z"
    using assms(2) by cases (auto intro: carry_step.intros rtranclp_trans)
  with step.IH show ?case by (rule rtranclp.rtrancl_into_rtrancl)
qed simp

definition carry_frame ::
    "('s, 'f, 'r, 'm, 'b, 'd, 'o, 'z) iceberg_lib_scheme \<Rightarrow> ('s \<Rightarrow> 'v)
     \<Rightarrow> ('r, 's, 'd, 'b, 'o) transaction \<Rightarrow> ('r, 's, 'd, 'b, 'o) transaction \<Rightarrow> bool" where
  "carry_frame L view s s' \<longleftrightarrow>
     unpublished L (remote s) (remote s') \<and> carried L view (remote s) (session s) (session s')"

interpretation carry: step_frame
    "carry_frame L view :: ('r, 's, 'd, 'b, 'o) transaction \<Rightarrow> ('r, 's, 'd, 'b, 'o) transaction \<Rightarrow> bool"
    for L :: "('s, 'f, 'r, 'm, 'b, 'd, 'o, 'z) iceberg_lib_scheme" and view :: "'s \<Rightarrow> 'v"
  by unfold_locales (auto simp: carry_frame_def intro: rtranclp_trans dest: carried_later)

lemma call_session_commit_carries:
  assumes laws: "world_laws L" "view_law L view" and run: "call_session_commit L md ae s = (res, s')"
    and res: "\<And>i. res \<noteq> Committed i"
  shows "carry_frame L view s s'"
proof -
  let ?s1 = "let_others L s"
  obtain r sess where c: "session_commit L (remote ?s1) (session ?s1) (message ?s1) md ae = (res, r, sess)"
    and s': "s' = ?s1\<lparr>remote := r, session := sess\<rparr>"
    using run by (auto simp: call_session_commit_def Let_def split: prod.splits)
  have same: "session ?s1 = session s" by (simp add: let_others_def)
  have no: "\<forall>i. res \<noteq> Committed i" using res by blast
  have "view sess = view (session s)"
    using laws(2) [unfolded view_law_def, rule_format, OF c] no same by (cases res) simp_all
  moreover have "session_branch L sess = session_branch L (session s) \<and> session_base L sess = session_base L (session s)"
    using laws(1) [unfolded world_laws_def commit_law_def, THEN conjunct1, rule_format, OF c] no same
    by (cases res) simp_all
  ultimately have "carry_step L view (remote s) (session s) (session s')"
    by (intro carry_step.kept) (simp_all add: s')
  then show ?thesis
    using call_session_commit_failed(1) [OF laws(1) run res] by (simp add: carry_frame_def quiet_frame_def)
qed

lemma recover_carries:
  assumes laws: "world_laws L" and run: "recover L s = (Inr u, s')"
  shows "carry_frame L view s s'"
proof -
  let ?r1 = "others L (clock s) (remote s)"
  from run have reb: "session_rebase L (others L (Suc (clock s)) ?r1) (session s) = (Inr (), session s')"
    by (rule recover_done)
  have "unpublished L (remote s) ?r1" and "unpublished L ?r1 (others L (Suc (clock s)) ?r1)"
    by (rule unpublished_others)+
  then have "carry_step L view (remote s) (session s) (session s')"
    using reb by (blast intro: carry_step.rebased rtranclp_trans)
  then show ?thesis
    using keepsD [OF recover_quiet [OF laws] run] by (simp add: carry_frame_def quiet_frame_def)
qed

lemma apply_intents_carries:
  assumes "world_laws L" and "apply_intents L s = (r, s')"
  shows "carry_frame L view s s'"
proof -
  have f: "catalog_frame L s s'" by (rule keepsD [OF apply_intents_frame [OF assms(1)] assms(2)])
  show ?thesis
    using catalog_frame_quiet [OF f] tx_more(1) [OF catalog_frameD(9) [OF f]]
    by (simp add: carry_frame_def quiet_frame_def)
qed

lemma commit_attempt_retry_carries:
  assumes laws: "world_laws L" "view_law L view" and run: "commit_attempt L a s = (Inr None, s')"
  shows "carry_frame L view s s'"
proof -
  from run obtain s1 s2 where ap: "apply_intents L s = (Inr (), s1)"
    and c: "call_session_commit L (commit_metadata (current_pointers s1)) (allow_empty L s1) s1
              = (CommitConflict, s2)"
    and rec: "recover L s2 = (Inr (), s')"
    by (auto simp: commit_attempt_def elim!: pthen_InrE split: if_splits prod.splits commit_result.splits)
  have "carry_frame L view s s1" by (rule apply_intents_carries [OF laws(1) ap])
  moreover have "carry_frame L view s1 s2" by (rule call_session_commit_carries [OF laws c]) simp
  moreover have "carry_frame L view s2 s'" by (rule recover_carries [OF laws(1) rec])
  ultimately show ?thesis by (blast intro: carry.trans)
qed

text \<open>A pass that publishes makes a snapshot of the arrays the transaction's session holds then.\<close>

lemma commit_attempt_view:
  assumes laws: "world_laws L" "view_law L view" and run: "commit_attempt L a s = (Inr (Some i), s')"
    and ap: "apply_intents L s = (Inr (), s1)"
  shows "snapshot_view L view (remote s') = (snapshot_view L view (remote (let_others L s1)))(i := Some (view (session s)))"
proof -
  obtain s2 where c: "call_session_commit L (commit_metadata (current_pointers s1)) (allow_empty L s1) s1 = (Committed i, s2)"
    and s': "s' = s2\<lparr>snapshot_id := Some i\<rparr>"
    using run ap by (auto simp: commit_attempt_def elim!: pthen_InrE split: if_splits prod.splits commit_result.splits)
  let ?s2 = "let_others L s1"
  obtain r sess where sc: "session_commit L (remote ?s2) (session ?s2) (message ?s2)
        (commit_metadata (current_pointers s1)) (allow_empty L s1) = (Committed i, r, sess)"
    and s2: "s2 = ?s2\<lparr>remote := r, session := sess\<rparr>"
    using c by (auto simp: call_session_commit_def Let_def split: prod.splits)
  have f: "catalog_frame L s s1" by (rule keepsD [OF apply_intents_frame [OF laws(1)] ap])
  have "session ?s2 = session s" using tx_more(1) [OF catalog_frameD(9) [OF f]] by (simp add: let_others_def)
  with laws(2) [unfolded view_law_def, rule_format, OF sc] show ?thesis by (simp add: s' s2)
qed

text \<open>
  C3. A commit publishes arrays and tables in one step or nothing. When \<open>commit\<close> returns a snapshot
  id, the world went from the one it started in to some world \<open>r\<close> by steps in which this process moved
  no branch, tag or snapshot, and then by a single commit of the branch that made exactly that
  snapshot: it carries exactly the transaction's current pointer map, and its arrays are exactly those
  of the transaction's session, as they were or as Icechunk rebased them on the way (\<open>carried\<close>); the
  arrays of every other snapshot stay as they were. When \<open>commit\<close> raises, this process moved nothing
  at all: every change of a branch, tag or snapshot is another writer's.
\<close>

theorem commit_atomic:
  assumes laws: "world_laws L" "view_law L view" and run: "commit L s = (res, s')"
    and br: "session_branch L (session s) = branch s"
  shows "case res of
      Inr i \<Rightarrow> (\<exists>r z. unpublished L (remote s) r
                \<and> published L (branch s) i (current_pointers s') r (remote s')
                \<and> carried L view (remote s) (session s) z
                \<and> snapshot_view L view (remote s') = (snapshot_view L view r)(i := Some (view z)))
              \<and> snapshot_id s' = Some i
    | Inl e \<Rightarrow> unpublished L (remote s) (remote s')"
proof (cases res)
  case (Inl e)
  with commit_raised [OF laws(1)] run show ?thesis by simp
next
  case (Inr i)
  let ?s = "s\<lparr>unmanaged_staged := dict_keys (staged s)\<rparr>"
  let ?I = "\<lambda>t. config_frame L ?s t \<and> carry_frame L view ?s t"
  have step: "?I t'" if "?I t" "commit_attempt L a t = (Inr None, t')" for a t t'
    using that commit_attempt_unpublished [OF laws(1) that(2)] commit_attempt_retry_carries [OF laws that(2)]
    by (auto intro: config.trans carry.trans)
  have start: "?I ?s" by (simp add: config.refl carry.refl)
  from run Inr have "commit_loop L [0..max_retries s] ?s = (Inr i, s')" by (simp add: commit_as_loop)
  with step start obtain s0 a where s0: "?I s0" and at: "commit_attempt L a s0 = (Inr (Some i), s')"
  proof (rule commit_loop_last [where I = ?I])
    fix t a q
    assume t: "?I t" "commit_attempt L a t = (q, s')" "q \<noteq> Inr None" "Inr i = map_sum id the q"
    then have "q = Inr (Some i)" by (cases q) auto
    with t that show thesis by blast
  qed auto
  from at obtain s1 where ap: "apply_intents L s0 = (Inr (), s1)"
    and pub: "published L (session_branch L (session s0)) i (current_pointers s1)
          (remote (let_others L s1)) (remote s')"
    and fin: "current_pointers s' = current_pointers s1" "snapshot_id s' = Some i"
    by (rule commit_attempt_published [OF laws(1)])
  have "unpublished L (remote s0) (remote (let_others L s1))"
    using apply_intents_carries [OF laws(1) ap, of view] let_others_quiet [OF laws(1), of s1]
    by (auto simp: carry_frame_def quiet_frame_def)
  then show ?thesis
    using Inr s0 pub fin br commit_attempt_view [OF laws at ap]
    by (auto simp: config_frame_def carry_frame_def intro: rtranclp_trans)
qed

end
