(* ===== verification/Serial.thy ===== *)
theory Serial
  imports Atomicity
begin

text \<open>
  Serialisability of commits: the pointer map a commit publishes is the one its parent snapshot
  carries, overlaid with the replay of the transaction's own intents on exactly that version.
  The invariant is \<open>synced\<close>: the catalog's base pointers are those of the snapshot the session
  is based on. Every step of a commit keeps it but one: recovery reads the tip's pointers and
  rebases the session in two separate calls, so it keeps it only when no other writer lands in
  between (\<open>no_writer_between\<close>).
\<close>

subsection \<open>The invariant\<close>

definition synced ::
    "('s, 'f, 'r, 'm, 'b, 'd, 'o, 'z) iceberg_lib_scheme
     \<Rightarrow> ('r, 's, 'd, 'b, 'o) transaction \<Rightarrow> bool" where
  "synced L s \<longleftrightarrow>
     session_branch L (session s) = branch s
     \<and> pointers_at L (remote s) (session_base L (session s)) = Some (pointers s)"

text \<open>
  Between the two calls of a recovery that starts at clock \<open>c\<close> plus a multiple of three (the
  commit, the read of the tip, the rebase), the branch \<open>b\<close> stays where it is.
\<close>

definition no_writer_between ::
    "('s, 'f, 'r, 'z) icechunk_lib_scheme \<Rightarrow> string \<Rightarrow> nat \<Rightarrow> bool" where
  "no_writer_between L b c \<longleftrightarrow>
     (\<forall>k r. lookup_branch L (others L (c + 3 * k + 2) r) b = lookup_branch L r b)"

text \<open>Opening a transaction establishes the invariant.\<close>

lemma tx_init_synced:
  assumes "session_law L" and "tx_init L conf b msg n given p = (Inr s, p')"
  shows "synced L s" and "staged s = []" and "intents s = []" and "branch s = b"
    and "max_retries s = n" and "message s = msg"
  using assms
  by (auto simp: tx_init_def tx_of_def catalog_for_def catalog_init_def synced_def
      catalog_state.defs call_writable_session_def session_law_def
      elim!: pbind_InrE pthen_InrE dest!: lib_result_InrD read_pointers_InrD split: option.splits if_splits)

lemma apply_intents_synced:
  assumes "world_laws L" and "synced L s" and "apply_intents L s = (r, s')"
  shows "synced L s'"
proof -
  have frame: "catalog_frame L s s'" by (rule keepsD [OF apply_intents_frame [OF assms(1)] assms(3)])
  show ?thesis
    using assms(2) catalog_frameD(1,3) [OF frame] tx_more(1,3) [OF catalog_frameD(9) [OF frame]]
    by (simp add: synced_def pointers_at_same_refs)
qed

lemma failed_commit_synced:
  assumes laws: "world_laws L" and sync: "synced L s"
    and run: "call_session_commit L md ae s = (res, s')" and "\<And>i. res \<noteq> Committed i"
  shows "synced L s'"
  using call_session_commit_failed [OF laws run assms(4)] call_session_commit_config [OF laws run] sync
  by (auto simp: synced_def quiet_frame_def config_frame_def intro: pointers_at_keeps)

lemma recover_synced:
  assumes laws: "world_laws L" and sync: "synced L s" and run: "recover L s = (Inr u, s')"
    and pause: "\<And>r. lookup_branch L (others L (Suc (clock s)) r) (branch s) = lookup_branch L r (branch s)"
  shows "synced L s'" and "staged s' = []" and "clock s' = clock s + 2"
proof -
  let ?r1 = "others L (clock s) (remote s)"
  let ?r2 = "others L (Suc (clock s)) ?r1"
  from run obtain tip where tip: "lookup_branch L ?r1 (branch s) = Inr tip"
    and ptrs: "pointers_at L ?r1 tip = Some (pointers s')"
    and rest: "staged s' = []" "clock s' = clock s + 2" "remote s' = ?r2"
    and reb: "session_rebase L ?r2 (session s) = (Inr (), session s')"
    by (rule recover_done)
  have cfg: "config_frame L s s'" by (rule keepsD [OF recover_config [OF laws] run])
  have "lookup_branch L ?r2 (branch s) = Inr (session_base L (session s'))"
  proof -
    have "rebase_law L" using laws by (simp add: world_laws_def)
    from this [unfolded rebase_law_def, rule_format, OF reb] sync show ?thesis
      by (simp add: synced_def)
  qed
  with tip pause have base: "session_base L (session s') = tip" by simp
  have "keeps_history L ?r1 ?r2" using laws by (simp add: world_laws_def others_law_def)
  from this ptrs have "pointers_at L ?r2 tip = Some (pointers s')" by (rule pointers_at_keeps)
  then show "synced L s'"
    using cfg sync base rest by (simp add: synced_def config_frame_def)
  show "staged s' = []" "clock s' = clock s + 2" by fact+
qed

text \<open>A pass that has to be repeated takes three ticks and ends synced, with nothing staged.\<close>

lemma commit_attempt_retry_synced:
  assumes laws: "world_laws L" and sync: "synced L s" and run: "commit_attempt L a s = (Inr None, s')"
    and pause: "\<And>r. lookup_branch L (others L (clock s + 2) r) (branch s) = lookup_branch L r (branch s)"
  shows "synced L s'" and "staged s' = []" and "clock s' = clock s + 3"
proof -
  from run obtain s1 s2 where ap: "apply_intents L s = (Inr (), s1)"
    and c: "call_session_commit L (commit_metadata (current_pointers s1)) (allow_empty L s1) s1
              = (CommitConflict, s2)"
    and rec: "recover L s2 = (Inr (), s')"
    by (auto simp: commit_attempt_def elim!: pthen_InrE split: if_splits prod.splits commit_result.splits)
  have frame: "catalog_frame L s s1" by (rule keepsD [OF apply_intents_frame [OF laws] ap])
  have clk: "clock s2 = Suc (clock s)"
    using call_session_commit_config(4) [OF laws c] catalog_frameD(7) [OF frame] by simp
  have br: "branch s2 = branch s"
    using call_session_commit_config(1) [OF laws c] catalog_frame_config [OF frame]
    by (simp add: config_frame_def)
  have "synced L s1" using laws sync ap by (rule apply_intents_synced)
  then have sync2: "synced L s2" using laws c by (blast intro: failed_commit_synced)
  have "\<And>r. lookup_branch L (others L (Suc (clock s2)) r) (branch s2) = lookup_branch L r (branch s2)"
    using pause by (simp add: clk br)
  from recover_synced [OF laws sync2 rec this] clk
  show "synced L s'" and "staged s' = []" and "clock s' = clock s + 3" by simp_all
qed

subsection \<open>The loop\<close>

text \<open>
  The same for a whole commit that starts in sync with nothing staged outside its intents: every
  pass does, and comes later than the call; any other invariant \<open>J\<close> of a repeated pass may be added.
\<close>

lemma commit_last_pass:
  assumes laws: "world_laws L" and sync: "synced L s" and "staged s = []"
    and pause: "no_writer_between L (branch s) (clock s)" and run: "commit L s = (r, s')"
    and "J (s\<lparr>unmanaged_staged := dict_keys (staged s)\<rparr>)"
    and J: "\<And>a t t'. J t \<Longrightarrow> synced L t \<Longrightarrow> commit_attempt L a t = (Inr None, t') \<Longrightarrow> J t'"
  obtains (exhausted) "J s'" and "r = Inl AssertionError"
    | (last) s0 a q where "quiet_frame L s s0" and "config_frame L s s0" and "synced L s0" and "staged s0 = []"
      and "J s0" and "commit_attempt L a s0 = (q, s')" and "r = map_sum id the q" and "q \<noteq> Inr None"
proof -
  let ?s = "s\<lparr>unmanaged_staged := dict_keys (staged s)\<rparr>"
  let ?I = "\<lambda>t. (quiet_frame L s t \<and> config_frame L s t \<and> synced L t \<and> staged t = []
              \<and> (\<exists>k. clock t = clock s + 3 * k)) \<and> J t"
  have start: "?I ?s"
    using sync assms(3,6)
    by (auto simp: synced_def quiet_frame_def config_frame_def intro: exI [of _ 0])
  have step: "?I t'" if I: "?I t" and at: "commit_attempt L a t = (Inr None, t')" for a t t'
  proof -
    from I obtain k where k: "clock t = clock s + 3 * k" and br: "branch t = branch s"
      by (auto simp: config_frame_def)
    have p: "lookup_branch L (others L (clock t + 2) r) (branch t) = lookup_branch L r (branch t)" for r
      using pause unfolding no_writer_between_def k br by blast
    note nxt = commit_attempt_retry_synced [OF laws _ at p]
    have "quiet_frame L t t' \<and> config_frame L t t'"
      using commit_attempt_unpublished [OF laws at] by simp
    moreover have "J t'" using I at J by blast
    ultimately show "?I t'"
      using I nxt k by (auto intro: quiet.trans config.trans exI [of _ "Suc k"])
  qed
  have "commit_loop L [0..max_retries s] ?s = (r, s')" using run by (simp add: commit_as_loop)
  from step start this show thesis
  proof (rule commit_loop_last [where I = ?I])
    assume "?I s'" and "r = Inl AssertionError"
    then show thesis using exhausted by blast
  next
    fix s0 a q
    assume "?I s0" "commit_attempt L a s0 = (q, s')" "q \<noteq> Inr None" "r = map_sum id the q"
    then show thesis using last by blast
  qed
qed

text \<open>The state in which the published intents were applied, and where its base came from.\<close>

lemma commit_replay:
  assumes laws: "world_laws L" and sync: "synced L s" and "staged s = []"
    and pause: "no_writer_between L (branch s) (clock s)" and run: "commit L s = (Inr i, s')"
  obtains s0 s1 where "quiet_frame L s s0" and "config_frame L s s0" and "synced L s0" and "staged s0 = []"
    and "apply_intents L s0 = (Inr (), s1)"
    and "published L (branch s) i (current_pointers s1) (remote (let_others L s1)) (remote s')"
    and "lookup_branch L (remote (let_others L s1)) (branch s) = Inr (session_base L (session s0))"
    and "current_pointers s' = current_pointers s1"
  using laws sync assms(3) pause run
proof (rule commit_last_pass [where J = "\<lambda>_. True"])
  fix s0 a q
  assume s0: "quiet_frame L s s0" "config_frame L s s0" "synced L s0" "staged s0 = []"
    and at: "commit_attempt L a s0 = (q, s')" and "Inr i = map_sum id the q" "q \<noteq> Inr None"
  then have at: "commit_attempt L a s0 = (Inr (Some i), s')" by (cases q) auto
  have br: "session_branch L (session s0) = branch s"
    using s0 sync by (simp add: synced_def config_frame_def)
  from laws at show thesis
    by (rule commit_attempt_published) (use s0 that in \<open>simp add: br\<close>)
qed simp_all

text \<open>The intents of a transaction stage only the tables they name.\<close>

lemma apply_intents_only:
  assumes "storage_law L" and "\<And>x. x \<in> set (intents s) \<Longrightarrow> plain_name L (intent_name x)"
    and run: "apply_intents L s = (r, s')"
  shows "stages_only (intent_name ` set (intents s)) s s'"
proof -
  have "keeps (stages_only (intent_name ` set (intents s))) (for_each (intent_apply L) (intents s))"
  proof (rule only.for_each_step)
    fix x assume x: "x \<in> set (intents s)"
    have one: "keeps (stages_only {intent_name x}) (intent_apply L x)"
      by (rule intent_apply_only [OF assms(1) assms(2) [OF x]])
    show "keeps (stages_only (intent_name ` set (intents s))) (intent_apply L x)"
    proof (rule keepsI)
      fix t r' t'
      assume "intent_apply L x t = (r', t')"
      with one have "stages_only {intent_name x} t t'" by (rule keepsD)
      with x show "stages_only (intent_name ` set (intents s)) t t'" by (auto simp: stages_only_def)
    qed
  qed
  moreover have "for_each (intent_apply L) (intents s) s = (r, s')"
    using run by (simp add: apply_intents_def pbind_run)
  ultimately show ?thesis by (rule keepsD)
qed

text \<open>
  C11. No lost update. Let the transaction start in sync with nothing staged outside its intents,
  and let no other writer land inside a recovery, between its read of the tip and its rebase
  (\<open>no_writer_between\<close>; what happens otherwise is \<open>recovery_race_loses_update\<close>). If \<open>commit\<close> succeeds, after
  however many conflicts, then at the moment it took effect the branch pointed at some snapshot
  \<open>j\<close> with pointer map \<open>p0\<close>; the published map is the result of applying the transaction's
  intents to a catalog at exactly \<open>p0\<close>; and every table the intents do not name keeps the
  version \<open>p0\<close> has for it.
\<close>

theorem no_lost_update:
  assumes laws: "world_laws L" and sync: "synced L s" "staged s = []"
    and pause: "no_writer_between L (branch s) (clock s)"
    and plain: "\<And>x. x \<in> set (intents s) \<Longrightarrow> plain_name L (intent_name x)"
    and run: "commit L s = (Inr i, s')"
  shows "\<exists>r j p0 s0 s1. unpublished L (remote s) r
    \<and> lookup_branch L r (branch s) = Inr j \<and> pointers_at L r j = Some p0
    \<and> published L (branch s) i (current_pointers s') r (remote s')
    \<and> pointers s0 = p0 \<and> staged s0 = [] \<and> intents s0 = intents s
    \<and> apply_intents L s0 = (Inr (), s1) \<and> current_pointers s1 = current_pointers s'
    \<and> (\<forall>n. n \<notin> intent_name ` set (intents s) \<longrightarrow> map_of (current_pointers s') n = map_of p0 n)"
proof -
  obtain s0 s1 where frames: "quiet_frame L s s0" "config_frame L s s0"
    and s0: "synced L s0" "staged s0 = []"
    and ap: "apply_intents L s0 = (Inr (), s1)"
    and pub: "published L (branch s) i (current_pointers s1) (remote (let_others L s1)) (remote s')"
    and tip: "lookup_branch L (remote (let_others L s1)) (branch s) = Inr (session_base L (session s0))"
    and fin: "current_pointers s' = current_pointers s1"
    by (rule commit_replay [OF laws sync pause run])
  let ?r = "remote (let_others L s1)"
  have int: "intents s0 = intents s" using frames(2) by (simp add: config_frame_def)
  have f1: "catalog_frame L s0 s1" by (rule keepsD [OF apply_intents_frame [OF laws] ap])
  have q: "quiet_frame L s0 (let_others L s1)"
    using catalog_frame_quiet [OF f1] let_others_quiet [OF laws] by (rule quiet.trans)
  with frames(1) have "unpublished L (remote s) ?r" by (auto simp: quiet_frame_def)
  moreover have "pointers_at L ?r (session_base L (session s0)) = Some (pointers s0)"
    using q s0(1) by (auto simp: quiet_frame_def synced_def intro: pointers_at_keeps)
  moreover have "map_of (current_pointers s') n = map_of (pointers s0) n"
    if "n \<notin> intent_name ` set (intents s)" for n
  proof -
    have "stages_only (intent_name ` set (intents s0)) s0 s1"
      using laws plain ap by (intro apply_intents_only) (auto simp: world_laws_def int)
    with that have "map_of (staged s1) n = None" by (simp add: stages_only_def int s0(2))
    then show ?thesis
      unfolding fin by (simp add: current_pointers_def catalog_frameD(3) [OF f1] map_add_def)
  qed
  ultimately show ?thesis using tip pub fin ap s0(2) int by metis
qed

subsection \<open>A rival inside a recovery\<close>

text \<open>
  C26. What a recovery loses. Let a recovery read the tip of its branch as snapshot \<open>j1\<close>, with the
  pointer map \<open>p1\<close>, and let the branch be at \<open>j2\<close>, with \<open>p2\<close>, when it then rebases: a rival committed
  in between. If the pass that follows succeeds, its snapshot is made on top of \<open>j2\<close>, but what it
  publishes is the replay of the intents on \<open>p1\<close>. So a table that the rival changed and that no intent
  names is set back to its version before the rival's commit, although no error was raised and the
  parent snapshot has the rival's version.
\<close>

theorem recovery_race_loses_update:
  assumes laws: "world_laws L" and plain: "\<And>x. x \<in> set (intents s) \<Longrightarrow> plain_name L (intent_name x)"
    and br: "session_branch L (session s) = branch s"
    and rec: "recover L s = (Inr u, s0)" and at: "commit_attempt L a s0 = (Inr (Some i), s')"
    and r1: "r1 = others L (clock s) (remote s)"
      "lookup_branch L r1 (branch s) = Inr j1" "pointers_at L r1 j1 = Some p1"
    and r2: "lookup_branch L (others L (Suc (clock s)) r1) (branch s) = Inr j2"
      "pointers_at L (others L (Suc (clock s)) r1) j2 = Some p2"
    and rival: "map_of p1 n \<noteq> map_of p2 n" "n \<notin> intent_name ` set (intents s)"
  shows "\<exists>s1 r. pointers s0 = p1 \<and> staged s0 = [] \<and> intents s0 = intents s
    \<and> apply_intents L s0 = (Inr (), s1)
    \<and> unpublished L (others L (Suc (clock s)) r1) r
    \<and> lookup_branch L r (branch s) = Inr j2 \<and> pointers_at L r j2 = Some p2
    \<and> published L (branch s) i (current_pointers s1) r (remote s')
    \<and> map_of (current_pointers s1) n = map_of p1 n \<and> map_of (current_pointers s1) n \<noteq> map_of p2 n"
proof -
  let ?r2 = "others L (Suc (clock s)) r1"
  obtain tip where "lookup_branch L r1 (branch s) = Inr tip" "pointers_at L r1 tip = Some (pointers s0)"
    and s0: "staged s0 = []" "remote s0 = ?r2" and reb: "session_rebase L ?r2 (session s) = (Inr (), session s0)"
    using rec unfolding r1(1) by (rule recover_done)
  with r1(2,3) have p1: "pointers s0 = p1" by simp
  have cfg: "config_frame L s s0" by (rule keepsD [OF recover_config [OF laws] rec])
  have base: "session_base L (session s0) = j2"
    using laws [unfolded world_laws_def rebase_law_def] reb r2(1) br by force
  obtain s1 where ap: "apply_intents L s0 = (Inr (), s1)"
    and pub: "published L (session_branch L (session s0)) i (current_pointers s1) (remote (let_others L s1)) (remote s')"
    and tip: "lookup_branch L (remote (let_others L s1)) (session_branch L (session s0)) = Inr (session_base L (session s0))"
    using at by (rule commit_attempt_published [OF laws])
  have f: "catalog_frame L s0 s1" by (rule keepsD [OF apply_intents_frame [OF laws] ap])
  have q: "quiet_frame L s0 (let_others L s1)"
    using catalog_frame_quiet [OF f] let_others_quiet [OF laws] by (rule quiet.trans)
  then have "pointers_at L (remote (let_others L s1)) j2 = Some p2"
    using r2(2) s0(2) by (auto simp: quiet_frame_def intro: pointers_at_keeps)
  moreover have "map_of (current_pointers s1) n = map_of p1 n"
  proof -
    have "stages_only (intent_name ` set (intents s0)) s0 s1"
      using laws plain ap cfg by (intro apply_intents_only) (auto simp: world_laws_def config_frame_def)
    with rival(2) cfg have "map_of (staged s1) n = None" by (simp add: stages_only_def config_frame_def s0(1))
    then show ?thesis by (simp add: current_pointers_def catalog_frameD(3) [OF f] map_add_def p1)
  qed
  ultimately show ?thesis
    using p1 s0 ap pub tip base rival(1) q cfg br
    by (intro exI [of _ s1] exI [of _ "remote (let_others L s1)"]) (simp add: config_frame_def quiet_frame_def)
qed

end
