(* ===== verification/Resolves.thy ===== *)
theory Resolves
  imports Serial
begin

text \<open>
  No dangling pointers: every pointer map that a snapshot carries names files that exist and
  parse. Unlike \<open>synced\<close> this does not depend on who else commits when: the base pointers of the
  catalog always come from some snapshot (\<open>sourced\<close>), and what is staged was written first.
\<close>

definition store_ok ::
    "('s, 'f, 'r, 'm, 'b, 'd, 'o, 'z) iceberg_lib_scheme \<Rightarrow> 'r \<Rightarrow> bool" where
  "store_ok L r \<longleftrightarrow>
     (\<forall>i p n l. pointers_at L r i = Some p \<longrightarrow> map_of p n = Some l \<longrightarrow> (\<exists>m. read_metadata L r l = Inr m))"

definition sourced ::
    "('s, 'f, 'r, 'm, 'b, 'd, 'o, 'z) iceberg_lib_scheme
     \<Rightarrow> ('r, 's, 'd, 'b, 'o) transaction \<Rightarrow> bool" where
  "sourced L s \<longleftrightarrow> (\<exists>i. pointers_at L (remote s) i = Some (pointers s))"

lemma synced_sourced: "synced L s \<Longrightarrow> sourced L s"
  by (auto simp: synced_def sourced_def)

text \<open>The whole invariant of a running commit.\<close>

definition resolves_inv ::
    "('s, 'f, 'r, 'm, 'b, 'd, 'o, 'z) iceberg_lib_scheme
     \<Rightarrow> ('r, 's, 'd, 'b, 'o) transaction \<Rightarrow> bool" where
  "resolves_inv L s \<longleftrightarrow> store_ok L (remote s) \<and> sourced L s \<and> staged_resolves L s"

lemma store_okD: "store_ok L r \<Longrightarrow> pointers_at L r i = Some p \<Longrightarrow> map_of p n = Some l
    \<Longrightarrow> \<exists>m. read_metadata L r l = Inr m"
  unfolding store_ok_def by blast

lemma store_ok_grows:
  assumes "store_ok L r" and "same_refs L r r'"
    and "\<And>l m. read_metadata L r l = Inr m \<Longrightarrow> read_metadata L r' l = Inr m"
  shows "store_ok L r'"
  using assms unfolding store_ok_def by (metis pointers_at_same_refs)

lemma staged_resolves_keeps:
  "staged_resolves L s \<Longrightarrow> keeps_history L (remote s) (remote s') \<Longrightarrow> staged s' = staged s
     \<Longrightarrow> staged_resolves L s'"
  unfolding staged_resolves_def keeps_history_def by metis

lemma sourced_keeps:
  "sourced L s \<Longrightarrow> keeps_history L (remote s) (remote s') \<Longrightarrow> pointers s' = pointers s \<Longrightarrow> sourced L s'"
  unfolding sourced_def by (metis pointers_at_keeps)

text \<open>Every pointer the catalog shows resolves.\<close>

lemma current_pointers_resolve:
  assumes "resolves_inv L s" and "map_of (current_pointers s) n = Some l"
  shows "\<exists>m. read_metadata L (remote s) l = Inr m"
proof -
  from assms(2) consider "map_of (staged s) n = Some l" | "map_of (pointers s) n = Some l"
    by (auto simp: current_pointers_def map_add_def split: option.splits)
  then show ?thesis
  proof cases
    case 1
    with assms(1) show ?thesis by (simp add: resolves_inv_def staged_resolves_def)
  next
    case 2
    with assms(1) show ?thesis by (auto simp: resolves_inv_def sourced_def dest: store_okD)
  qed
qed

lemma apply_intents_resolves:
  assumes laws: "world_laws L" and inv: "resolves_inv L s" and run: "apply_intents L s = (r, s')"
  shows "resolves_inv L s'"
proof -
  have frame: "catalog_frame L s s'" by (rule keepsD [OF apply_intents_frame [OF laws] run])
  have "keeps (keeps_resolving L) (apply_intents L)"
    unfolding apply_intents_def using laws
    by (intro resolving.steps resolving.for_each_step intent_apply_resolving) (simp add: world_laws_def)
  from this run have "keeps_resolving L s s'" by (rule keepsD)
  moreover have "store_ok L (remote s')"
    using inv catalog_frameD(1,2) [OF frame] by (auto simp: resolves_inv_def intro: store_ok_grows)
  ultimately show ?thesis
    using inv catalog_frameD(3) [OF frame] catalog_frame_history [OF frame]
    by (auto simp: resolves_inv_def keeps_resolving_def intro: sourced_keeps)
qed

lemma let_others_resolves:
  assumes "world_laws L" and "\<And>n r. store_ok L r \<Longrightarrow> store_ok L (others L n r)" and "resolves_inv L s"
  shows "resolves_inv L (let_others L s)"
proof -
  have "keeps_history L (remote s) (remote (let_others L s))"
    using let_others_quiet [OF assms(1)] by (simp add: quiet_frame_def)
  then show ?thesis
    using assms(2,3) unfolding resolves_inv_def
    by (auto intro: sourced_keeps staged_resolves_keeps simp: let_others_def)
qed

lemma failed_commit_resolves:
  assumes laws: "world_laws L" and others: "\<And>n r. store_ok L r \<Longrightarrow> store_ok L (others L n r)"
    and inv: "resolves_inv L s" and run: "call_session_commit L md ae s = (res, s')"
    and no: "\<And>i. res \<noteq> Committed i"
  shows "resolves_inv L s'"
proof -
  have inv1: "resolves_inv L (let_others L s)" by (rule let_others_resolves [OF laws others inv])
  obtain r sess where c: "session_commit L (remote (let_others L s)) (session (let_others L s))
        (message (let_others L s)) md ae = (res, r, sess)"
    and s': "s' = (let_others L s)\<lparr>remote := r, session := sess\<rparr>"
    using run by (auto simp: call_session_commit_def Let_def split: prod.splits)
  have law: "commit_law L" using laws by (simp add: world_laws_def)
  have same: "same_refs L (remote (let_others L s)) r"
    and rd: "read_metadata L r = read_metadata L (remote (let_others L s))"
    using law [unfolded commit_law_def, rule_format, OF c] no by (auto split: commit_result.splits)
  have "store_ok L r"
    using inv1 same by (auto simp: resolves_inv_def rd intro: store_ok_grows)
  moreover have "sourced L s'"
    using inv1 same by (simp add: resolves_inv_def sourced_def s' pointers_at_same_refs)
  moreover have "staged_resolves L s'"
    using inv1 by (simp add: resolves_inv_def staged_resolves_def s' rd)
  ultimately show ?thesis by (simp add: resolves_inv_def s')
qed

lemma recover_resolves:
  assumes laws: "world_laws L" and others: "\<And>n r. store_ok L r \<Longrightarrow> store_ok L (others L n r)"
    and inv: "resolves_inv L s" and run: "recover L s = (Inr u, s')"
  shows "resolves_inv L s'"
proof -
  let ?r1 = "others L (clock s) (remote s)"
  from run obtain tip where "pointers_at L ?r1 tip = Some (pointers s')" and "staged s' = []"
    and rem: "remote s' = others L (Suc (clock s)) ?r1"
    by (rule recover_done)
  moreover have "keeps_history L ?r1 (remote s')"
    using laws by (simp add: rem world_laws_def others_law_def)
  ultimately have "sourced L s'" "staged_resolves L s'"
    by (auto simp: sourced_def staged_resolves_def intro: pointers_at_keeps)
  moreover have "store_ok L (remote s')"
    using inv by (simp add: rem others resolves_inv_def)
  ultimately show ?thesis by (simp add: resolves_inv_def)
qed

text \<open>A publishing step keeps the store sound when the map it publishes resolves.\<close>

lemma published_store_ok:
  assumes "published L b i p r r'" and "store_ok L r"
    and "\<And>n l. map_of p n = Some l \<Longrightarrow> \<exists>m. read_metadata L r l = Inr m"
  shows "store_ok L r'"
proof -
  have "read_metadata L r' = read_metadata L r" using assms(1) by (simp add: published_def)
  then show ?thesis
    using assms(2,3) published_pointers [OF assms(1)] unfolding store_ok_def by auto
qed

lemma commit_attempt_retry_resolves:
  assumes laws: "world_laws L" and others: "\<And>n r. store_ok L r \<Longrightarrow> store_ok L (others L n r)"
    and inv: "resolves_inv L s" and run: "commit_attempt L a s = (Inr None, s')"
  shows "resolves_inv L s'"
proof -
  from run obtain s1 s2 where ap: "apply_intents L s = (Inr (), s1)"
    and c: "call_session_commit L (commit_metadata (current_pointers s1)) (allow_empty L s1) s1
              = (CommitConflict, s2)"
    and rec: "recover L s2 = (Inr (), s')"
    by (auto simp: commit_attempt_def elim!: pthen_InrE split: if_splits prod.splits commit_result.splits)
  have "resolves_inv L s1" by (rule apply_intents_resolves [OF laws inv ap])
  from failed_commit_resolves [OF laws others this c] have "resolves_inv L s2" by simp
  from recover_resolves [OF laws others this rec] show ?thesis .
qed

lemma commit_attempt_published_resolves:
  assumes laws: "world_laws L" and others: "\<And>n r. store_ok L r \<Longrightarrow> store_ok L (others L n r)"
    and inv: "resolves_inv L s" and run: "commit_attempt L a s = (Inr (Some i), s')"
  shows "store_ok L (remote s')"
proof -
  from run obtain s1 where ap: "apply_intents L s = (Inr (), s1)"
    and pub: "published L (session_branch L (session s)) i (current_pointers s1)
           (remote (let_others L s1)) (remote s')"
    by (rule commit_attempt_published [OF laws])
  have "resolves_inv L s1" by (rule apply_intents_resolves [OF laws inv ap])
  from let_others_resolves [OF laws others this] have inv1: "resolves_inv L (let_others L s1)" .
  have "map_of (current_pointers s1) n = Some l \<Longrightarrow> \<exists>m. read_metadata L (remote (let_others L s1)) l = Inr m"
    for n l
    using current_pointers_resolve [OF inv1, of n l] by (simp add: current_pointers_def let_others_def)
  with pub inv1 show ?thesis by (auto simp: resolves_inv_def intro: published_store_ok)
qed

subsection \<open>Error exits\<close>

text \<open>\<open>world_frame W\<close>: if the outside world satisfied \<open>W\<close> before, it does after.\<close>

definition world_frame ::
    "('r \<Rightarrow> bool) \<Rightarrow> ('r, 's, 'd, 'b, 'o) transaction \<Rightarrow> ('r, 's, 'd, 'b, 'o) transaction \<Rightarrow> bool" where
  "world_frame W s s' \<longleftrightarrow> (W (remote s) \<longrightarrow> W (remote s'))"

interpretation world: step_frame
    "world_frame W :: ('r, 's, 'd, 'b, 'o) transaction \<Rightarrow> ('r, 's, 'd, 'b, 'o) transaction \<Rightarrow> bool"
    for W :: "'r \<Rightarrow> bool"
  by unfold_locales (auto simp: world_frame_def)

lemma recover_world:
  assumes others: "\<And>n r. W r \<Longrightarrow> W (others L n r)"
  shows "keeps (world_frame W) (recover L)"
proof -
  have tip: "keeps (world_frame W) (read_pointers_at_branch L b)" for b
    unfolding read_pointers_at_branch_def call_lookup_branch_def
    by (intro world.steps) (simp_all add: keeps_def world.refl world_frame_def let_others_def others)
  have reb: "keeps (world_frame W) (call_session_rebase L)"
    by (simp add: keeps_def call_session_rebase_def Let_def split_beta world_frame_def let_others_def others)
  show ?thesis
    unfolding recover_def
    by (intro world.steps tip reb) (simp_all add: keeps_def world.refl world_frame_def rebase_onto_def)
qed

text \<open>An attempt that does not publish: which calls it made.\<close>

lemma commit_attempt_unpublished_cases:
  assumes run: "commit_attempt L a s = (res, s')" and "\<And>i. res \<noteq> Inr (Some i)"
  obtains (applied) r1 where "apply_intents L s = (r1, s')"
    | (refused) r1 s1 md ae cres where "apply_intents L s = (r1, s1)"
      and "call_session_commit L md ae s1 = (cres, s')" and "\<And>i. cres \<noteq> Committed i"
    | (recovered) r1 s1 md ae cres s2 r where "apply_intents L s = (r1, s1)"
      and "call_session_commit L md ae s1 = (cres, s2)" and "\<And>i. cres \<noteq> Committed i"
      and "recover L s2 = (r :: 'b exn + unit, s')"
proof -
  obtain r1 s1 where ap: "apply_intents L s = (r1 :: 'b exn + unit, s1)" by fastforce
  let ?md = "commit_metadata (current_pointers s1)" and ?ae = "allow_empty L s1"
  obtain cres s2 where c: "call_session_commit L ?md ?ae s1 = (cres, s2)" by fastforce
  have "s' = s1 \<or> (\<forall>i. cres \<noteq> Committed i) \<and> (s' = s2 \<or> (\<exists>r. recover L s2 = (r :: 'b exn + unit, s')))"
    using run ap c assms(2)
    by (cases r1)
      (auto simp: commit_attempt_def pthen_run split: if_splits prod.splits commit_result.splits sum.splits)
  with ap c show thesis using applied refused recovered by blast
qed

lemma commit_attempt_store_ok:
  assumes laws: "world_laws L" and others: "\<And>n r. store_ok L r \<Longrightarrow> store_ok L (others L n r)"
    and inv: "resolves_inv L s" and run: "commit_attempt L a s = (res, s')"
  shows "store_ok L (remote s')"
proof (cases "\<exists>i. res = Inr (Some i)")
  case True
  with commit_attempt_published_resolves [OF laws others inv] run show ?thesis by blast
next
  case False
  then have "\<And>i. res \<noteq> Inr (Some i)" by blast
  with run show ?thesis
  proof (cases rule: commit_attempt_unpublished_cases)
    case applied
    from apply_intents_resolves [OF laws inv applied] show ?thesis by (simp add: resolves_inv_def)
  next
    case refused
    from failed_commit_resolves [OF laws others apply_intents_resolves [OF laws inv refused(1)] refused(2,3)]
    show ?thesis by (simp add: resolves_inv_def)
  next
    case recovered
    show ?thesis
      using failed_commit_resolves [OF laws others apply_intents_resolves [OF laws inv recovered(1)] recovered(2,3)]
        keepsD [OF recover_world [of "store_ok L", OF others] recovered(4)]
      by (simp add: world_frame_def resolves_inv_def)
  qed
qed

text \<open>However a commit ends, and whoever else commits meanwhile, no pointer dangles.\<close>

lemma commit_store_ok:
  assumes laws: "world_laws L" and others: "\<And>n r. store_ok L r \<Longrightarrow> store_ok L (others L n r)"
    and start: "store_ok L (remote s)" "synced L s" "staged s = []"
    and run: "commit L s = (res, s')"
  shows "store_ok L (remote s')"
proof -
  let ?s = "s\<lparr>unmanaged_staged := dict_keys (staged s)\<rparr>"
  have inv: "resolves_inv L ?s"
    using start synced_sourced by (auto simp: resolves_inv_def sourced_def synced_def staged_resolves_def)
  have loop: "commit_loop L [0..max_retries s] ?s = (res, s')" using run by (simp add: commit_as_loop)
  have retry: "resolves_inv L t'" if "resolves_inv L t" "commit_attempt L a t = (Inr None, t')" for a t t'
    using laws others that by (rule commit_attempt_retry_resolves)
  from retry inv loop show ?thesis
  proof (rule commit_loop_last [where I = "resolves_inv L"])
    assume "resolves_inv L s'"
    then show ?thesis by (simp add: resolves_inv_def)
  next
    fix s0 a q
    assume "resolves_inv L s0" "commit_attempt L a s0 = (q, s')"
    with laws others show ?thesis by (rule commit_attempt_store_ok)
  qed
qed

end
