(* ===== verification/Repo.thy ===== *)
theory Repo
  imports Resolves
begin

text \<open>
  \<open>src/icechest/transaction.py\<close>, last part: \<open>HybridRepo\<close> as a reader's entry point, and
  \<open>HybridSnapshot\<close>, the arrays and tables of one snapshot. A snapshot object is the record
  \<open>hybrid_snapshot\<close>; its two cached properties are fields that are \<open>None\<close> until first used.
\<close>

subsection \<open>HybridRepo\<close>

definition repo_transaction ::
    "('s, 'f, 'r, 'm, 'b, 'd, 'o, 'z) iceberg_lib_scheme \<Rightarrow> hybrid_repo \<Rightarrow> string \<Rightarrow> string \<Rightarrow> int option
     \<Rightarrow> 's option
     \<Rightarrow> (('r, 'y) process_scheme, 'b exn, ('r, 's, 'd, 'b, 'o) transaction) pgm" where
  "repo_transaction L conf b msg retries given =
     tx_init L conf b msg (case retries of None \<Rightarrow> DEFAULT_MAX_RETRIES | Some n \<Rightarrow> n) given"

definition snapshot_for ::
    "('s, 'f, 'r, 'z) icechunk_lib_scheme \<Rightarrow> string option \<Rightarrow> string option \<Rightarrow> string option
     \<Rightarrow> (('r, 'y) process_scheme, 'b exn, string) pgm" where
  "snapshot_for L br tg sid =
     pthen (pguard (length (filter (\<lambda>x. x \<noteq> None) [br, tg, sid]) = 1) (ValueError NotExactlyOneRef))
     (case (sid, tg, br) of
        (Some i, _, _) \<Rightarrow> pret i
      | (None, Some t, _) \<Rightarrow> call_lookup_tag L t
      | (None, None, Some b) \<Rightarrow> call_lookup_branch L b
      | (None, None, None) \<Rightarrow> praise (ValueError NotExactlyOneRef))"

record ('r, 's) hybrid_snapshot = "'r process" +
  snap_repo :: hybrid_repo
  snap_id :: string
  cached_store :: "'s option"
  cached_group :: "'s option"

definition snapshot_of ::
    "hybrid_repo \<Rightarrow> string \<Rightarrow> ('r, 'y) process_scheme \<Rightarrow> ('r, 's) hybrid_snapshot" where
  "snapshot_of conf i p =
     \<lparr>remote = remote p, clock = clock p, draws = draws p,
      snap_repo = conf, snap_id = i, cached_store = None, cached_group = None\<rparr>"

definition repo_read ::
    "('s, 'f, 'r, 'z) icechunk_lib_scheme \<Rightarrow> hybrid_repo \<Rightarrow> string option \<Rightarrow> string option \<Rightarrow> string option
     \<Rightarrow> (('r, 'y) process_scheme, 'b exn, ('r, 's) hybrid_snapshot) pgm" where
  "repo_read L conf br tg sid =
     (let b = (if br = None \<and> tg = None \<and> sid = None then Some ''main'' else br)
      in pbind (snapshot_for L b tg sid) (\<lambda>i. pget (snapshot_of conf i)))"

subsection \<open>HybridSnapshot\<close>

definition snapshot_store ::
    "('s, 'f, 'r, 'z) icechunk_lib_scheme \<Rightarrow> (('r, 's) hybrid_snapshot, 'b exn, 's) pgm" where
  "snapshot_store L s =
     (case cached_store s of
        Some st \<Rightarrow> (Inr st, s)
      | None \<Rightarrow> (case readonly_session L (remote s) (snap_id s) of
           Inl e \<Rightarrow> (Inl (LibError e), s)
         | Inr st \<Rightarrow> (Inr st, s\<lparr>cached_store := Some st\<rparr>)))"

definition snapshot_group ::
    "('s, 'f, 'r, 'z) icechunk_lib_scheme \<Rightarrow> (('r, 's) hybrid_snapshot, 'b exn, 's) pgm" where
  "snapshot_group L =
     pbind (pget cached_group) (\<lambda>g. case g of
        Some st \<Rightarrow> pret st
      | None \<Rightarrow>
          pbind (snapshot_store L) (\<lambda>st.
          pbind (plift (lib_result (open_group_r L st))) (\<lambda>_.
          pthen (pmodify (\<lambda>s. s\<lparr>cached_group := Some st\<rparr>)) (pret st))))"

definition snapshot_pointers ::
    "('s, 'f, 'r, 'z) icechunk_lib_scheme \<Rightarrow> (('r, 's) hybrid_snapshot, 'b exn, (string, string) dict) pgm" where
  "snapshot_pointers L = pbind (pget snap_id) (\<lambda>i. read_pointers L i)"

definition snapshot_bindings ::
    "('s, 'f :: zero, 'r, 'z) icechunk_lib_scheme
     \<Rightarrow> (('r, 's) hybrid_snapshot, 'b exn, (string, table_binding) dict) pgm" where
  "snapshot_bindings L = pbind (snapshot_group L) (\<lambda>g. plift (fst (read_bindings L g)))"

text \<open>The exception that says why a table has no pointer, as a value: the caller raises it.\<close>

definition unresolvable ::
    "('s, 'f :: zero, 'r, 'z) icechunk_lib_scheme \<Rightarrow> string
     \<Rightarrow> (('r, 's) hybrid_snapshot, 'b exn, 'b exn) pgm" where
  "unresolvable L name =
     pbind (snapshot_bindings L) (\<lambda>declared.
     if \<not> dict_has declared name then pret (KeyError name (sorted_set (dict_keys declared)))
     else pget (\<lambda>s. ValueError (MalformedStore name (snap_id s))))"

definition snapshot_table ::
    "('s, 'f :: zero, 'r, 'm, 'b, 'd, 'o, 'z) iceberg_lib_scheme \<Rightarrow> string
     \<Rightarrow> (('r, 's) hybrid_snapshot, 'b exn, 'm iceberg_table) pgm" where
  "snapshot_table L name =
     pbind (snapshot_pointers L) (\<lambda>ptrs.
     case map_of ptrs name of
       None \<Rightarrow> pbind (unresolvable L name) praise
     | Some l \<Rightarrow>
         (\<lambda>s. with_catalog (catalog_for (snap_repo s) [(name, l)] True s) (load_table L (IdStr name)) s))"

subsection \<open>What reading does\<close>

text \<open>Reading never changes the world; it may fill the two caches.\<close>

definition read_frame ::
    "('r, 's) hybrid_snapshot \<Rightarrow> ('r, 's) hybrid_snapshot \<Rightarrow> bool" where
  "read_frame s s' \<longleftrightarrow>
     remote s' = remote s \<and> clock s' = clock s \<and> draws s' = draws s
     \<and> snap_repo s' = snap_repo s \<and> snap_id s' = snap_id s"

interpretation reading: step_frame "read_frame :: ('r, 's) hybrid_snapshot \<Rightarrow> _"
  by unfold_locales (auto simp: read_frame_def)

lemma snapshot_store_frame: "keeps read_frame (snapshot_store L)"
  by (rule keepsI) (auto simp: snapshot_store_def read_frame_def split: option.splits sum.splits)

lemma snapshot_group_frame: "keeps read_frame (snapshot_group L)"
  unfolding snapshot_group_def
  by (intro reading.steps) (auto intro!: reading.steps snapshot_store_frame simp: read_frame_def split: option.splits)

lemma snapshot_pointers_frame: "keeps read_frame (snapshot_pointers L)"
  unfolding snapshot_pointers_def by (intro reading.steps) (simp add: keeps_def reading.refl)

lemma snapshot_bindings_frame: "keeps read_frame (snapshot_bindings L)"
  unfolding snapshot_bindings_def by (intro reading.steps snapshot_group_frame)

lemma unresolvable_frame: "keeps read_frame (unresolvable L n)"
  unfolding unresolvable_def by (intro reading.steps snapshot_bindings_frame)

lemma catalog_for_parts [simp]:
  "remote (catalog_for conf p ro s) = remote s" "clock (catalog_for conf p ro s) = clock s"
  "draws (catalog_for conf p ro s) = draws s" "pointers (catalog_for conf p ro s) = p"
  "staged (catalog_for conf p ro s) = []" "read_only (catalog_for conf p ro s) = ro"
  "current_pointers (catalog_for conf p ro s) = p"
  by (simp_all add: catalog_for_def catalog_init_def current_pointers_def)

lemma load_with_catalog:
  "with_catalog (catalog_for conf ptrs ro s) (load_table L (IdStr name)) s
     = (fst (load_table L (IdStr name) (catalog_for conf ptrs ro s)), s)"
proof -
  have "snd (load_table L (IdStr name) (catalog_for conf ptrs ro s)) = catalog_for conf ptrs ro s"
    by simp
  then show ?thesis by (cases "load_table L (IdStr name) (catalog_for conf ptrs ro s)")
      (simp add: with_catalog_def)
qed

lemma load_with_catalog_frame:
  "keeps read_frame (\<lambda>s. with_catalog (catalog_for (snap_repo s) ptrs ro s) (load_table L (IdStr n)) s)"
  by (simp add: load_with_catalog keeps_def reading.refl)

lemma snapshot_table_frame: "keeps read_frame (snapshot_table L n)"
  unfolding snapshot_table_def
  by (intro reading.bind_step snapshot_pointers_frame)
    (auto split: option.split
      intro!: reading.bind_step reading.pure_step unresolvable_frame load_with_catalog_frame)

lemma snapshot_table_resolved:
  fixes L :: "('s, 'f :: zero, 'r, 'm, 'b, 'd, 'o, 'z) iceberg_lib_scheme"
  assumes "pointers_at L (remote s) (snap_id s) = Some p" and "map_of p n = Some l"
  shows "snapshot_table L n s =
    (fst (load_table L (IdStr n) (catalog_for (snap_repo s) [(n, l)] True s)), s)"
proof -
  have "snapshot_pointers L s = (Inr p :: 'b exn + _, s)"
    using assms(1) by (simp add: snapshot_pointers_def)
  then show ?thesis
    using assms(2) by (simp add: snapshot_table_def load_with_catalog)
qed

lemma load_table_single:
  assumes "table_name_from L (IdStr n) = n" and "read_metadata L (remote s) l = Inr m"
  shows "load_table L (IdStr n) (catalog_for conf [(n, l)] ro s)
    = (Inr \<lparr>table_identifier = [n], table_metadata = m, table_location = l\<rparr>, catalog_for conf [(n, l)] ro s)"
  using assms by (subst load_table_staged) auto

lemma snapshot_table_InrD:
  fixes L :: "('s, 'f :: zero, 'r, 'm, 'b, 'd, 'o, 'z) iceberg_lib_scheme"
  assumes "snapshot_table L n s = (Inr t, s')"
  shows "s' = s \<and> (\<exists>p l. pointers_at L (remote s) (snap_id s) = Some p \<and> map_of p n = Some l
    \<and> read_metadata L (remote s) (table_location t) = Inr (table_metadata t)
    \<and> load_table L (IdStr n) (catalog_for (snap_repo s) [(n, l)] True s)
        = (Inr t :: 'b exn + 'm iceberg_table, catalog_for (snap_repo s) [(n, l)] True s))"
proof -
  from assms obtain p s1 where p: "snapshot_pointers L s = (Inr p :: 'b exn + _, s1)"
    and rest: "(case map_of p n of None \<Rightarrow> pbind (unresolvable L n) praise
       | Some l \<Rightarrow> (\<lambda>s. with_catalog (catalog_for (snap_repo s) [(n, l)] True s) (load_table L (IdStr n)) s)) s1
       = (Inr t, s')"
    unfolding snapshot_table_def by (rule pbind_InrE)
  from p have s1: "s1 = s" and ptrs: "pointers_at L (remote s) (snap_id s) = Some p"
    by (auto simp: snapshot_pointers_def dest: read_pointers_InrD)
  from rest obtain l where l: "map_of p n = Some l"
    by (auto elim!: pbind_InrE split: option.splits)
  with rest s1 have
    run: "fst (load_table L (IdStr n) (catalog_for (snap_repo s) [(n, l)] True s)) = (Inr t :: 'b exn + _)"
    and s': "s' = s" by (auto simp: load_with_catalog)
  obtain c where c: "load_table L (IdStr n) (catalog_for (snap_repo s) [(n, l)] True s)
      = (Inr t :: 'b exn + _, c)"
    using run by (metis prod.collapse)
  from load_table_InrD [OF c] c ptrs l s' show ?thesis by auto
qed

text \<open>
  C32. A table that has no pointer in the snapshot is refused for one of two reasons, decided by
  the declarations on the root group: never declared there (\<open>KeyError\<close>, listing in order what
  is declared), or declared without a pointer (\<open>ValueError\<close>, a malformed store). It is never
  resolved against another snapshot.
\<close>

theorem unresolvable_table:
  fixes L :: "('s, 'f :: zero, 'r, 'm, 'b, 'd, 'o, 'z) iceberg_lib_scheme"
  assumes "pointers_at L (remote s) (snap_id s) = Some p" and "map_of p n = None"
    and "snapshot_bindings L s = (Inr declared :: 'b exn + _, s1)"
  shows "snapshot_table L n s =
    (Inl (if n \<in> dom (map_of declared) then ValueError (MalformedStore n (snap_id s))
          else KeyError n (sorted_set (dict_keys declared))), s1)"
proof -
  have "snapshot_pointers L s = (Inr p :: 'b exn + _, s)"
    using assms(1) by (simp add: snapshot_pointers_def)
  moreover have "snap_id s1 = snap_id s"
    using keepsD [OF snapshot_bindings_frame assms(3)] by (simp add: read_frame_def)
  ultimately show ?thesis
    using assms(2,3) by (auto simp: snapshot_table_def unresolvable_def dict_has_def pbind_run)
qed

text \<open>
  C18. A snapshot is immutable to its readers: a table read through it before a commit, by this
  process or with any number of other writers interleaved, reads the same after it, whether the
  commit published, raised or retried.
\<close>

theorem snapshot_isolation:
  fixes L :: "('s, 'f :: zero, 'r, 'm, 'b, 'd, 'o, 'z) iceberg_lib_scheme"
  assumes laws: "world_laws L" and now: "snapshot_table L n s = (Inr t, s1)"
    and same: "remote s = remote tx" and run: "commit L tx = (res, tx')"
  shows "fst (snapshot_table L n (s\<lparr>remote := remote tx'\<rparr>)) = Inr t"
proof -
  let ?s = "s\<lparr>remote := remote tx'\<rparr>"
  have keep: "keeps_history L (remote s) (remote tx')"
    using keepsD [OF commit_history [OF laws] run] by (simp add: history_frame_def same)
  from snapshot_table_InrD [OF now] obtain p l where
    p: "pointers_at L (remote s) (snap_id s) = Some p" and l: "map_of p n = Some l"
    and "read_metadata L (remote s) (table_location t) = Inr (table_metadata t)"
    and load: "load_table L (IdStr n) (catalog_for (snap_repo s) [(n, l)] True s)
       = (Inr t :: 'b exn + 'm iceberg_table, catalog_for (snap_repo s) [(n, l)] True s)"
    by (elim conjE exE) (rule that)
  from load_table_InrD [OF load] have l': "l = table_location t" "table_name_from L (IdStr n) = n"
    and m: "read_metadata L (remote s) l = Inr (table_metadata t)" and t: "table_identifier t = [n]"
    by (auto split: if_splits)
  have "pointers_at L (remote ?s) (snap_id ?s) = Some p"
    using pointers_at_keeps [OF keep p] by simp
  from snapshot_table_resolved [OF this l]
  have "fst (snapshot_table L n ?s)
      = fst (load_table L (IdStr n) (catalog_for (snap_repo s) [(n, l)] True ?s))" by simp
  also have "\<dots> = Inr t"
    using m keep l' t by (subst load_table_single) (auto simp: keeps_history_def)
  finally show ?thesis .
qed

text \<open>
  C25. What a commit published is what a reader gets: opening the snapshot id it returned and
  reading a table gives what the transaction's own catalog gives for that table at the end.
\<close>

theorem read_after_commit:
  fixes L :: "('s, 'f :: zero, 'r, 'm, 'b, 'd, 'o, 'z) iceberg_lib_scheme"
  assumes laws: "world_laws L" and br: "session_branch L (session tx) = branch tx"
    and run: "commit L tx = (Inr i, tx')"
    and name: "plain_name L n" "n \<in> dom (map_of (current_pointers tx'))"
  shows "fst (snapshot_table L n (snapshot_of conf i tx')) = fst (load_table L (IdStr n) tx')"
proof -
  let ?s = "tx\<lparr>unmanaged_staged := dict_keys (staged tx)\<rparr>"
  let ?v = "snapshot_of conf i tx' :: ('r, 's) hybrid_snapshot"
  from run have "commit_loop L [0..max_retries tx] ?s = (Inr i, tx')" by (simp add: commit_as_loop)
  then obtain s0 a where "commit_attempt L a s0 = (Inr (Some i), tx')"
    by (rule commit_loop_published [OF laws])
  then obtain s1 where "apply_intents L s0 = (Inr (), s1)"
    and pub: "published L (session_branch L (session s0)) i (current_pointers s1)
        (remote (let_others L s1)) (remote tx')"
    and fin: "current_pointers tx' = current_pointers s1"
    by (rule commit_attempt_published [OF laws])
  from published_pointers [OF pub]
  have p: "pointers_at L (remote ?v) (snap_id ?v)
      = Some (current_pointers tx')"
    by (simp add: snapshot_of_def fin)
  from name(2) obtain l where l: "map_of (current_pointers tx') n = Some l" by blast
  have "fst (snapshot_table L n ?v)
      = fst (load_table L (IdStr n) (catalog_for conf [(n, l)] True ?v))"
    by (subst snapshot_table_resolved [OF p l]) (simp add: snapshot_of_def)
  also have "\<dots> = fst (load_table L (IdStr n) tx')"
    using name(1) l
    by (simp add: load_table_def resolve_def call_read_metadata_def Let_def pbind_run plain_name_def
        snapshot_of_def split: sum.splits)
  finally show ?thesis .
qed

text \<open>
  A reader names at most one of branch, tag and snapshot id: any other number is a
  \<open>ValueError\<close> raised before the repository is asked anything; none at all means the branch
  \<open>main\<close>.
\<close>

lemma read_one_ref:
  "repo_read L conf br tg sid s =
     (case (br, tg, sid) of
        (None, None, None) \<Rightarrow> pbind (call_lookup_branch L ''main'') (\<lambda>i. pget (snapshot_of conf i)) s
      | (Some b, None, None) \<Rightarrow> pbind (call_lookup_branch L b) (\<lambda>i. pget (snapshot_of conf i)) s
      | (None, Some t, None) \<Rightarrow> pbind (call_lookup_tag L t) (\<lambda>i. pget (snapshot_of conf i)) s
      | (None, None, Some i) \<Rightarrow> (Inr (snapshot_of conf i s), s)
      | _ \<Rightarrow> (Inl (ValueError NotExactlyOneRef), s))"
  by (auto simp: repo_read_def snapshot_for_def Let_def pbind_run split: option.splits)

end
