(* ===== verification/Rows.thy ===== *)
theory Rows
  imports Repo "HOL-Library.Multiset"
begin

text \<open>
  What a table operation means to its user, apart from files, pointers and retries: a table is a
  multiset of rows, an intent is an update of named tables, and a transaction is the sequence of
  its intents. The theory shows that the catalog's operations and the whole commit implement
  exactly that. \<open>rows\<close> reads the rows of a parsed \<open>metadata.json\<close>, \<open>dat\<close> those of an Arrow
  table, and \<open>sat p x\<close> says that row \<open>x\<close> matches predicate \<open>p\<close>.
\<close>

subsection \<open>The specification\<close>

type_synonym 'x tables = "string \<rightharpoonup> 'x multiset"

fun row_step ::
    "('d \<Rightarrow> 'x multiset) \<Rightarrow> ('b predicate \<Rightarrow> 'x \<Rightarrow> bool) \<Rightarrow> ('d, 'b, 'o) intent
     \<Rightarrow> 'x tables \<Rightarrow> 'x tables option" where
  "row_step dat sat (CreateTable n _ _ _ _ _) c = Some (if c n = None then c(n \<mapsto> {#}) else c)"
| "row_step dat sat (AppendRows n d) c =
     map_option (\<lambda>R. c(n \<mapsto> R + dat d)) (c n)"
| "row_step dat sat (DeleteRows n p) c =
     map_option (\<lambda>R. c(n \<mapsto> filter_mset (\<lambda>x. \<not> sat p x) R)) (c n)"
| "row_step dat sat (OverwriteRows n d p) c =
     map_option (\<lambda>R. c(n \<mapsto> filter_mset (\<lambda>x. \<not> sat p x) R + dat d)) (c n)"

fun row_run ::
    "('d \<Rightarrow> 'x multiset) \<Rightarrow> ('b predicate \<Rightarrow> 'x \<Rightarrow> bool) \<Rightarrow> ('d, 'b, 'o) intent list
     \<Rightarrow> 'x tables \<Rightarrow> 'x tables option" where
  "row_run dat sat [] c = Some c"
| "row_run dat sat (i # is) c = Option.bind (row_step dat sat i c) (row_run dat sat is)"

subsection \<open>What PyIceberg's row operations do\<close>

text \<open>
  Applying the updates a row operation planned on a version gives that version's rows, changed
  as the operation says; an operation that plans nothing had nothing to change.
\<close>

definition rows_law ::
    "('s, 'f, 'r, 'm, 'b, 'd, 'o, 'z) iceberg_lib_scheme \<Rightarrow> ('m \<Rightarrow> 'x multiset)
     \<Rightarrow> ('d \<Rightarrow> 'x multiset) \<Rightarrow> ('b predicate \<Rightarrow> 'x \<Rightarrow> bool) \<Rightarrow> bool" where
  "rows_law L rows dat sat \<longleftrightarrow>
     (\<forall>sc ps so loc pr m. new_table_metadata L sc ps so loc pr = Inr m \<longrightarrow> rows m = {#})
     \<and> (\<forall>r t d pl r'. append_rows L r t d = (Inr pl, r') \<longrightarrow>
          (case pl of None \<Rightarrow> rows (table_metadata t) + dat d = rows (table_metadata t)
           | Some (rqs, ups) \<Rightarrow> \<forall>loc m. update_table_metadata L (table_metadata t) ups loc = Inr m \<longrightarrow>
               rows m = rows (table_metadata t) + dat d))
     \<and> (\<forall>r t p pl r'. delete_rows L r t p = (Inr pl, r') \<longrightarrow>
          (case pl of None \<Rightarrow> filter_mset (\<lambda>x. \<not> sat p x) (rows (table_metadata t)) = rows (table_metadata t)
           | Some (rqs, ups) \<Rightarrow> \<forall>loc m. update_table_metadata L (table_metadata t) ups loc = Inr m \<longrightarrow>
               rows m = filter_mset (\<lambda>x. \<not> sat p x) (rows (table_metadata t))))
     \<and> (\<forall>r t d p pl r'. overwrite_rows L r t d p = (Inr pl, r') \<longrightarrow>
          (case pl of
             None \<Rightarrow> filter_mset (\<lambda>x. \<not> sat p x) (rows (table_metadata t)) + dat d = rows (table_metadata t)
           | Some (rqs, ups) \<Rightarrow> \<forall>loc m. update_table_metadata L (table_metadata t) ups loc = Inr m \<longrightarrow>
               rows m = filter_mset (\<lambda>x. \<not> sat p x) (rows (table_metadata t)) + dat d))"

subsection \<open>The abstraction\<close>

definition table_rows ::
    "('s, 'f, 'r, 'm, 'b, 'd, 'o, 'z) iceberg_lib_scheme \<Rightarrow> ('m \<Rightarrow> 'x multiset)
     \<Rightarrow> (string \<rightharpoonup> string) \<Rightarrow> 'r \<Rightarrow> 'x tables" where
  "table_rows L rows ptrs r n =
     Option.bind (ptrs n) (\<lambda>l. map_option rows (projr_option (read_metadata L r l)))"

abbreviation catalog_rows ::
    "('s, 'f, 'r, 'm, 'b, 'd, 'o, 'z) iceberg_lib_scheme \<Rightarrow> ('m \<Rightarrow> 'x multiset)
     \<Rightarrow> ('r, 'y) catalog_state_scheme \<Rightarrow> 'x tables" where
  "catalog_rows L rows s \<equiv> table_rows L rows (map_of (current_pointers s)) (remote s)"

definition snapshot_rows ::
    "('s, 'f, 'r, 'm, 'b, 'd, 'o, 'z) iceberg_lib_scheme \<Rightarrow> ('m \<Rightarrow> 'x multiset)
     \<Rightarrow> 'r \<Rightarrow> string \<Rightarrow> 'x tables" where
  "snapshot_rows L rows r i =
     (case pointers_at L r i of None \<Rightarrow> Map.empty | Some p \<Rightarrow> table_rows L rows (map_of p) r)"

definition all_resolve ::
    "('s, 'f, 'r, 'm, 'b, 'd, 'o, 'z) iceberg_lib_scheme \<Rightarrow> (string \<rightharpoonup> string) \<Rightarrow> 'r \<Rightarrow> bool" where
  "all_resolve L ptrs r \<longleftrightarrow> (\<forall>n l. ptrs n = Some l \<longrightarrow> (\<exists>m. read_metadata L r l = Inr m))"

lemma all_resolveD: "all_resolve L p r \<Longrightarrow> p n = Some l \<Longrightarrow> \<exists>m. read_metadata L r l = Inr m"
  by (simp add: all_resolve_def)

lemma all_resolve_keeps: "all_resolve L p r \<Longrightarrow> keeps_history L r r' \<Longrightarrow> all_resolve L p r'"
  unfolding all_resolve_def keeps_history_def by metis

lemma table_rows_keeps:
  assumes "all_resolve L p r" and "keeps_history L r r'"
  shows "table_rows L rows p r' = table_rows L rows p r"
proof (rule ext)
  fix n
  show "table_rows L rows p r' n = table_rows L rows p r n"
  proof (cases "p n")
    case (Some l)
    with all_resolveD [OF assms(1)] obtain m where "read_metadata L r l = Inr m" by blast
    moreover from this assms(2) have "read_metadata L r' l = Inr m" by (simp add: keeps_history_def)
    ultimately show ?thesis using Some by (simp add: table_rows_def)
  qed (simp add: table_rows_def)
qed

lemma table_rows_same_read:
  "read_metadata L r' = read_metadata L r \<Longrightarrow> table_rows L rows p r' = table_rows L rows p r"
  by (simp add: table_rows_def fun_eq_iff)

lemma table_rows_None_iff:
  "all_resolve L p r \<Longrightarrow> table_rows L rows p r n = None \<longleftrightarrow> p n = None"
  by (cases "p n") (auto simp: table_rows_def dest: all_resolveD)

subsection \<open>The catalog's operations implement the specification\<close>

text \<open>Writing a version and staging it sets that table's rows and no other's.\<close>

lemma write_and_stage_rows:
  assumes law: "storage_law L" and res: "all_resolve L (map_of (current_pointers s)) (remote s)"
    and run: "write_and_stage L n v m s = (Inr l, s')"
  shows "catalog_rows L rows s' = (catalog_rows L rows s)(n \<mapsto> rows m)"
    and "all_resolve L (map_of (current_pointers s')) (remote s')"
proof -
  note facts = write_and_stage_InrD [OF law run]
  have "pointers s' = pointers s"
    using write_and_stage_frame [OF law] run by (blast dest: keepsD catalog_frameD)
  then have cp: "map_of (current_pointers s') = (map_of (current_pointers s))(n \<mapsto> l)"
    by (simp add: current_pointers_def facts(4))
  have fresh: "k \<noteq> l" if "map_of (current_pointers s) x = Some k" for k x
    using all_resolveD [OF res that] facts(2) by blast
  show "catalog_rows L rows s' = (catalog_rows L rows s)(n \<mapsto> rows m)"
  proof (rule ext)
    fix x
    show "catalog_rows L rows s' x = ((catalog_rows L rows s)(n \<mapsto> rows m)) x"
      using fresh by (cases "map_of (current_pointers s) x") (auto simp: table_rows_def cp facts(3))
  qed
  show "all_resolve L (map_of (current_pointers s')) (remote s')"
    using res by (auto simp: all_resolve_def cp facts(3))
qed

lemma commit_table_rows:
  assumes law: "storage_law L" and res: "all_resolve L (map_of (current_pointers s)) (remote s)"
    and name: "table_name_from L (IdTuple (table_identifier t)) = n"
    and cur: "map_of (current_pointers s) n = Some l" "read_metadata L (remote s) l = Inr (table_metadata t)"
    and run: "commit_table L t rqs ups s = (Inr (m, l'), s')"
  shows "update_table_metadata L (table_metadata t) ups (Some l) = Inr m"
    and "catalog_rows L rows s' = (catalog_rows L rows s)(n \<mapsto> rows m)"
    and "all_resolve L (map_of (current_pointers s')) (remote s')"
proof -
  have base: "base_metadata L t s = Inr (table_metadata t)"
    using cur by (simp add: base_metadata_def name)
  from run obtain v where up: "update_table_metadata L (table_metadata t) ups (Some l) = Inr m"
    and w: "write_and_stage L n v m s = (Inr l' :: 'e exn + _, s')"
    by (elim commit_table_InrE) (auto simp: name base cur)
  show "update_table_metadata L (table_metadata t) ups (Some l) = Inr m" by (rule up)
  show "catalog_rows L rows s' = (catalog_rows L rows s)(n \<mapsto> rows m)"
    and "all_resolve L (map_of (current_pointers s')) (remote s')"
    using write_and_stage_rows [OF law res w] by blast+
qed

text \<open>A row operation on a loaded table: \<open>f\<close> is what it does to the table's rows.\<close>

lemma hand_back_rows:
  fixes L :: "('s, 'f, 'r, 'm, 'b, 'd, 'o, 'z) iceberg_lib_scheme"
    and s :: "('r, 'y) catalog_state_scheme"
  assumes law: "storage_law L" and res: "all_resolve L (map_of (current_pointers s)) (remote s)"
    and name: "plain_name L n"
    and load: "load_table L (IdStr n) s = (Inr t :: 'b exn + _, s)"
    and plan: "\<And>r pl r'. operation r = (Inr pl, r') \<Longrightarrow>
        (case pl of None \<Rightarrow> f (rows (table_metadata t)) = rows (table_metadata t)
         | Some (rqs, ups) \<Rightarrow> \<forall>loc m. update_table_metadata L (table_metadata t) ups loc = Inr m \<longrightarrow>
             rows m = f (rows (table_metadata t)))"
    and files: "\<And>r pl r'. operation r = (pl, r') \<Longrightarrow> same_refs L r r' \<and> read_metadata L r' = read_metadata L r"
    and run: "hand_back L t operation s = (Inr u :: 'b exn + unit, s')"
  shows "map_option (\<lambda>R. (catalog_rows L rows s)(n \<mapsto> f R)) (catalog_rows L rows s n) = Some (catalog_rows L rows s')"
    and "all_resolve L (map_of (current_pointers s')) (remote s')"
proof -
  from load_table_InrD [OF load] name obtain l where l: "map_of (current_pointers s) n = Some l"
    and m: "read_metadata L (remote s) l = Inr (table_metadata t)" and id: "table_identifier t = [n]"
    by (auto simp: plain_name_def)
  obtain pl r1 where op: "operation (remote s) = (pl, r1)" by fastforce
  let ?s1 = "s\<lparr>remote := r1\<rparr>"
  have rd: "read_metadata L r1 = read_metadata L (remote s)" using files [OF op] by simp
  have cp: "current_pointers ?s1 = current_pointers s" by (simp add: current_pointers_def)
  have res1: "all_resolve L (map_of (current_pointers ?s1)) (remote ?s1)"
    using res by (simp add: all_resolve_def rd cp)
  have c1: "catalog_rows L rows ?s1 = catalog_rows L rows s"
    by (simp add: cp table_rows_same_read [OF rd])
  have cn: "catalog_rows L rows s n = Some (rows (table_metadata t))"
    by (simp add: table_rows_def l m)
  consider "pl = Inr None" "s' = ?s1"
    | rqs ups m' l' where "pl = Inr (Some (rqs, ups))"
        "commit_table L t rqs ups ?s1 = (Inr (m', l') :: 'b exn + _, s')"
    using run op by (auto simp: hand_back_def elim!: pbind_InrE split: sum.splits option.splits)
  then have "catalog_rows L rows s' = (catalog_rows L rows s)(n \<mapsto> f (rows (table_metadata t)))
    \<and> all_resolve L (map_of (current_pointers s')) (remote s')"
  proof cases
    case 1
    with plan op have "f (rows (table_metadata t)) = rows (table_metadata t)" by fastforce
    then show ?thesis using 1(2) c1 cn res1 by (simp add: map_upd_triv)
  next
    case 2
    have tn: "table_name_from L (IdTuple (table_identifier t)) = n"
      using name id by (simp add: plain_name_def)
    have l1: "map_of (current_pointers ?s1) n = Some l" using l cp by simp
    have m1: "read_metadata L (remote ?s1) l = Inr (table_metadata t)" using m rd by simp
    note c = commit_table_rows [OF law res1 tn l1 m1 2(2)]
    have "rows m' = f (rows (table_metadata t))"
      using plan op 2(1) c(1) by fastforce
    then show ?thesis using c(2) [where rows = rows] c(3) c1 by simp
  qed
  with cn show "map_option (\<lambda>R. (catalog_rows L rows s)(n \<mapsto> f R)) (catalog_rows L rows s n) = Some (catalog_rows L rows s')"
    and "all_resolve L (map_of (current_pointers s')) (remote s')" by simp_all
qed

text \<open>Loading a table whose pointer resolves.\<close>

lemma load_plain:
  fixes L :: "('s, 'f, 'r, 'm, 'b, 'd, 'o, 'z) iceberg_lib_scheme"
    and s :: "('r, 'y) catalog_state_scheme"
  assumes res: "all_resolve L (map_of (current_pointers s)) (remote s)" and name: "plain_name L n"
  shows "case catalog_rows L rows s n of
      None \<Rightarrow> load_table L (IdStr n) s = (Inl (NoSuchTableError n) :: 'b exn + _, s)
    | Some R \<Rightarrow> \<exists>t. load_table L (IdStr n) s = (Inr t :: 'b exn + _, s) \<and> rows (table_metadata t) = R"
proof (cases "map_of (current_pointers s) n")
  case None
  with name show ?thesis
    by (simp add: table_rows_def load_table_def resolve_def plain_name_def Let_def pbind_run)
next
  case (Some l)
  with all_resolveD [OF res] obtain m where m: "read_metadata L (remote s) l = Inr m" by blast
  with Some name show ?thesis
    using load_table_staged [of s L "IdStr n" l m] by (simp add: table_rows_def plain_name_def)
qed

lemmas rows_lawD =
  rows_law_def [THEN iffD1, THEN conjunct1, rule_format]
  rows_law_def [THEN iffD1, THEN conjunct2, THEN conjunct1, rule_format]
  rows_law_def [THEN iffD1, THEN conjunct2, THEN conjunct2, THEN conjunct1, rule_format]
  rows_law_def [THEN iffD1, THEN conjunct2, THEN conjunct2, THEN conjunct2, rule_format]

lemma row_operation_rows:
  fixes L :: "('s, 'f, 'r, 'm, 'b, 'd, 'o, 'z) iceberg_lib_scheme"
    and s :: "('r, 'y) catalog_state_scheme"
  assumes law: "storage_law L" and res: "all_resolve L (map_of (current_pointers s)) (remote s)"
    and name: "plain_name L n"
    and plan: "\<And>t r pl r'. operation t r = (Inr pl, r') \<Longrightarrow>
        (case pl of None \<Rightarrow> f (rows (table_metadata t)) = rows (table_metadata t)
         | Some (rqs, ups) \<Rightarrow> \<forall>loc m. update_table_metadata L (table_metadata t) ups loc = Inr m \<longrightarrow>
             rows m = f (rows (table_metadata t)))"
    and files: "\<And>t r pl r'. operation t r = (pl, r')
        \<Longrightarrow> same_refs L r r' \<and> read_metadata L r' = read_metadata L r"
    and run: "pbind (load_table L (IdStr n)) (\<lambda>t. hand_back L t (operation t)) s = (Inr u :: 'b exn + unit, s')"
  shows "map_option (\<lambda>R. (catalog_rows L rows s)(n \<mapsto> f R)) (catalog_rows L rows s n) = Some (catalog_rows L rows s')"
    and "all_resolve L (map_of (current_pointers s')) (remote s')"
proof -
  obtain t where t: "load_table L (IdStr n) s = (Inr t :: 'b exn + _, s)"
    and hb: "hand_back L t (operation t) s = (Inr u :: 'b exn + unit, s')"
    using run by (auto elim!: pbind_InrE dest: load_table_InrD)
  note h = hand_back_rows [where f = f and rows = rows and operation = "operation t", OF law res name t plan files hb]
  show "map_option (\<lambda>R. (catalog_rows L rows s)(n \<mapsto> f R)) (catalog_rows L rows s n) = Some (catalog_rows L rows s')"
    by (rule h(1))
  show "all_resolve L (map_of (current_pointers s')) (remote s')" by (rule h(2))
qed

lemma create_intent_rows:
  fixes L :: "('s, 'f, 'r, 'm, 'b, 'd, 'o, 'z) iceberg_lib_scheme"
    and s :: "('r, 'y) catalog_state_scheme"
  assumes law: "storage_law L" and rows: "rows_law L rows dat sat"
    and res: "all_resolve L (map_of (current_pointers s)) (remote s)" and name: "plain_name L n"
    and run: "intent_apply L (CreateTable n sc loc pr ps so) s = (Inr u :: 'b exn + unit, s')"
  shows "row_step dat sat (CreateTable n sc loc pr ps so :: ('d, 'b, 'o) intent) (catalog_rows L rows s)
      = Some (catalog_rows L rows s')"
    and "all_resolve L (map_of (current_pointers s')) (remote s')"
proof -
  have "row_step dat sat (CreateTable n sc loc pr ps so :: ('d, 'b, 'o) intent) (catalog_rows L rows s)
      = Some (catalog_rows L rows s')
    \<and> all_resolve L (map_of (current_pointers s')) (remote s')"
  proof (cases "map_of (current_pointers s) n")
    case None
    with run name have "pbind (create_table L (IdStr n) sc (Some loc) ps so pr) (\<lambda>_. pret ()) s
        = (Inr u :: 'b exn + unit, s')"
      by (simp add: table_exists_def plain_name_def domIff)
    then obtain t where
      c: "create_table L (IdStr n) sc (Some loc) ps so pr s = (Inr t :: 'b exn + _, s')"
      by (auto elim!: pbind_InrE)
    from create_table_InrD [OF c] name obtain sc' m l where
      new: "new_table_metadata L sc' ps so (table_location_arg (Some loc) n s)
             (dict_merge SAFETY_PROPERTIES pr) = Inr m"
      and w: "write_and_stage L n 0 m s = (Inr l :: 'b exn + string, s')"
      by (auto simp: plain_name_def)
    have "catalog_rows L rows s n = None" by (simp add: table_rows_def None)
    moreover have "rows m = {#}" using rows_lawD(1) [OF rows new] .
    ultimately show ?thesis using write_and_stage_rows(1) [OF law res w, where rows = rows]
      write_and_stage_rows(2) [OF law res w] by simp
  next
    case (Some l)
    with run name have "s' = s"
      by (simp add: table_exists_def plain_name_def domIff)
    with Some res show ?thesis
      by (simp add: table_rows_None_iff [OF res] map_upd_triv)
  qed
  then show "row_step dat sat (CreateTable n sc loc pr ps so :: ('d, 'b, 'o) intent) (catalog_rows L rows s)
      = Some (catalog_rows L rows s')"
    and "all_resolve L (map_of (current_pointers s')) (remote s')" by blast+
qed

lemma intent_rows:
  fixes L :: "('s, 'f, 'r, 'm, 'b, 'd, 'o, 'z) iceberg_lib_scheme"
    and s :: "('r, 'y) catalog_state_scheme"
  assumes law: "storage_law L" and rows: "rows_law L rows dat sat"
    and res: "all_resolve L (map_of (current_pointers s)) (remote s)"
    and name: "plain_name L (intent_name i)"
    and run: "intent_apply L i s = (Inr u :: 'b exn + unit, s')"
  shows "row_step dat sat i (catalog_rows L rows s) = Some (catalog_rows L rows s')
    \<and> all_resolve L (map_of (current_pointers s')) (remote s')"
proof (cases i)
  case (CreateTable n sc loc pr ps so)
  with name run show ?thesis using create_intent_rows [OF law rows res] by simp
next
  case (AppendRows n d)
  have n: "plain_name L n" using name AppendRows by simp
  have "pbind (load_table L (IdStr n)) (\<lambda>t. hand_back L t (\<lambda>r. append_rows L r t d)) s
      = (Inr u :: 'b exn + unit, s')" using run AppendRows by simp
  note this = row_operation_rows [where f = "\<lambda>R. R + dat d" and rows = rows and
      operation = "\<lambda>t r. append_rows L r t d",
      OF law res n rows_lawD(2) [OF rows] storage_data_files(1) [OF law] this]
  then show ?thesis using AppendRows by simp
next
  case (DeleteRows n p)
  have n: "plain_name L n" using name DeleteRows by simp
  have "pbind (load_table L (IdStr n)) (\<lambda>t. hand_back L t (\<lambda>r. delete_rows L r t p)) s
      = (Inr u :: 'b exn + unit, s')" using run DeleteRows by simp
  note this = row_operation_rows [where f = "filter_mset (\<lambda>x. \<not> sat p x)" and rows = rows and
      operation = "\<lambda>t r. delete_rows L r t p",
      OF law res n rows_lawD(3) [OF rows] storage_data_files(2) [OF law] this]
  then show ?thesis using DeleteRows by simp
next
  case (OverwriteRows n d p)
  have n: "plain_name L n" using name OverwriteRows by simp
  have "pbind (load_table L (IdStr n)) (\<lambda>t. hand_back L t (\<lambda>r. overwrite_rows L r t d p)) s
      = (Inr u :: 'b exn + unit, s')" using run OverwriteRows by simp
  note this = row_operation_rows [where f = "\<lambda>R. filter_mset (\<lambda>x. \<not> sat p x) R + dat d" and rows = rows
      and operation = "\<lambda>t r. overwrite_rows L r t d p",
      OF law res n rows_lawD(4) [OF rows] storage_data_files(3) [OF law] this]
  then show ?thesis using OverwriteRows by simp
qed

lemma intents_rows:
  fixes L :: "('s, 'f, 'r, 'm, 'b, 'd, 'o, 'z) iceberg_lib_scheme"
    and s :: "('r, 'y) catalog_state_scheme"
  assumes law: "storage_law L" and rows: "rows_law L rows dat sat"
    and res: "all_resolve L (map_of (current_pointers s)) (remote s)"
    and names: "\<And>i. i \<in> set is \<Longrightarrow> plain_name L (intent_name i)"
    and run: "for_each (intent_apply L) is s = (Inr u :: 'b exn + unit, s')"
  shows "row_run dat sat is (catalog_rows L rows s) = Some (catalog_rows L rows s')
    \<and> all_resolve L (map_of (current_pointers s')) (remote s')"
  using res names run
proof (induction "is" arbitrary: s)
  case (Cons i rest)
  from Cons.prems(3) obtain s1 where one: "intent_apply L i s = (Inr () :: 'b exn + unit, s1)"
    and more: "for_each (intent_apply L) rest s1 = (Inr u :: 'b exn + unit, s')"
    by (auto elim!: pthen_InrE)
  have "plain_name L (intent_name i)" using Cons.prems(2) by simp
  from intent_rows [OF law rows Cons.prems(1) this one]
  have "row_step dat sat i (catalog_rows L rows s) = Some (catalog_rows L rows s1)"
    and res1: "all_resolve L (map_of (current_pointers s1)) (remote s1)" by blast+
  moreover have "row_run dat sat rest (catalog_rows L rows s1) = Some (catalog_rows L rows s')
    \<and> all_resolve L (map_of (current_pointers s')) (remote s')"
    using Cons.prems(2) by (intro Cons.IH [OF res1 _ more]) simp
  ultimately show ?case by simp
qed simp

text \<open>
  C20. Applying a transaction's intents, when it goes through, takes the rows its catalog shows to
  what running the intents as plain updates of named multisets of rows gives: creations leave
  existing tables alone, appends add, deletes filter, overwrites filter and then add, in the
  order they were staged, and no other table changes.
\<close>

theorem intents_refine_rows:
  fixes L :: "('s, 'f, 'r, 'm, 'b, 'd, 'o, 'z) iceberg_lib_scheme"
  assumes "storage_law L" and "rows_law L rows dat sat"
    and "all_resolve L (map_of (current_pointers s)) (remote s)"
    and "\<And>i. i \<in> set (intents s) \<Longrightarrow> plain_name L (intent_name i)"
    and run: "apply_intents L s = (Inr (), s')"
  shows "row_run dat sat (intents s) (catalog_rows L rows s) = Some (catalog_rows L rows s')
    \<and> all_resolve L (map_of (current_pointers s')) (remote s')"
  using assms by (intro intents_rows) (simp_all add: apply_intents_def)

text \<open>
  Row operations on a table that does not exist are refused: when the specification has no
  result for an intent, applying it raises \<open>NoSuchTableError\<close> for that table and changes nothing.
\<close>

lemma missing_table_refused:
  fixes L :: "('s, 'f, 'r, 'm, 'b, 'd, 'o, 'z) iceberg_lib_scheme"
    and s :: "('r, 'y) catalog_state_scheme"
  assumes res: "all_resolve L (map_of (current_pointers s)) (remote s)"
    and name: "plain_name L (intent_name i)"
    and none: "row_step dat sat i (catalog_rows L rows s) = None"
  shows "intent_apply L i s = (Inl (NoSuchTableError (intent_name i)) :: 'b exn + unit, s)"
proof -
  have "catalog_rows L rows s (intent_name i) = None" and "\<not> is_CreateTable i"
    using none by (cases i; simp)+
  moreover from this(1) load_plain [OF res name, where rows = rows]
  have "load_table L (IdStr (intent_name i)) s = (Inl (NoSuchTableError (intent_name i)) :: 'b exn + _, s)"
    by simp
  ultimately show ?thesis by (cases i) simp_all
qed

subsection \<open>The commit implements the specification\<close>

lemma unpublished_store_ok:
  assumes "\<And>n r. store_ok L r \<Longrightarrow> store_ok L (others L n r)" and "store_ok L r" and "unpublished L r r'"
  shows "store_ok L r'"
  using assms(3)
proof (induction rule: rtranclp_induct)
  case (step y z)
  from step(2) show ?case
  proof
    assume "same_refs L y z" "keeps_history L y z"
    with step(3) show ?case by (auto simp: keeps_history_def intro: store_ok_grows)
  next
    fix n assume "z = others L n y"
    with step(3) assms(1) show ?case by simp
  qed
qed (rule assms(2))

text \<open>
  What a commit publishes is its parent's rows with the intents run on them: first for the pass
  that published, then for the whole commit.
\<close>

lemma replay_rows:
  assumes laws: "world_laws L" and rows: "rows_law L rows dat sat"
    and s0: "synced L s0" "staged s0 = []" "store_ok L (remote s0)"
    and plain: "\<And>x. x \<in> set (intents s0) \<Longrightarrow> plain_name L (intent_name x)"
    and ap: "apply_intents L s0 = (Inr (), s1)"
    and pub: "published L b i (current_pointers s1) (remote (let_others L s1)) (remote s')"
  shows "row_run dat sat (intents s0) (snapshot_rows L rows (remote (let_others L s1)) (session_base L (session s0)))
    = Some (snapshot_rows L rows (remote s') i)"
proof -
  let ?r = "remote (let_others L s1)" and ?j = "session_base L (session s0)"
  have law: "storage_law L" using laws by (simp add: world_laws_def)
  have f1: "catalog_frame L s0 s1" by (rule keepsD [OF apply_intents_frame [OF laws] ap])
  have q: "quiet_frame L s0 (let_others L s1)"
    using catalog_frame_quiet [OF f1] let_others_quiet [OF laws] by (rule quiet.trans)
  have cp0: "current_pointers s0 = pointers s0" by (simp add: current_pointers_def s0(2))
  have p0: "pointers_at L (remote s0) ?j = Some (pointers s0)" using s0(1) by (simp add: synced_def)
  have res0: "all_resolve L (map_of (current_pointers s0)) (remote s0)"
    unfolding all_resolve_def cp0 using store_okD [OF s0(3) p0] by blast
  have steps: "row_run dat sat (intents s0) (catalog_rows L rows s0) = Some (catalog_rows L rows s1)"
    and res1: "all_resolve L (map_of (current_pointers s1)) (remote s1)"
    using intents_rows [OF law rows res0, of "intents s0" "()" s1] plain ap
    by (simp_all add: apply_intents_def)
  have "keeps_history L (remote s0) ?r" using q by (simp add: quiet_frame_def)
  then have "snapshot_rows L rows ?r ?j = catalog_rows L rows s0"
    using pointers_at_keeps [OF _ p0] table_rows_keeps [OF res0]
    by (simp add: snapshot_rows_def cp0)
  moreover have "keeps_history L (remote s1) (remote s')"
    using let_others_quiet [OF laws, of s1] published_history [OF pub]
    by (auto simp: quiet_frame_def intro: keeps_history_trans)
  then have "snapshot_rows L rows (remote s') i = catalog_rows L rows s1"
    using table_rows_keeps [OF res1] by (simp add: snapshot_rows_def published_pointers [OF pub])
  ultimately show ?thesis using steps by simp
qed

lemma commit_rows:
  assumes laws: "world_laws L" and rows: "rows_law L rows dat sat"
    and others: "\<And>n r. store_ok L r \<Longrightarrow> store_ok L (others L n r)"
    and start: "store_ok L (remote s)" "synced L s" "staged s = []"
    and pause: "no_writer_between L (branch s) (clock s)"
    and plain: "\<And>x. x \<in> set (intents s) \<Longrightarrow> plain_name L (intent_name x)"
    and run: "commit L s = (Inr i, s')"
  shows "\<exists>r j. unpublished L (remote s) r \<and> lookup_branch L r (branch s) = Inr j
    \<and> row_run dat sat (intents s) (snapshot_rows L rows r j) = Some (snapshot_rows L rows (remote s') i)
    \<and> lookup_branch L (remote s') (branch s) = Inr i"
proof -
  obtain s0 s1 where frames: "quiet_frame L s s0" "config_frame L s s0"
    and s0: "synced L s0" "staged s0 = []"
    and ap: "apply_intents L s0 = (Inr (), s1)"
    and pub: "published L (branch s) i (current_pointers s1) (remote (let_others L s1)) (remote s')"
    and tip: "lookup_branch L (remote (let_others L s1)) (branch s) = Inr (session_base L (session s0))"
    by (rule commit_replay [OF laws start(2,3) pause run])
  have int: "intents s0 = intents s" using frames(2) by (simp add: config_frame_def)
  have "store_ok L (remote s0)"
    using frames(1) unpublished_store_ok [OF others start(1)] by (simp add: quiet_frame_def)
  from replay_rows [OF laws rows s0 this _ ap pub] plain
  have "row_run dat sat (intents s) (snapshot_rows L rows (remote (let_others L s1)) (session_base L (session s0)))
      = Some (snapshot_rows L rows (remote s') i)" by (simp add: int)
  moreover have "catalog_frame L s0 s1" by (rule keepsD [OF apply_intents_frame [OF laws] ap])
  from catalog_frame_quiet [OF this] let_others_quiet [OF laws] have "quiet_frame L s0 (let_others L s1)"
    by (rule quiet.trans)
  with frames(1) have "unpublished L (remote s) (remote (let_others L s1))" by (auto simp: quiet_frame_def)
  ultimately show ?thesis using tip pub by (auto simp: published_def)
qed

end
