(* ===== verification/Lifecycle.thy ===== *)
theory Lifecycle
  imports Rows
begin

text \<open>
  A transaction from \<open>__init__\<close> to \<open>commit\<close>: what holds of it whatever the caller stages, in
  whatever order, and however many of the calls raise. \<open>tx_ready\<close> is the set of states a
  transaction can be in before it commits; the invariants are by induction over it, and they are
  the hypotheses that the theorems about \<open>commit\<close> make about the state it starts in.
\<close>

subsection \<open>Reachable transactions\<close>

text \<open>
  \<open>array_work\<close> is whatever the caller does with the Zarr group: any change of the session that
  leaves its branch and base alone.
\<close>

inductive tx_ready ::
    "('s, 'f :: zero, 'r, 'm, 'b, 'd, 'o, 'z) iceberg_lib_scheme
     \<Rightarrow> ('r, 's, 'd, 'b, 'o) transaction \<Rightarrow> bool" for L where
  opened: "tx_init L conf b msg n given (p :: 'r process) = (Inr s, p') \<Longrightarrow> tx_ready L s"
| created: "tx_ready L s \<Longrightarrow> tx_create_table L n sc loc pr ps so s = (res, s') \<Longrightarrow> tx_ready L s'"
| appended: "tx_ready L s \<Longrightarrow> tx_append n d s = (res :: 'b exn + unit, s') \<Longrightarrow> tx_ready L s'"
| deleted: "tx_ready L s \<Longrightarrow> tx_delete L n q s = (res, s') \<Longrightarrow> tx_ready L s'"
| overwritten: "tx_ready L s \<Longrightarrow> tx_overwrite L n d q s = (res, s') \<Longrightarrow> tx_ready L s'"
| array_work: "tx_ready L s \<Longrightarrow> session_branch L sess = session_branch L (session s)
    \<Longrightarrow> session_base L sess = session_base L (session s) \<Longrightarrow> tx_ready L (s\<lparr>session := sess\<rparr>)"

text \<open>What a staging operation leaves alone.\<close>

definition stage_frame_of ::
    "('s, 'f, 'r, 'm, 'b, 'd, 'o, 'z) iceberg_lib_scheme
     \<Rightarrow> ('r, 's, 'd, 'b, 'o) transaction \<Rightarrow> ('r, 's, 'd, 'b, 'o) transaction \<Rightarrow> bool" where
  "stage_frame_of L s s' \<longleftrightarrow>
     remote s' = remote s \<and> clock s' = clock s \<and> draws s' = draws s
     \<and> pointers s' = pointers s \<and> staged s' = staged s \<and> read_only s' = read_only s
     \<and> branch s' = branch s \<and> max_retries s' = max_retries s
     \<and> session_branch L (session s') = session_branch L (session s)
     \<and> session_base L (session s') = session_base L (session s)"

interpretation staging: step_frame
    "stage_frame_of L :: ('r, 's, 'd, 'b, 'o) transaction \<Rightarrow> ('r, 's, 'd, 'b, 'o) transaction \<Rightarrow> bool"
    for L :: "('s, 'f, 'r, 'm, 'b, 'd, 'o, 'z) iceberg_lib_scheme"
  by unfold_locales (auto simp: stage_frame_of_def)

lemma on_session_frame:
  assumes "\<And>sess r sess'. m sess = (r, sess') \<Longrightarrow>
     session_branch L sess' = session_branch L sess \<and> session_base L sess' = session_base L sess"
  shows "keeps (stage_frame_of L) (on_session m)"
  by (rule keepsI) (auto simp: on_session_def stage_frame_of_def dest: assms split: prod.splits)

lemma declare_session:
  fixes L :: "('s, 'f :: zero, 'r, 'z) icechunk_lib_scheme"
  assumes "zarr_law L" and "declare_tables L bs sess = (r :: 'b exn + unit, sess')"
  shows "session_branch L sess' = session_branch L sess \<and> session_base L sess' = session_base L sess"
  using assms
  by (auto simp: declare_tables_def pbind_run zarr_law_def split: sum.splits prod.splits if_splits)

lemma add_intent_frame: "stage_frame_of L s (add_intent i s)"
  by (simp add: stage_frame_of_def add_intent_def)

lemma tx_group_frame: "zarr_law L \<Longrightarrow> keeps (stage_frame_of L) (tx_group L)"
  unfolding tx_group_def
  by (rule on_session_frame) (auto simp: zarr_law_def split: prod.splits)

lemma tx_create_table_frame:
  "zarr_law L \<Longrightarrow> keeps (stage_frame_of L) (tx_create_table L n sc loc pr ps so)"
  unfolding tx_create_table_def
  by (intro staging.steps tx_group_frame on_session_frame add_intent_frame declare_session) assumption+

lemma tx_append_frame: "keeps (stage_frame_of L) (tx_append n d)"
  unfolding tx_append_def by (intro staging.steps add_intent_frame)

lemma capture_frame:
  fixes L :: "('s, 'f, 'r, 'm, 'b, 'd, 'o, 'z) iceberg_lib_scheme"
  shows "keeps (stage_frame_of L) (capture_base_snapshot L n :: (('r, 's, 'd, 'b, 'o) transaction, _, _) pgm)"
proof (rule keepsI)
  fix s s' :: "('r, 's, 'd, 'b, 'o) transaction" and r
  assume run: "capture_base_snapshot L n s = (r, s')"
  obtain res s1 where load: "load_table L (IdStr n) s = (res :: 'b exn + _, s1)" by fastforce
  then have "s1 = s" by (metis load_table_state snd_conv)
  with run load show "stage_frame_of L s s'"
    by (auto simp: capture_base_snapshot_def pbind_run stage_frame_of_def split: if_splits sum.splits)
qed

lemma tx_delete_frame: "keeps (stage_frame_of L) (tx_delete L n q)"
  unfolding tx_delete_def by (intro staging.steps capture_frame add_intent_frame)

lemma tx_overwrite_frame: "keeps (stage_frame_of L) (tx_overwrite L n d q)"
  unfolding tx_overwrite_def by (intro staging.steps capture_frame add_intent_frame)

lemma synced_staging:
  "synced L s \<Longrightarrow> stage_frame_of L s s' \<Longrightarrow> synced L s' \<and> staged s' = staged s"
  by (simp add: synced_def stage_frame_of_def)

text \<open>Every state a transaction can commit from satisfies the starting hypotheses.\<close>

lemma tx_ready_invariant:
  assumes laws: "session_law L" "zarr_law L" and "tx_ready L s"
  shows "synced L s \<and> staged s = [] \<and> \<not> read_only s"
  using assms(3)
proof induction
  case (opened conf b msg n given p s p')
  then have "\<not> read_only s"
    by (auto simp: tx_init_def tx_of_def catalog_for_def catalog_init_def catalog_state.defs
        elim!: pbind_InrE)
  with tx_init_synced(1,2) [OF laws(1) opened] show ?case by simp
next
  case (created s n sc loc pr ps so res s')
  with synced_staging keepsD [OF tx_create_table_frame [OF laws(2)]] show ?case
    by (fastforce simp: stage_frame_of_def)
next
  case (appended s n d res s')
  with synced_staging keepsD [OF tx_append_frame] show ?case
    by (fastforce simp: stage_frame_of_def)
next
  case (deleted s n q res s')
  with synced_staging keepsD [OF tx_delete_frame] show ?case
    by (fastforce simp: stage_frame_of_def)
next
  case (overwritten s n d q res s')
  with synced_staging keepsD [OF tx_overwrite_frame] show ?case
    by (fastforce simp: stage_frame_of_def)
next
  case (array_work s sess)
  then show ?case by (simp add: synced_def)
qed

subsection \<open>Validation windows\<close>

definition removes :: "('d, 'b, 'o) intent \<Rightarrow> bool" where
  "removes x \<longleftrightarrow> (case x of DeleteRows _ _ \<Rightarrow> True | OverwriteRows _ _ _ \<Rightarrow> True | _ \<Rightarrow> False)"

text \<open>\<open>b\<close> is the Iceberg snapshot of table \<open>n\<close> in the version the catalog was opened at.\<close>

definition anchored ::
    "('s, 'f, 'r, 'm, 'b, 'd, 'o, 'z) iceberg_lib_scheme
     \<Rightarrow> ('r, 's, 'd, 'b, 'o) transaction \<Rightarrow> string \<Rightarrow> int option \<Rightarrow> bool" where
  "anchored L s n b \<longleftrightarrow>
     (case map_of (pointers s) n of
        None \<Rightarrow> b = None
      | Some l \<Rightarrow> (\<exists>m. read_metadata L (remote s) l = Inr m \<and> b = current_snapshot_id L m))"

lemma anchored_updates [simp]:
  "anchored L (s\<lparr>intents := is\<rparr>) = anchored L s"
  "anchored L (s\<lparr>session := sess\<rparr>) = anchored L s"
  "anchored L (s\<lparr>base_snapshots := bs\<rparr>) = anchored L s"
  by (simp_all add: anchored_def fun_eq_iff cong: option.case_cong)

definition windows_ok ::
    "('s, 'f, 'r, 'm, 'b, 'd, 'o, 'z) iceberg_lib_scheme
     \<Rightarrow> ('r, 's, 'd, 'b, 'o) transaction \<Rightarrow> bool" where
  "windows_ok L s \<longleftrightarrow>
     staged s = []
     \<and> (\<forall>n b. map_of (base_snapshots s) n = Some b \<longrightarrow> plain_name L n \<longrightarrow> anchored L s n b)
     \<and> (\<forall>x \<in> set (intents s). removes x \<longrightarrow> intent_name x \<in> dom (map_of (base_snapshots s)))"

definition keeps_windows ::
    "('s, 'f, 'r, 'm, 'b, 'd, 'o, 'z) iceberg_lib_scheme
     \<Rightarrow> ('r, 's, 'd, 'b, 'o) transaction \<Rightarrow> ('r, 's, 'd, 'b, 'o) transaction \<Rightarrow> bool" where
  "keeps_windows L s s' \<longleftrightarrow> (windows_ok L s \<longrightarrow> windows_ok L s')"

interpretation windows: step_frame
    "keeps_windows L :: ('r, 's, 'd, 'b, 'o) transaction \<Rightarrow> ('r, 's, 'd, 'b, 'o) transaction \<Rightarrow> bool"
    for L :: "('s, 'f, 'r, 'm, 'b, 'd, 'o, 'z) iceberg_lib_scheme"
  by unfold_locales (auto simp: keeps_windows_def)

lemma on_session_windows: "keeps (keeps_windows L) (on_session m)"
  by (rule keepsI)
    (auto simp: on_session_def keeps_windows_def windows_ok_def split: prod.splits)

lemma add_intent_windows:
  "\<not> removes i \<or> intent_name i \<in> dom (map_of (base_snapshots s)) \<Longrightarrow> keeps_windows L s (add_intent i s)"
  by (auto simp: keeps_windows_def windows_ok_def add_intent_def)

lemma tx_create_table_windows: "keeps (keeps_windows L) (tx_create_table L n sc loc pr ps so)"
  unfolding tx_create_table_def tx_group_def
  by (intro windows.steps on_session_windows add_intent_windows) (simp add: removes_def)

lemma tx_append_windows: "keeps (keeps_windows L) (tx_append n d)"
  unfolding tx_append_def by (intro windows.steps add_intent_windows) (simp add: removes_def)

text \<open>What capturing does: nothing, or it records the table's snapshot, \<open>None\<close> for a table without a pointer.\<close>

lemma capture_cases:
  fixes L :: "('s, 'f, 'r, 'm, 'b, 'd, 'o, 'z) iceberg_lib_scheme"
    and s :: "('r, 's, 'd, 'b, 'o) transaction" and res :: "'b exn + unit"
  assumes run: "capture_base_snapshot L n s = (res, s')"
  obtains (kept) "s' = s" and "\<And>u. res = Inr u \<Longrightarrow> n \<in> dom (map_of (base_snapshots s))"
    | (absent) "map_of (pointers s) n = None"
      and "s' = s\<lparr>base_snapshots := dict_set n None (base_snapshots s)\<rparr>"
    | (loaded) t l where "load_table L (IdStr n) s = (Inr t :: 'b exn + _, s)" and "map_of (pointers s) n = Some l"
      and "s' = s\<lparr>base_snapshots := dict_set n (current_snapshot_id L (table_metadata t)) (base_snapshots s)\<rparr>"
proof -
  obtain lr s1 where load: "load_table L (IdStr n) s = (lr :: 'b exn + _, s1)" by fastforce
  then have s1: "s1 = s" by (metis load_table_state snd_conv)
  consider "dict_has (base_snapshots s) n" | "\<not> dict_has (base_snapshots s) n" "map_of (pointers s) n = None"
    | l where "\<not> dict_has (base_snapshots s) n" "map_of (pointers s) n = Some l" by fastforce
  then show thesis
  proof cases
    case 1
    with run show thesis by (intro kept) (auto simp: capture_base_snapshot_def)
  next
    case 2
    with run show thesis by (intro absent) (simp_all add: capture_base_snapshot_def domIff)
  next
    case 3
    with run load s1 show thesis
      by (cases lr) (auto simp: capture_base_snapshot_def domIff intro: kept loaded)
  qed
qed

lemma capture_windows:
  fixes L :: "('s, 'f, 'r, 'm, 'b, 'd, 'o, 'z) iceberg_lib_scheme"
    and s :: "('r, 's, 'd, 'b, 'o) transaction"
  assumes ok: "windows_ok L s" and run: "capture_base_snapshot L n s = (res, s')"
  shows "windows_ok L s'" and "res = Inr u \<Longrightarrow> n \<in> dom (map_of (base_snapshots s'))"
proof -
  let ?set = "\<lambda>b. s\<lparr>base_snapshots := dict_set n b (base_snapshots s)\<rparr>"
  have cp: "current_pointers s = pointers s" using ok by (simp add: windows_ok_def current_pointers_def)
  have add: "windows_ok L (?set b)" if "plain_name L n \<Longrightarrow> anchored L s n b" for b
    using ok that by (auto simp: windows_ok_def split: if_splits)
  have "windows_ok L s' \<and> (res = Inr u \<longrightarrow> n \<in> dom (map_of (base_snapshots s')))"
    using run
  proof (cases rule: capture_cases)
    case kept
    with ok show ?thesis by auto
  next
    case absent
    with add [of None] show ?thesis by (simp add: anchored_def)
  next
    case (loaded t l)
    have "anchored L s n (current_snapshot_id L (table_metadata t))" if "plain_name L n"
      using load_table_InrD [OF loaded(1)] loaded(2) that by (auto simp: anchored_def cp plain_name_def)
    with add loaded show ?thesis by simp
  qed
  then show "windows_ok L s'" and "res = Inr u \<Longrightarrow> n \<in> dom (map_of (base_snapshots s'))" by simp_all
qed

lemma capture_then_windows:
  fixes L :: "('s, 'f, 'r, 'm, 'b, 'd, 'o, 'z) iceberg_lib_scheme"
  assumes "intent_name x = n"
  shows "keeps (keeps_windows L)
    (pthen (capture_base_snapshot L n) (pmodify (add_intent x)) :: (('r, 's, 'd, 'b, 'o) transaction, _, _) pgm)"
proof (rule keepsI)
  fix s s' :: "('r, 's, 'd, 'b, 'o) transaction" and r
  assume run: "pthen (capture_base_snapshot L n) (pmodify (add_intent x)) s = (r, s')"
  obtain res s1 where c: "capture_base_snapshot L n s = (res, s1)" by fastforce
  show "keeps_windows L s s'"
    unfolding keeps_windows_def
  proof
    assume ok: "windows_ok L s"
    note w = capture_windows [OF ok c]
    show "windows_ok L s'"
    proof (cases res)
      case (Inl e)
      with run c w(1) show ?thesis by simp
    next
      case (Inr u)
      with run c w add_intent_windows [of x s1 L] assms show ?thesis
        by (simp add: keeps_windows_def)
    qed
  qed
qed

lemma tx_removal_windows:
  "keeps (keeps_windows L) (tx_delete L n q)" "keeps (keeps_windows L) (tx_overwrite L n d q)"
  unfolding tx_delete_def tx_overwrite_def by (rule capture_then_windows; simp)+

text \<open>
  C19. A removal is planned against the version the transaction started from: whatever was staged,
  every delete and overwrite on the intent list has a base snapshot recorded, and it is the
  table's Iceberg snapshot at the transaction's base, or none where the base has no such table.
  A second removal of the same table does not move the base.
\<close>

theorem removal_window_anchored:
  assumes ready: "tx_ready L s" and x: "x \<in> set (intents s)" "removes x" "plain_name L (intent_name x)"
  shows "\<exists>b. map_of (base_snapshots s) (intent_name x) = Some b \<and> anchored L s (intent_name x) b"
proof -
  from ready have "windows_ok L s"
  proof induction
    case (opened conf b msg n given p s p')
    then show ?case
      by (auto simp: tx_init_def tx_of_def catalog_for_def catalog_init_def catalog_state.defs
          windows_ok_def elim!: pbind_InrE)
  next
    case (created s n sc loc pr ps so res s')
    with keepsD [OF tx_create_table_windows] show ?case by (fastforce simp: keeps_windows_def)
  next
    case (appended s n d res s')
    with keepsD [OF tx_append_windows] show ?case by (fastforce simp: keeps_windows_def)
  next
    case (deleted s n q res s')
    with keepsD [OF tx_removal_windows(1)] show ?case by (fastforce simp: keeps_windows_def)
  next
    case (overwritten s n d q res s')
    with keepsD [OF tx_removal_windows(2)] show ?case by (fastforce simp: keeps_windows_def)
  next
    case (array_work s sess)
    then show ?case by (simp add: windows_ok_def)
  qed
  with x show ?thesis by (auto simp: windows_ok_def)
qed

subsection \<open>Whole transactions\<close>

text \<open>
  C1. Transactions are serialisable. Take any transaction built through the API, let every pointer
  resolve, let the other writers keep it so, and let none land between a recovery's two calls. If
  \<open>commit\<close> returns snapshot \<open>i\<close>, after however many conflicts, then the rows that readers of \<open>i\<close>
  see are the rows of the snapshot \<open>j\<close> that the branch pointed at when the commit took effect,
  with the transaction's intents run on them in order, exactly once; and the branch now points
  at \<open>i\<close>.
\<close>

theorem commit_serialisable:
  assumes laws: "world_laws L" "zarr_law L" and rows: "rows_law L rows dat sat"
    and others: "\<And>n r. store_ok L r \<Longrightarrow> store_ok L (others L n r)"
    and start: "store_ok L (remote s)" "tx_ready L s"
    and pause: "no_writer_between L (branch s) (clock s)"
    and plain: "\<And>x. x \<in> set (intents s) \<Longrightarrow> plain_name L (intent_name x)"
    and run: "commit L s = (Inr i, s')"
  shows "\<exists>r j. unpublished L (remote s) r \<and> lookup_branch L r (branch s) = Inr j
    \<and> row_run dat sat (intents s) (snapshot_rows L rows r j) = Some (snapshot_rows L rows (remote s') i)
    \<and> lookup_branch L (remote s') (branch s) = Inr i"
proof -
  have "synced L s" and "staged s = []"
    using tx_ready_invariant [OF _ laws(2) start(2)] laws(1) by (simp_all add: world_laws_def)
  from commit_rows [OF laws(1) rows others start(1) this pause plain run] show ?thesis .
qed

text \<open>
  C7. No commit leaves a dangling pointer. If every pointer of every snapshot names a
  \<open>metadata.json\<close> that can be read, and the other writers keep it so, then this also holds after
  the \<open>commit\<close> of any transaction built through the API, whether it returned or raised, after
  however many retries, and even when another writer slips in between the two calls of a
  recovery.
\<close>

theorem commit_no_dangling:
  assumes laws: "world_laws L" "zarr_law L"
    and others: "\<And>n r. store_ok L r \<Longrightarrow> store_ok L (others L n r)"
    and start: "store_ok L (remote s)" "tx_ready L s" and run: "commit L s = (res, s')"
  shows "\<forall>i p n l. pointers_at L (remote s') i = Some p \<longrightarrow> map_of p n = Some l
    \<longrightarrow> (\<exists>m. read_metadata L (remote s') l = Inr m)"
proof -
  have "synced L s" and "staged s = []"
    using tx_ready_invariant [OF _ laws(2) start(2)] laws(1) by (simp_all add: world_laws_def)
  from commit_store_ok [OF laws(1) others start(1) this run] show ?thesis
    unfolding store_ok_def by blast
qed

end
