(* ===== verification/Guards.thy ===== *)
theory Guards
  imports Lifecycle
begin

text \<open>
  The guards of \<open>commit\<close>: how often it asks the repository, which exceptions it can raise, that it
  refuses rather than drop work it cannot replay, that a removal is only replayed over a window in
  which nobody added matching rows, and that a failed \<open>with\<close> block leaves nothing behind.
\<close>

subsection \<open>How many calls a commit makes\<close>

lemma call_lookup_branch_state:
  "snd (call_lookup_branch L b s :: ('b exn + _) \<times> _) = let_others L s"
  by (auto simp: call_lookup_branch_def pthen_run pbind_run split: sum.splits)

lemma read_tip_state:
  "snd (read_pointers_at_branch L b s :: ('b exn + _) \<times> _) = let_others L s"
proof -
  obtain r s1 where c: "call_lookup_branch L b s = (r :: 'b exn + string, s1)" by fastforce
  moreover have "snd (call_lookup_branch L b s :: ('b exn + string) \<times> _) = let_others L s"
    by (rule call_lookup_branch_state)
  ultimately have s1: "s1 = let_others L s" by simp
  show ?thesis
  proof (cases r)
    case (Inl e)
    with c s1 show ?thesis by (simp add: read_pointers_at_branch_def)
  next
    case (Inr i)
    with c s1 show ?thesis
      using read_pointers_state [of L i s1] by (simp add: read_pointers_at_branch_def)
  qed
qed

text \<open>A recovery either stops after reading the tip or goes on to the rebase.\<close>

lemma recover_cases:
  fixes L :: "('s, 'f, 'r, 'm, 'b, 'd, 'o, 'z) iceberg_lib_scheme"
  assumes run: "recover L s = (res, s')"
  obtains (stop) e where "res = Inl e" and "s' = let_others L s"
    | (rebase) tip where
      "read_pointers_at_branch L (branch s) s = (Inr tip :: 'b exn + _, let_others L s)"
      and "assert_staged_is_covered (let_others L s) = (Inr () :: 'b exn + unit, let_others L s)"
      and "validate_replayable L tip (let_others L s) = (Inr (), let_others L s)"
      and "call_session_rebase L (rebase_onto tip (let_others L s)) = (res, s')"
proof -
  let ?s1 = "let_others L s"
  obtain r s1 where rd: "read_pointers_at_branch L (branch s) s = (r :: 'b exn + _, s1)" by fastforce
  moreover have "snd (read_pointers_at_branch L (branch s) s :: ('b exn + _) \<times> _) = ?s1"
    by (rule read_tip_state)
  ultimately have s1: "s1 = ?s1" by simp
  show thesis
  proof (cases r)
    case (Inl e)
    with run rd s1 show thesis by (intro stop [of e]) (auto simp: recover_def)
  next
    case (Inr tip)
    obtain c s2 where cov: "assert_staged_is_covered ?s1 = (c :: 'b exn + unit, s2)" by fastforce
    then have s2: "s2 = ?s1" using assert_covered_state [of ?s1] by (metis snd_conv)
    show thesis
    proof (cases c)
      case (Inl e)
      with run rd s1 Inr cov s2 show thesis by (intro stop [of e]) (auto simp: recover_def)
    next
      case c: (Inr u)
      obtain v s3 where val: "validate_replayable L tip ?s1 = (v, s3)" by fastforce
      then have s3: "s3 = ?s1" using validate_replayable_state [of L tip ?s1] by simp
      show thesis
      proof (cases v)
        case (Inl e)
        with run rd s1 Inr cov s2 c val s3 show thesis by (intro stop [of e]) (auto simp: recover_def)
      next
        case (Inr w)
        with run rd s1 \<open>r = Inr tip\<close> cov s2 c val s3 show thesis
          by (intro rebase) (simp_all add: recover_def)
      qed
    qed
  qed
qed

lemma recover_clock: "recover L s = (res, s') \<Longrightarrow> clock s' \<le> clock s + 2"
  by (erule recover_cases)
    (auto simp: let_others_def call_session_rebase_def Let_def rebase_onto_def split: prod.splits)

lemma commit_attempt_clock:
  assumes laws: "world_laws L" and run: "commit_attempt L a s = (res, s')"
  shows "clock s' \<le> clock s + (if a = max_retries s then 1 else 3)"
proof -
  obtain r1 s1 where ap: "apply_intents L s = (r1, s1)" by fastforce
  have f: "catalog_frame L s s1" by (rule keepsD [OF apply_intents_frame [OF laws] ap])
  have c1: "clock s1 = clock s" and m1: "max_retries s1 = max_retries s"
    using catalog_frameD(7) [OF f] tx_more(5) [OF catalog_frameD(9) [OF f]] by simp_all
  obtain cres s2 where
    c: "call_session_commit L (commit_metadata (current_pointers s1)) (allow_empty L s1) s1 = (cres, s2)"
    by fastforce
  have c2: "clock s2 = Suc (clock s)" and m2: "max_retries s2 = max_retries s"
    using call_session_commit_config(1,4) [OF laws c] c1 m1 by (simp_all add: config_frame_def)
  have "clock s' = clock s \<or> clock s' = clock s2
    \<or> a \<noteq> max_retries s \<and> (\<exists>r. recover L s2 = (r, s'))"
    using run ap c c1 m2
    by (cases r1)
      (auto simp: commit_attempt_def pthen_run split: if_splits prod.splits commit_result.splits sum.splits)
  then show ?thesis using recover_clock [of L s2] c2 by auto
qed

lemma commit_attempt_last:
  assumes laws: "world_laws L" and "a = max_retries s" and run: "commit_attempt L a s = (res, s')"
  shows "res \<noteq> Inr None"
proof -
  obtain r1 s1 where ap: "apply_intents L s = (r1, s1)" by fastforce
  have f: "catalog_frame L s s1" by (rule keepsD [OF apply_intents_frame [OF laws] ap])
  obtain cres s2 where
    c: "call_session_commit L (commit_metadata (current_pointers s1)) (allow_empty L s1) s1 = (cres, s2)"
    by fastforce
  have "max_retries s2 = a"
    using call_session_commit_config(1) [OF laws c] tx_more(5) [OF catalog_frameD(9) [OF f]] assms(2)
    by (simp add: config_frame_def)
  then show ?thesis
    using run ap c
    by (cases r1)
      (auto simp: commit_attempt_def pthen_run split: if_splits prod.splits commit_result.splits sum.splits)
qed

lemma commit_loop_clock:
  assumes laws: "world_laws L"
  shows "commit_loop L [a..max_retries s] s = (res, s') \<Longrightarrow> a \<le> max_retries s
    \<Longrightarrow> clock s' \<le> clock s + 3 * nat (max_retries s - a) + 1"
proof (induction "nat (max_retries s - a)" arbitrary: a s)
  case 0
  then have a: "a = max_retries s" by simp
  with 0 obtain r s1 where at: "commit_attempt L a s = (r, s1)"
    and go: "commit_loop L [a] s = (res, s')" by fastforce
  from commit_attempt_last [OF laws a at] go at have "s' = s1"
    by (auto simp: pbind_run split: sum.splits option.splits)
  with commit_attempt_clock [OF laws at] a show ?case by simp
next
  case (Suc k)
  then have split: "[a..max_retries s] = a # [a + 1..max_retries s]" by (simp add: upto_rec1)
  obtain r s1 where at: "commit_attempt L a s = (r, s1)" by fastforce
  have c1: "clock s1 \<le> clock s + 3"
    using commit_attempt_clock [OF laws at] by (simp split: if_splits)
  show ?case
  proof (cases "r = Inr None")
    case True
    have m: "max_retries s1 = max_retries s"
      using commit_attempt_unpublished [OF laws at] True by (simp add: config_frame_def)
    have "commit_loop L [a + 1..max_retries s1] s1 = (res, s')"
      using Suc.prems(1) split at True m by simp
    moreover have k: "k = nat (max_retries s1 - (a + 1))" "a + 1 \<le> max_retries s1"
      using Suc.hyps(2) m by auto
    ultimately have "clock s' \<le> clock s1 + 3 * k + 1" using Suc.hyps(1) [OF k(1)] by simp
    with c1 Suc.hyps(2) show ?thesis by linarith
  next
    case False
    with Suc.prems(1) split at have "s' = s1" by (auto simp: pbind_run split: sum.splits option.splits)
    with c1 Suc.hyps(2) show ?thesis by simp
  qed
qed

text \<open>
  C24. The retry loop is bounded: \<open>commit\<close> makes at most \<open>max_retries + 1\<close> commits of the branch,
  and between two of them one read of its tip and one rebase, so its calls that touch the branch
  number at most \<open>3 * max_retries + 1\<close>, however many writers compete and whatever it returns.
\<close>

theorem commit_bounded:
  assumes "world_laws L" and "0 \<le> max_retries s" and "commit L s = (res, s')"
  shows "clock s' \<le> clock s + 3 * nat (max_retries s) + 1"
  using commit_loop_clock [OF assms(1), of 0 "s\<lparr>unmanaged_staged := dict_keys (staged s)\<rparr>"] assms(2,3)
  by (simp add: commit_as_loop)

subsection \<open>Which exceptions a commit raises\<close>

lemma load_table_errors:
  "load_table L i s = (Inl e, s') \<Longrightarrow> e \<in> range NoSuchTableError \<union> range LibError"
  by (auto simp: load_table_def resolve_def call_read_metadata_def Let_def pbind_run lib_result_def
      split: sum.splits option.splits)

lemma write_and_stage_errors: "write_and_stage L n v m s = (Inl e, s') \<Longrightarrow> e \<in> range LibError"
  by (auto simp: write_and_stage_def metadata_location_for_run call_write_metadata_def
      pbind_run pthen_run split: sum.splits)

lemma create_table_errors:
  assumes "create_table L i sc loc ps so pr s = (Inl e, s')" and "\<not> read_only s"
    and "table_name_from L i \<notin> dom (map_of (current_pointers s))"
  shows "e \<in> range LibError"
  using assms
  by (auto simp: create_table_def assert_writable_def Let_def lib_result_def
      elim!: pbind_InlE pthen_InlE split: sum.splits if_splits dest: write_and_stage_errors)

lemma for_each_lib_errors:
  "for_each (\<lambda>x. plift (lib_result (f x))) xs s = (Inl e, s') \<Longrightarrow> e \<in> range LibError"
  by (induction xs) (auto simp: lib_result_def elim!: pthen_InlE split: sum.splits)

lemma commit_table_errors:
  assumes "commit_table L t rqs ups s = (Inl e, s')" and "\<not> read_only s"
  shows "e \<in> range LibError"
  using assms
  by (auto simp: commit_table_def assert_writable_def Let_def lib_result_def call_read_metadata_def
      elim!: pbind_InlE pthen_InlE split: sum.splits if_splits option.splits
      dest: write_and_stage_errors for_each_lib_errors [unfolded lib_result_def])

lemma hand_back_errors:
  assumes "hand_back L t operation s = (Inl e, s')" and "\<not> read_only s"
  shows "e \<in> range LibError"
  using assms
  by (auto simp: hand_back_def elim!: pbind_InlE split: prod.splits sum.splits option.splits
      dest: commit_table_errors)

lemma load_hand_back_errors:
  fixes L :: "('s, 'f, 'r, 'm, 'b, 'd, 'o, 'z) iceberg_lib_scheme"
  assumes run: "pbind (load_table L i) (\<lambda>t. hand_back L t (operation t)) s = (Inl e :: 'b exn + unit, s')"
    and "\<not> read_only s"
  shows "e \<in> range NoSuchTableError \<union> range LibError"
  using run
proof (rule pbind_InlE)
  assume "load_table L i s = (Inl e, s')"
  then show ?thesis by (rule load_table_errors)
next
  fix t s1
  assume t: "load_table L i s = (Inr t :: 'b exn + _, s1)" and "hand_back L t (operation t) s1 = (Inl e, s')"
  with assms(2) load_table_InrD [OF t] show ?thesis by (auto dest: hand_back_errors)
qed

lemma intent_apply_errors:
  fixes L :: "('s, 'f, 'r, 'm, 'b, 'd, 'o, 'z) iceberg_lib_scheme"
  assumes run: "intent_apply L i s = (Inl e :: 'b exn + unit, s')" and ro: "\<not> read_only s"
  shows "e \<in> range NoSuchTableError \<union> range LibError"
proof (cases i)
  case (CreateTable n sc loc pr ps so)
  with run have new: "\<not> table_exists L (IdStr n) s"
    and "pbind (create_table L (IdStr n) sc (Some loc) ps so pr) (\<lambda>_. pret ()) s = (Inl e :: 'b exn + unit, s')"
    by (simp_all split: if_splits)
  from this(2) have "create_table L (IdStr n) sc (Some loc) ps so pr s = (Inl e :: 'b exn + _, s')"
    by (auto elim: pbind_InlE)
  from create_table_errors [OF this ro] new show ?thesis by (simp add: table_exists_def)
qed (use run ro in \<open>auto dest!: load_hand_back_errors\<close>)

text \<open>
  What a commit of a writable transaction may raise: nothing but the two errors that mean
  "re-plan", the missing table of one of its intents, an empty transaction, a conflict that
  outlived the retries, pointer metadata that is not a map, or a library's own error.
\<close>

definition commit_error :: "('r, 's, 'd, 'b, 'o) transaction \<Rightarrow> 'b exn \<Rightarrow> bool" where
  "commit_error s e \<longleftrightarrow>
     (case e of
        TableConflictError n q ids \<Rightarrow>
          ids \<noteq> [] \<and> (\<exists>x \<in> set (intents s). removes x \<and> intent_name x = n)
      | UnreplayableChangeError ts \<Rightarrow> ts \<noteq> []
      | NoSuchTableError n \<Rightarrow> True
      | ValueError v \<Rightarrow> v = NoChanges (message s)
      | TypeError \<Rightarrow> True
      | ConflictError \<Rightarrow> True
      | LibError m \<Rightarrow> True
      | _ \<Rightarrow> False)"

lemma commit_errorI:
  "e \<in> range NoSuchTableError \<union> range LibError \<Longrightarrow> commit_error s e"
  by (auto simp: commit_error_def)

lemma apply_intents_errors:
  fixes L :: "('s, 'f, 'r, 'm, 'b, 'd, 'o, 'z) iceberg_lib_scheme"
  assumes law: "storage_law L"
    and run: "for_each (intent_apply L) is s = (Inl e :: 'b exn + unit, s')" and ro: "\<not> read_only s"
  shows "e \<in> range NoSuchTableError \<union> range LibError"
  using run ro
proof (induction "is" arbitrary: s)
  case (Cons i rest)
  obtain r s1 where one: "intent_apply L i s = (r :: 'b exn + unit, s1)" by fastforce
  show ?case
  proof (cases r)
    case (Inl e')
    with one Cons.prems intent_apply_errors show ?thesis by fastforce
  next
    case (Inr u)
    have "read_only s1 = read_only s"
      by (rule catalog_frameD(5) [OF keepsD [OF intent_apply_frame [OF law] one]])
    with one Inr Cons show ?thesis by simp
  qed
qed simp

lemma conflicting_adds_errors:
  "conflicting_adds L t base tip p r = Inl e \<Longrightarrow> e \<in> range LibError"
  by (auto simp: conflicting_adds_def as_predicate_def lib_result_def
      split: if_splits option.splits sum.splits predicate.splits walk.splits)

lemma validate_removal_errors:
  fixes L :: "('s, 'f, 'r, 'm, 'b, 'd, 'o, 'z) iceberg_lib_scheme"
  assumes run: "validate_removal L n p b c = (Inl e, c')"
  shows "e \<in> range NoSuchTableError \<union> range LibError \<or> (\<exists>ids. ids \<noteq> [] \<and> e = TableConflictError n p ids)"
proof -
  obtain lr c1 where load: "load_table L (IdStr n) c = (lr :: 'b exn + _, c1)" by fastforce
  then have c1: "c1 = c" by (metis load_table_state snd_conv)
  show ?thesis
  proof (cases lr)
    case (Inl e')
    with run load load_table_errors [of L "IdStr n" c e' c1] show ?thesis
      by (auto simp: validate_removal_def split: if_splits)
  next
    case (Inr t)
    with run load c1 show ?thesis
      by (auto simp: validate_removal_def pbind_run split: if_splits option.splits sum.splits
          dest!: conflicting_adds_errors)
  qed
qed

lemma commit_error_config: "config_frame L s s' \<Longrightarrow> commit_error s' = commit_error s"
  by (simp add: commit_error_def config_frame_def fun_eq_iff cong: exn.case_cong)

lemma for_each_Inl:
  assumes "for_each f xs s = (Inl e, s')"
  shows "\<exists>x \<in> set xs. \<exists>t t'. f x t = (Inl e, t')"
  using assms by (induction xs arbitrary: s) (auto elim!: pthen_InlE)

lemma validate_replayable_errors:
  fixes L :: "('s, 'f, 'r, 'm, 'b, 'd, 'o, 'z) iceberg_lib_scheme"
  assumes run: "validate_replayable L tip s = (Inl e, s')"
  shows "commit_error s e \<and> e \<noteq> ConflictError"
proof -
  obtain x and c c' :: "'r catalog_state" where x: "x \<in> set (intents s)"
    and v: "intent_validate L x (case map_of (base_snapshots s) (intent_name x) of None \<Rightarrow> None | Some b \<Rightarrow> b) c
        = (Inl e :: 'b exn + unit, c')"
    using run by (auto simp: validate_replayable_def with_catalog_def split: prod.splits dest!: for_each_Inl)
  show ?thesis
  proof (cases x)
    case (DeleteRows n q)
    with v validate_removal_errors [of L n q _ c e c'] x show ?thesis
      by (force simp: commit_error_def removes_def)
  next
    case (OverwriteRows n d q)
    with v validate_removal_errors [of L n q _ c e c'] x show ?thesis
      by (force simp: commit_error_def removes_def)
  qed (use v in simp_all)
qed

lemma read_tip_errors:
  assumes "read_pointers_at_branch L b s = (Inl e :: 'b exn + _, s')"
  shows "e = TypeError \<or> e \<in> range LibError"
  using assms
  by (auto simp: read_pointers_at_branch_def call_lookup_branch_def read_pointers_def lib_result_def
      pbind_run pthen_run split: sum.splits option.splits)

lemma recover_errors:
  fixes L :: "('s, 'f, 'r, 'm, 'b, 'd, 'o, 'z) iceberg_lib_scheme"
  assumes run: "recover L s = (Inl e, s')"
  shows "commit_error s e \<and> e \<noteq> ConflictError"
proof -
  let ?s1 = "let_others L s"
  have same: "commit_error ?s1 e = commit_error s e"
    by (simp add: commit_error_config [OF let_others_config])
  obtain r s1 where rd: "read_pointers_at_branch L (branch s) s = (r :: 'b exn + _, s1)" by fastforce
  moreover have "snd (read_pointers_at_branch L (branch s) s :: ('b exn + _) \<times> _) = ?s1"
    by (rule read_tip_state)
  ultimately have s1: "s1 = ?s1" by simp
  from run have "(\<exists>tip. r = Inr tip) \<or> r = Inl e" using rd by (cases r) (auto simp: recover_def)
  then show ?thesis
  proof (elim disjE exE)
    assume "r = Inl e"
    with rd read_tip_errors [of L "branch s" s e s1] show ?thesis by (auto simp: commit_error_def)
  next
    fix tip assume "r = Inr tip"
    with run rd s1 have rest: "pthen assert_staged_is_covered
      (pthen (validate_replayable L tip) (pthen (pmodify (rebase_onto tip)) (call_session_rebase L))) ?s1
      = (Inl e, s')"
      by (simp add: recover_def)
    from rest show ?thesis
    proof (rule pthen_InlE)
      assume "assert_staged_is_covered ?s1 = (Inl e, s')"
      then show ?thesis by (auto simp: assert_staged_is_covered_def commit_error_def split: if_splits)
    next
      fix u s2
      assume "assert_staged_is_covered ?s1 = (Inr u :: 'b exn + unit, s2)"
      then have s2: "s2 = ?s1" by (metis assert_covered_state snd_conv)
      assume "pthen (validate_replayable L tip) (pthen (pmodify (rebase_onto tip)) (call_session_rebase L)) s2
        = (Inl e, s')"
      then show ?thesis
      proof (rule pthen_InlE)
        assume "validate_replayable L tip s2 = (Inl e, s')"
        with validate_replayable_errors s2 same show ?thesis by blast
      next
        fix v s3
        assume "pthen (pmodify (rebase_onto tip)) (call_session_rebase L) s3 = (Inl e, s')"
        then have "e \<in> range LibError"
          by (auto simp: call_session_rebase_def Let_def lib_result_def elim!: pthen_InlE
              split: prod.splits sum.splits)
        then show ?thesis by (auto simp: commit_error_def)
      qed
    qed
  qed
qed

lemma commit_attempt_errors:
  fixes L :: "('s, 'f, 'r, 'm, 'b, 'd, 'o, 'z) iceberg_lib_scheme"
  assumes laws: "world_laws L" and ro: "\<not> read_only s" and run: "commit_attempt L a s = (Inl e, s')"
  shows "commit_error s e"
proof -
  obtain r1 s1 where ap: "apply_intents L s = (r1, s1)" by fastforce
  have f1: "config_frame L s s1"
    by (rule catalog_frame_config [OF keepsD [OF apply_intents_frame [OF laws] ap]])
  obtain cres s2 where
    c: "call_session_commit L (commit_metadata (current_pointers s1)) (allow_empty L s1) s1 = (cres, s2)"
    by fastforce
  have f2: "config_frame L s s2" using f1 call_session_commit_config(1) [OF laws c] by (rule config.trans)
  have "r1 = Inl e \<or> e = ValueError (NoChanges (message s1)) \<or> e \<in> range LibError \<or> e = ConflictError
    \<or> (\<exists>t. recover L s2 = (Inl e, t))"
    using run ap c
    by (cases r1)
      (auto simp: commit_attempt_def pthen_run split: if_splits prod.splits commit_result.splits sum.splits)
  then show ?thesis
  proof (elim disjE exE)
    assume "r1 = Inl e"
    with ap apply_intents_errors [of L "intents s" s e s1] ro laws show ?thesis
      by (intro commit_errorI) (simp add: apply_intents_def world_laws_def)
  next
    fix t assume "recover L s2 = (Inl e, t)"
    then have "commit_error s2 e" by (simp add: recover_errors)
    with commit_error_config [OF f2] show ?thesis by simp
  qed (use f1 in \<open>auto simp: commit_error_def config_frame_def\<close>)
qed

text \<open>A loop that starts within its range ends in one of its passes, never by running out.\<close>

lemma commit_loop_ends:
  assumes laws: "world_laws L"
  shows "commit_loop L [a..max_retries s] s = (Inl e, s') \<Longrightarrow> a \<le> max_retries s
    \<Longrightarrow> \<exists>s0 b. config_frame L s s0 \<and> commit_attempt L b s0 = (Inl e, s')"
proof (induction "nat (max_retries s - a)" arbitrary: a s)
  case 0
  then have a: "a = max_retries s" by simp
  obtain r s1 where at: "commit_attempt L a s = (r, s1)" by fastforce
  from commit_attempt_last [OF laws a at] 0 a at have "r = Inl e \<and> s1 = s'"
    by (auto simp: pbind_run split: sum.splits option.splits)
  with at config.refl show ?case by blast
next
  case (Suc k)
  then have split: "[a..max_retries s] = a # [a + 1..max_retries s]" by (simp add: upto_rec1)
  obtain r s1 where at: "commit_attempt L a s = (r, s1)" by fastforce
  show ?case
  proof (cases "r = Inr None")
    case True
    have f: "config_frame L s s1" using commit_attempt_unpublished [OF laws at] True by simp
    then have m: "max_retries s1 = max_retries s" by (simp add: config_frame_def)
    have "commit_loop L [a + 1..max_retries s1] s1 = (Inl e, s')"
      using Suc.prems(1) split at True m by simp
    moreover have k: "k = nat (max_retries s1 - (a + 1))" "a + 1 \<le> max_retries s1"
      using Suc.hyps(2) m by auto
    ultimately show ?thesis using Suc.hyps(1) [OF k(1)] f by (blast intro: config.trans)
  next
    case False
    with Suc.prems(1) split at have "r = Inl e \<and> s1 = s'"
      by (auto simp: pbind_run split: sum.splits option.splits)
    with at config.refl show ?thesis by blast
  qed
qed

text \<open>
  C23. The exceptions of a commit are accounted for: a writable transaction whose
  \<open>max_retries\<close> is not negative raises only what \<open>commit_error\<close> lists. A conflict error always
  names a table of one of its own removals and at least one snapshot; the unreachable assertion
  is unreachable; and nothing is ever refused for a table already existing.
\<close>

theorem commit_errors:
  assumes laws: "world_laws L" and "\<not> read_only s" and "0 \<le> max_retries s"
    and run: "commit L s = (Inl e, s')"
  shows "commit_error s e"
proof -
  let ?s = "s\<lparr>unmanaged_staged := dict_keys (staged s)\<rparr>"
  have "commit_loop L [0..max_retries ?s] ?s = (Inl e, s')" using run by (simp add: commit_as_loop)
  then obtain s0 b where f: "config_frame L ?s s0" and at: "commit_attempt L b s0 = (Inl e, s')"
    using commit_loop_ends [OF laws] assms(3) by fastforce
  have "\<not> read_only s0" using f assms(2) by (simp add: config_frame_def)
  from commit_attempt_errors [OF laws this at] have "commit_error ?s e"
    using commit_error_config [OF f] by simp
  then show ?thesis by (simp add: commit_error_def cong: exn.case_cong)
qed

subsection \<open>Work that cannot be replayed\<close>

lemma commit_loop_first:
  assumes run: "commit_loop L (a # rest) s = (Inr i, s')" and no: "\<And>t. commit_attempt L a s \<noteq> (Inr None, t)"
  shows "commit_attempt L a s = (Inr (Some i), s')"
proof -
  from run obtain r s1 where at: "commit_attempt L a s = (Inr r, s1)"
    and go: "(case r of Some i \<Rightarrow> pret i | None \<Rightarrow> commit_loop L rest) s1 = (Inr i, s')"
    by (auto elim: pbind_InrE)
  with no [of s1] show ?thesis by (cases r) simp_all
qed

lemma retry_covered:
  assumes laws: "world_laws L" and run: "commit_attempt L a s = (Inr None, s')"
  shows "unmanaged_staged s = []"
proof -
  from run obtain s1 s2 where ap: "apply_intents L s = (Inr (), s1)"
    and c: "call_session_commit L (commit_metadata (current_pointers s1)) (allow_empty L s1) s1
              = (CommitConflict, s2)"
    and rec: "recover L s2 = (Inr (), s')"
    by (auto simp: commit_attempt_def elim!: pthen_InrE split: if_splits prod.splits commit_result.splits)
  have "unmanaged_staged s2 = unmanaged_staged s"
    using c tx_more(8) [OF catalog_frameD(9) [OF keepsD [OF apply_intents_frame [OF laws] ap]]]
    by (auto simp: call_session_commit_def Let_def let_others_def split: prod.splits)
  moreover from rec have "unmanaged_staged s2 = []"
  proof (rule recover_cases)
    fix tip
    assume "assert_staged_is_covered (let_others L s2) = (Inr () :: 'e exn + unit, let_others L s2)"
    then show ?thesis
      by (auto simp: assert_staged_is_covered_def orphaned_tables_def let_others_def Let_def split: if_splits)
  qed simp
  ultimately show ?thesis by simp
qed

text \<open>
  C10. Work staged on the catalog outside the intents is never dropped silently, whether or not an
  intent names its table. If anything was staged when \<open>commit\<close> was called and it returns, then it
  returned from its first pass, with the one call that publishes: no conflict was recovered from, which
  would have thrown the staged work away. What it published is what applying the intents on top of the
  staged work gave; a table that no intent names is published exactly as it was staged.
\<close>

theorem unmanaged_work_survives:
  assumes laws: "world_laws L" and plain: "\<And>x. x \<in> set (intents s) \<Longrightarrow> plain_name L (intent_name x)"
    and run: "commit L s = (Inr i, s')" and st: "map_of (staged s) n = Some l"
  shows "\<exists>s1. apply_intents L (s\<lparr>unmanaged_staged := dict_keys (staged s)\<rparr>) = (Inr (), s1)
    \<and> published L (session_branch L (session s)) i (current_pointers s1) (remote (let_others L s1)) (remote s')
    \<and> current_pointers s' = current_pointers s1 \<and> pointers s' = pointers s \<and> clock s' = Suc (clock s)
    \<and> (n \<in> intent_name ` set (intents s) \<or> map_of (current_pointers s1) n = Some l)"
proof -
  let ?s = "s\<lparr>unmanaged_staged := dict_keys (staged s)\<rparr>"
  have keys: "dict_keys (staged s) \<noteq> []" using st by (auto simp: dict_keys_def)
  have loop: "commit_loop L [0..max_retries s] ?s = (Inr i, s')" using run by (simp add: commit_as_loop)
  then have "0 \<le> max_retries s" by (cases "0 \<le> max_retries s") simp_all
  then have "[0..max_retries s] = 0 # [1..max_retries s]" by (simp add: upto_rec1)
  with loop have "commit_loop L (0 # [1..max_retries s]) ?s = (Inr i, s')" by simp
  moreover have "commit_attempt L 0 ?s \<noteq> (Inr None, t)" for t
    using retry_covered [OF laws, of 0 ?s t] keys by auto
  ultimately have at: "commit_attempt L 0 ?s = (Inr (Some i), s')" by (rule commit_loop_first)
  then obtain s1 where ap: "apply_intents L ?s = (Inr (), s1)"
    and pub: "published L (session_branch L (session ?s)) i (current_pointers s1) (remote (let_others L s1)) (remote s')"
    and clk: "clock s' = Suc (clock s1)" and cp: "current_pointers s' = current_pointers s1"
    by (auto elim: commit_attempt_published [OF laws])
  have f: "catalog_frame L ?s s1" by (rule keepsD [OF apply_intents_frame [OF laws] ap])
  have only: "stages_only (intent_name ` set (intents ?s)) ?s s1"
    using laws plain ap by (intro apply_intents_only) (auto simp: world_laws_def)
  have "map_of (current_pointers s1) n = Some l" if "n \<notin> intent_name ` set (intents s)"
    using that only st by (simp add: stages_only_def current_pointers_def map_add_def)
  moreover have "pointers s' = pointers s1"
    using at ap by (auto simp: commit_attempt_def call_session_commit_def Let_def let_others_def
        split: if_splits prod.splits commit_result.splits elim!: pthen_InrE)
  ultimately show ?thesis using ap pub cp catalog_frameD(3,7) [OF f] clk by auto
qed

subsection \<open>Removals over a moved branch\<close>

lemma for_each_InrD:
  assumes run: "for_each f xs s = (Inr u, s')" and pure: "\<And>x. x \<in> set xs \<Longrightarrow> snd (f x s) = s"
    and x: "x \<in> set xs"
  shows "f x s = (Inr (), s)"
  using assms
proof (induction xs)
  case (Cons y ys)
  from Cons.prems(1) obtain s1 where y: "f y s = (Inr (), s1)" and ys: "for_each f ys s1 = (Inr u, s')"
    by (auto elim!: pthen_InrE)
  with Cons.prems(2) [of y] have "s1 = s" by simp
  with Cons y ys show ?case by auto
qed simp

lemma validate_removal_Inr:
  fixes L :: "('s, 'f, 'r, 'm, 'b, 'd, 'o, 'z) iceberg_lib_scheme"
  assumes law: "walk_law L lineage adds" and run: "validate_removal L n q b c = (Inr u, c')"
    and load: "load_table L (IdStr n) c = (Inr t :: 'b exn + _, c)"
    and tip: "current_snapshot_id L (table_metadata t) = Some tip"
  shows "\<exists>base. b = Some base \<and> (base = tip
     \<or> (\<exists>e. as_predicate L q = (Inr e :: 'b exn + 'b)
          \<and> clean_window lineage adds (table_metadata t) base tip e))"
proof -
  have ex: "table_exists L (IdStr n) c"
    using load_table_InrD [OF load] by (auto simp: table_exists_def)
  with run load tip obtain base where b: "b = Some base"
    and ca: "conflicting_adds L t base tip q (remote c) = (Inr [] :: 'b exn + _)"
    by (auto simp: validate_removal_def pbind_run split: option.splits sum.splits if_splits)
  with conflicting_adds_empty [OF law ca] show ?thesis by blast
qed

text \<open>
  C6. A removal is replayed only where that is safe. When a recovery goes through, every delete
  and overwrite of the transaction was checked against the table at the branch's new tip: the
  tip has no such table, or a table with no rows ever committed, or the recorded base snapshot is
  the tip's own, or the walk from the tip reaches the base and no snapshot in between added a
  file that may hold a row matching the predicate.
\<close>

theorem replayed_removals_safe:
  fixes L :: "('s, 'f, 'r, 'm, 'b, 'd, 'o, 'z) iceberg_lib_scheme"
  assumes law: "walk_law L lineage adds" and run: "recover L s = (Inr u, s')"
    and x: "x \<in> set (intents s)" "x = DeleteRows n q \<or> x = OverwriteRows n d q"
    and load: "load_table L (IdStr n) (catalog_for (repo_conf s) (pointers s') False (let_others L s))
        = (Inr t :: 'b exn + _, c)"
    and tip: "current_snapshot_id L (table_metadata t) = Some tip"
  shows "\<exists>base. map_of (base_snapshots s) n = Some (Some base) \<and> (base = tip
     \<or> (\<exists>e. as_predicate L q = (Inr e :: 'b exn + 'b)
          \<and> clean_window lineage adds (table_metadata t) base tip e))"
  using run
proof (rule recover_cases)
  fix tip_ptrs
  assume val: "validate_replayable L tip_ptrs (let_others L s) = (Inr (), let_others L s)"
    and reb: "call_session_rebase L (rebase_onto tip_ptrs (let_others L s)) = (Inr u, s')"
  let ?s1 = "let_others L s"
  let ?c = "catalog_for (repo_conf s) tip_ptrs False ?s1 :: 'r catalog_state"
  have cfg: "repo_conf ?s1 = repo_conf s" "base_snapshots ?s1 = base_snapshots s" "intents ?s1 = intents s"
    by (simp_all add: let_others_def)
  have p: "pointers s' = tip_ptrs"
    using reb by (auto simp: call_session_rebase_def Let_def let_others_def rebase_onto_def split: prod.splits)
  from val obtain v c' where
    "for_each (\<lambda>i. intent_validate L i
       (case map_of (base_snapshots s) (intent_name i) of None \<Rightarrow> None | Some b \<Rightarrow> b)) (intents s) ?c
      = (Inr v :: 'b exn + unit, c')"
    by (auto simp: validate_replayable_def with_catalog_def cfg split: prod.splits)
  from for_each_InrD [OF this _ x(1)] have
    v: "intent_validate L x (case map_of (base_snapshots s) (intent_name x) of None \<Rightarrow> None | Some b \<Rightarrow> b) ?c
      = (Inr () :: 'b exn + unit, ?c)" by simp
  have "load_table L (IdStr n) ?c = (Inr t :: 'b exn + _, ?c)"
    using load load_table_InrD [OF load] by (simp add: p)
  moreover from v x(2) have "validate_removal L n q
      (case map_of (base_snapshots s) n of None \<Rightarrow> None | Some b \<Rightarrow> b) ?c = (Inr (), ?c)" by auto
  ultimately obtain base where
    "(case map_of (base_snapshots s) n of None \<Rightarrow> None | Some b \<Rightarrow> b) = Some base"
    and "base = tip \<or> (\<exists>e. as_predicate L q = (Inr e :: 'b exn + 'b)
          \<and> clean_window lineage adds (table_metadata t) base tip e)"
    using validate_removal_Inr [OF law _ _ tip] by blast
  then show ?thesis by (auto split: option.splits)
qed simp

subsection \<open>Conflicts mean rivals\<close>

text \<open>icechunk reports a conflict only when the branch is no longer at the session's base.\<close>

definition conflict_law ::
    "('s, 'f, 'r, 'z) icechunk_lib_scheme \<Rightarrow> bool" where
  "conflict_law L \<longleftrightarrow>
     (\<forall>r s msg md ae r' s'. session_commit L r s msg md ae = (CommitConflict, r', s') \<longrightarrow>
        lookup_branch L r (session_branch L s) \<noteq> Inr (session_base L s))"

definition at_tip ::
    "('s, 'f, 'r, 'm, 'b, 'd, 'o, 'z) iceberg_lib_scheme
     \<Rightarrow> ('r, 's, 'd, 'b, 'o) transaction \<Rightarrow> bool" where
  "at_tip L s \<longleftrightarrow>
     session_branch L (session s) = branch s
     \<and> lookup_branch L (remote s) (branch s) = Inr (session_base L (session s))"

text \<open>
  The states of one run of \<open>commit\<close>: before its pass \<open>k\<close>, and at the call of \<open>session.commit\<close> in that
  pass, when the intents have been applied.
\<close>

primrec before_pass ::
    "('s, 'f, 'r, 'm, 'b, 'd, 'o, 'z) iceberg_lib_scheme \<Rightarrow> nat
     \<Rightarrow> ('r, 's, 'd, 'b, 'o) transaction \<Rightarrow> ('r, 's, 'd, 'b, 'o) transaction" where
  "before_pass L 0 s = s\<lparr>unmanaged_staged := dict_keys (staged s)\<rparr>"
| "before_pass L (Suc k) s = snd (commit_attempt L (int k) (before_pass L k s))"

definition at_commit ::
    "('s, 'f, 'r, 'm, 'b, 'd, 'o, 'z) iceberg_lib_scheme \<Rightarrow> nat
     \<Rightarrow> ('r, 's, 'd, 'b, 'o) transaction \<Rightarrow> ('r, 's, 'd, 'b, 'o) transaction" where
  "at_commit L k s = snd (apply_intents L (before_pass L k s))"

text \<open>
  A pass that fails over a conflict found the branch away from the session's base, and the next pass
  starts at the tip.
\<close>

lemma commit_attempt_rival:
  fixes L :: "('s, 'f, 'r, 'm, 'b, 'd, 'o, 'z) iceberg_lib_scheme"
  assumes laws: "world_laws L" and law: "conflict_law L" and br: "session_branch L (session s) = branch s"
    and run: "commit_attempt L a s = (res, s')" and res: "res = Inr None \<or> res = Inl ConflictError"
    and ro: "\<not> read_only s"
  shows "lookup_branch L (remote (let_others L (snd (apply_intents L s)))) (branch s) \<noteq> Inr (session_base L (session s))"
    and "res = Inr None \<Longrightarrow> at_tip L s' \<and> clock s' = clock s + 3"
    and "res = Inl ConflictError \<Longrightarrow> a = max_retries s"
proof -
  obtain r1 s1 where ap: "apply_intents L s = (r1, s1)" by fastforce
  have f: "catalog_frame L s s1" by (rule keepsD [OF apply_intents_frame [OF laws] ap])
  have s1: "session s1 = session s" "branch s1 = branch s" "clock s1 = clock s"
    using tx_more(1,3) [OF catalog_frameD(9) [OF f]] catalog_frameD(7) [OF f] by simp_all
  have "r1 \<noteq> Inl ConflictError"
    using apply_intents_errors [of L "intents s" s ConflictError s1] ap laws ro
    by (auto simp: apply_intents_def world_laws_def)
  moreover obtain cres s2 where
    c: "call_session_commit L (commit_metadata (current_pointers s1)) (allow_empty L s1) s1 = (cres, s2)"
    by fastforce
  ultimately have cres: "cres = CommitConflict" and
    rest: "res = Inl ConflictError \<and> a = max_retries s2 \<or> (res = Inr None \<and> recover L s2 = (Inr (), s'))"
    using run ap res recover_errors [of L s2]
    by (cases r1; auto simp: commit_attempt_def pthen_run
        split: if_splits prod.splits commit_result.splits sum.splits)+
  show "lookup_branch L (remote (let_others L (snd (apply_intents L s)))) (branch s) \<noteq> Inr (session_base L (session s))"
    using law c cres s1 br
    by (auto simp: conflict_law_def call_session_commit_def Let_def let_others_def ap split: prod.splits)
      (metis (no_types, lifting))
  have "max_retries s2 = max_retries s"
    using call_session_commit_config(1) [OF laws c] catalog_frame_config [OF f] by (simp add: config_frame_def)
  with rest show "res = Inl ConflictError \<Longrightarrow> a = max_retries s" by auto
  assume "res = Inr None"
  with rest have rec: "recover L s2 = (Inr (), s')" by simp
  have clk: "clock s2 = Suc (clock s)" and sb: "session_branch L (session s2) = branch s2"
    using call_session_commit_config [OF laws c] s1 br by (simp_all add: config_frame_def)
  from rec obtain tip' where "clock s' = clock s2 + 2"
    and reb: "session_rebase L (others L (Suc (clock s2)) (others L (clock s2) (remote s2))) (session s2)
           = (Inr (), session s')"
    and rem: "remote s' = others L (Suc (clock s2)) (others L (clock s2) (remote s2))"
    by (rule recover_done)
  moreover have "rebase_law L" using laws by (simp add: world_laws_def)
  from this [unfolded rebase_law_def, rule_format, OF reb]
  have "at_tip L s'"
    using keepsD [OF recover_config [OF laws] rec] sb rem by (simp add: at_tip_def config_frame_def)
  ultimately show "at_tip L s' \<and> clock s' = clock s + 3" using clk by simp
qed

text \<open>A run that ends in a conflict reaches every pass; each but the first starts at the tip.\<close>

lemma conflict_passes:
  assumes laws: "world_laws L" and law: "conflict_law L" and br: "session_branch L (session s) = branch s"
    and "\<not> read_only s" and run: "commit L s = (Inl ConflictError, s')"
  shows "k \<le> nat (max_retries s) \<Longrightarrow> 0 \<le> max_retries s \<Longrightarrow>
    commit_loop L [int k..max_retries s] (before_pass L k s) = (Inl ConflictError, s')
    \<and> config_frame L s (before_pass L k s) \<and> clock (before_pass L k s) = clock s + 3 * k
    \<and> (k = 0 \<or> at_tip L (before_pass L k s))"
proof (induction k)
  case 0
  then show ?case using run by (simp add: commit_as_loop config_frame_def)
next
  case (Suc k)
  let ?t = "before_pass L k s"
  from Suc have loop: "commit_loop L [int k..max_retries s] ?t = (Inl ConflictError, s')"
    and cfg: "config_frame L s ?t" and clk: "clock ?t = clock s + 3 * k" by simp_all
  have split: "[int k..max_retries s] = int k # [int (Suc k)..max_retries s]"
    using Suc.prems by (simp add: upto_rec1 add.commute)
  obtain r t' where at: "commit_attempt L (int k) ?t = (r, t')" by fastforce
  have r: "r = Inr None \<or> r = Inl ConflictError"
    using loop split at by (auto simp: pbind_run split: sum.splits option.splits)
  have t: "session_branch L (session ?t) = branch ?t" "\<not> read_only ?t" "max_retries ?t = max_retries s"
    using cfg br assms(4) by (simp_all add: config_frame_def)
  note rival = commit_attempt_rival [OF laws law t(1) at r t(2)]
  have "int k \<noteq> max_retries s" using Suc.prems by linarith
  with r rival(3) t(3) have r: "r = Inr None" by auto
  have "config_frame L ?t t'" using commit_attempt_unpublished [OF laws at] r by simp
  with cfg have "config_frame L s t'" by (rule config.trans)
  then show ?case using rival(2) [OF r] loop split at r clk by simp
qed

text \<open>
  C16. Losing means that someone else won, every time. If \<open>commit\<close> ends in \<open>ConflictError\<close>, then at
  each of its \<open>max_retries + 1\<close> calls of \<open>session.commit\<close>, in this very run, the branch was not at the
  snapshot the session was based on. At the first call that base is the one the transaction came with, so
  the branch has moved since it was opened there; before every later call the recovery had put the session on
  the tip, so another writer moved the branch between that recovery and the call.
\<close>

theorem conflict_means_rivals:
  assumes laws: "world_laws L" and law: "conflict_law L" and br: "session_branch L (session s) = branch s"
    and "\<not> read_only s" and "0 \<le> max_retries s" and run: "commit L s = (Inl ConflictError, s')"
    and k: "k \<le> nat (max_retries s)"
  shows "lookup_branch L (remote (let_others L (at_commit L k s))) (branch s)
        \<noteq> Inr (session_base L (session (at_commit L k s)))
    \<and> clock (at_commit L k s) = clock s + 3 * k
    \<and> (if k = 0
        then session (at_commit L k s) = session s
          \<and> lookup_branch L (remote (at_commit L k s)) = lookup_branch L (remote s)
        else lookup_branch L (remote (at_commit L k s)) (branch s)
          = Inr (session_base L (session (at_commit L k s))))"
proof -
  let ?t = "before_pass L k s"
  note pass = conflict_passes [OF laws law br assms(4) run k assms(5)]
  then have loop: "commit_loop L [int k..max_retries s] ?t = (Inl ConflictError, s')"
    and cfg: "config_frame L s ?t" and clk: "clock ?t = clock s + 3 * k" by simp_all
  have "[int k..max_retries s] = int k # [int k + 1..max_retries s]"
    using k assms(5) by (simp add: upto_rec1)
  moreover obtain r t' where at: "commit_attempt L (int k) ?t = (r, t')" by fastforce
  ultimately have r: "r = Inr None \<or> r = Inl ConflictError"
    using loop by (auto simp: pbind_run split: sum.splits option.splits)
  have t: "session_branch L (session ?t) = branch ?t" "\<not> read_only ?t" "branch ?t = branch s"
    using cfg br assms(4) by (simp_all add: config_frame_def)
  note moved = commit_attempt_rival(1) [OF laws law t(1) at r t(2)]
  obtain ra sa where ap: "apply_intents L ?t = (ra, sa)" by fastforce
  have f: "catalog_frame L ?t sa" by (rule keepsD [OF apply_intents_frame [OF laws] ap])
  have "session sa = session ?t" "clock sa = clock ?t" "lookup_branch L (remote sa) = lookup_branch L (remote ?t)"
    using tx_more(1) [OF catalog_frameD(9) [OF f]] catalog_frameD(1,7) [OF f] by (simp_all add: same_refs_def)
  with moved pass clk t(3) ap show ?thesis
    by (cases k) (auto simp: at_commit_def at_tip_def)
qed

subsection \<open>Nothing to publish, and failure\<close>

text \<open>
  An empty transaction is refused before the repository is asked anything: when the session
  has no changes and the intents, applied, stage nothing, \<open>commit\<close> raises the \<open>ValueError\<close> that
  says so, having made no call that could move the branch.
\<close>

lemma empty_commit_refused:
  assumes laws: "world_laws L" and "0 \<le> max_retries s"
    and ap: "apply_intents L (s\<lparr>unmanaged_staged := dict_keys (staged s)\<rparr>) = (Inr (), s1)"
    and empty: "staged s1 = []" "\<not> has_uncommitted_changes L (session s)"
  shows "commit L s = (Inl (ValueError (NoChanges (message s))), s1) \<and> clock s1 = clock s"
proof -
  let ?s = "s\<lparr>unmanaged_staged := dict_keys (staged s)\<rparr>"
  have f: "catalog_frame L ?s s1" by (rule keepsD [OF apply_intents_frame [OF laws] ap])
  have "session s1 = session s" and "message s1 = message s"
    using tx_more(1,4) [OF catalog_frameD(9) [OF f]] by simp_all
  with ap empty have "commit_attempt L 0 ?s = (Inl (ValueError (NoChanges (message s))), s1)"
    by (simp add: commit_attempt_def nothing_to_publish_def)
  moreover have "[0..max_retries s] = 0 # [1..max_retries s]" using assms(2) by (simp add: upto_rec1)
  ultimately show ?thesis using catalog_frameD(7) [OF f] by (simp add: commit_as_loop)
qed

text \<open>
  C12. A \<open>with\<close> block that ends in an exception leaves nothing behind: whether its body raised or
  the commit did, this process published nothing, and the session holds no staged array writes.
  The exception that comes out is the one that went in.
\<close>

theorem failed_block_leaves_nothing:
  assumes laws: "world_laws L" and body: "keeps (quiet_frame L) body"
    and run: "with_transaction L body s = (Inl e, s')"
  shows "\<not> has_uncommitted_changes L (session s') \<and> unpublished L (remote s) (remote s')
    \<and> (\<exists>s1 s2. body s = (Inl e, s1) \<or> body s = (Inr (), s1) \<and> commit L s1 = (Inl e, s2))"
proof -
  have clean: "\<not> has_uncommitted_changes L (session (discard L t))" and rem: "remote (discard L t) = remote t" for t
    using laws by (simp_all add: discard_def world_laws_def session_law_def)
  obtain r s1 where b: "body s = (r, s1)" by fastforce
  then have q: "unpublished L (remote s) (remote s1)"
    using keepsD [OF body] by (simp add: quiet_frame_def)
  show ?thesis
  proof (cases r)
    case (Inl e')
    with run b have "e' = e" "s' = discard L s1" by (simp_all add: with_transaction_def tx_exit_def)
    with q clean rem b Inl show ?thesis by auto
  next
    case (Inr u)
    obtain cr s2 where c: "commit L s1 = (cr, s2)" by fastforce
    with run b Inr have cr: "cr = Inl e" and s': "s' = discard L s2"
      by (cases cr; simp add: with_transaction_def tx_exit_def ptry_def)+
    have "quiet_frame L (s1\<lparr>unmanaged_staged := dict_keys (staged s1)\<rparr>) s2"
      using commit_loop_unpublished [OF laws] c cr by (simp add: commit_as_loop)
    then have "unpublished L (remote s1) (remote s2)" by (simp add: quiet_frame_def)
    with q clean rem b Inr c cr s' show ?thesis by auto
  qed
qed

subsection \<open>Reading and opening move nothing\<close>

lemma repo_read_state:
  "repo_read L conf (Some br) None None t = (r :: 'b exn + ('r, 's) hybrid_snapshot, t') \<Longrightarrow> t' = let_others L t"
proof -
  assume run: "repo_read L conf (Some br) None None t = (r :: 'b exn + ('r, 's) hybrid_snapshot, t')"
  obtain q t1 where look: "call_lookup_branch L br t = (q :: 'b exn + string, t1)" by fastforce
  moreover have "snd (call_lookup_branch L br t :: ('b exn + string) \<times> _) = let_others L t"
    by (rule call_lookup_branch_state)
  ultimately have "t1 = let_others L t" by simp
  with run look show ?thesis by (cases q) (auto simp: repo_read_def snapshot_for_def)
qed

lemma tx_init_state:
  assumes "tx_init L conf b msg n None p = (r :: 'b exn + ('r, 's, 'd, 'b, 'o) transaction, p')"
  shows "p' = let_others L p" and "r = Inr t \<Longrightarrow> remote t = remote p' \<and> clock t = clock p'
    \<and> writable_session L (remote p') b = Inr (session t)"
proof -
  have *: "p' = let_others L p \<and> (\<forall>t. r = Inr t \<longrightarrow> remote t = remote p' \<and> clock t = clock p'
      \<and> writable_session L (remote p') b = Inr (session t))"
    using assms
    by (auto simp: tx_init_def call_writable_session_def read_pointers_def pbind_run pthen_run tx_of_def
        catalog_for_def catalog_init_def catalog_state.defs dest: lib_result_InrD split: sum.splits option.splits)
  show "p' = let_others L p" by (rule conjunct1 [OF *])
  show "r = Inr t \<Longrightarrow> remote t = remote p' \<and> clock t = clock p'
    \<and> writable_session L (remote p') b = Inr (session t)"
    by (rule conjunct2 [OF *, rule_format])
qed

lemma tx_init_quiet:
  assumes "world_laws L" and run: "tx_init L conf b msg n None p = (r :: 'b exn + ('r, 's, 'd, 'b, 'o) transaction, p')"
  shows "unpublished L (remote p) (remote p') \<and> (\<forall>t. r = Inr t \<longrightarrow> remote t = remote p'
    \<and> branch t = b \<and> session_branch L (session t) = b \<and> intents t = [])"
proof -
  have "unpublished L (remote p) (remote p')"
    unfolding tx_init_state(1) [OF run] by (simp add: let_others_def unpublished_others)
  moreover have "branch t = b \<and> session_branch L (session t) = b \<and> intents t = []" if "r = Inr t" for t
    using tx_init_synced(1,3,4) [of L conf b msg n None p t p'] assms that
    by (simp add: world_laws_def synced_def)
  ultimately show ?thesis using tx_init_state(2) [OF run] by blast
qed

end
