(* ===== verification/Scenario.thy ===== *)
theory Scenario
  imports Guards
begin

text \<open>
  Concrete runs on the reference parameters, evaluated by rewriting. Anna appends to a table of a
  seeded repository; the rival writer is this same program, run to completion in the same world
  just before the calls listed in \<open>ben\<close>. They show that the hypotheses of the commit theorems
  hold together on runs with real conflicts, and what happens when a rival lands between the two
  calls of a recovery.
\<close>

subsection \<open>The world\<close>

definition conf0 :: hybrid_repo where
  "conf0 = \<lparr>repo_warehouse = ''w'', repo_io_properties = []\<rparr>"

text \<open>One table \<open>t\<close> with two rows, at snapshot \<open>S1\<close>; \<open>S0\<close> is the repository as created.\<close>

definition seeded :: ref_remote where
  "seeded =
     \<lparr>ref_branches = [(''main'', ''S1'')], ref_tags = [],
      ref_snapshots =
        [(''S0'', (Some (commit_metadata []), [])),
         (''S1'', (Some (commit_metadata [(''t'', ''w/m1'')]), []))],
      ref_files = [(''w/m1'',
        \<lparr>ref_rows = [''r1'', ''r2''], ref_snaps = [(1, [''r1'', ''r2''])], ref_log = 1, ref_props = []\<rparr>)]\<rparr>"

definition process_at :: "ref_remote \<Rightarrow> nat \<Rightarrow> ref_remote process" where
  "process_at r d = \<lparr>remote = r, clock = 0, draws = d\<rparr>"

type_synonym ref_tx = "(ref_remote, ref_session, string list, string list, ref_obj) transaction"

definition open_in ::
    "(nat \<Rightarrow> ref_remote \<Rightarrow> ref_remote) \<Rightarrow> ref_remote \<Rightarrow> nat
     \<Rightarrow> ((string list) exn + ref_tx) \<times> ref_remote process" where
  "open_in oth r d = tx_init (ref_lib oth) conf0 ''main'' ''msg'' 10 None (process_at r d)"

definition run_alone ::
    "ref_remote \<Rightarrow> nat \<Rightarrow> (ref_tx, (string list) exn, unit) pgm \<Rightarrow> ref_remote" where
  "run_alone r d body =
     (case open_in alone r d of
        (Inl e, p) \<Rightarrow> remote p
      | (Inr t, p) \<Rightarrow> remote (snd (pthen body (commit (ref_lib alone)) t)))"

definition rival_commit :: "nat \<Rightarrow> ref_remote \<Rightarrow> ref_remote" where
  "rival_commit n r = run_alone r (100 + n) (tx_append ''t'' [''b'' @ dec n])"

definition ben :: "nat list \<Rightarrow> nat \<Rightarrow> ref_remote \<Rightarrow> ref_remote" where
  "ben hits n r = (if n \<in> set hits then rival_commit n r else r)"

text \<open>
  When Ben strikes, counting Anna's calls from 0: her opening is call 0, each attempt is three
  (the commit, the read of the tip, the rebase).
\<close>

definition never :: "nat list" where "never = []"
definition once :: "nat list" where "once = [1]"
definition twice :: "nat list" where "twice = [1, 4]"
definition in_recovery :: "nat list" where "in_recovery = [1, 3]"

text \<open>Anna's transaction, in a world where Ben commits just before the calls listed.\<close>

definition anna_opened :: "nat list \<Rightarrow> ref_tx" where
  "anna_opened hits = (case open_in (ben hits) seeded 1 of (r, p) \<Rightarrow> projr r)"

definition anna_body :: "nat list \<Rightarrow> (ref_tx, (string list) exn, unit) pgm" where
  "anna_body hits = pthen (tx_delete (ref_lib (ben hits)) ''t'' (PText ''r1'')) (tx_append ''t'' [''a1''])"

definition anna :: "nat list \<Rightarrow> ref_tx" where
  "anna hits = snd (anna_body hits (anna_opened hits))"

subsection \<open>The scenario meets the hypotheses\<close>

lemma run_Inr: "\<not> isl (fst m) \<Longrightarrow> m = (Inr (projr (fst m)), snd m)"
  by (cases m; cases "fst m") auto

lemma run_Inl: "isl (fst m) \<Longrightarrow> m = (Inl (projl (fst m)), snd m)"
  by (cases m; cases "fst m") auto

lemma ref_history_any: "keeps_history (ref_lib oth) = keeps_history (ref_lib alone)"
  by (simp add: keeps_history_def ref_lib_def fun_eq_iff)

lemma ref_pointers_any: "pointers_at (ref_lib oth) = pointers_at (ref_lib alone)"
  by (simp add: pointers_at_def ref_lib_def fun_eq_iff)

lemma ref_read_any: "read_metadata (ref_lib oth) = read_metadata (ref_lib alone)"
  by (simp add: ref_lib_def)

lemma ref_store_any: "store_ok (ref_lib oth) = store_ok (ref_lib alone)"
  unfolding store_ok_def ref_pointers_any [of oth] ref_read_any [of oth] ..

definition same_world :: "ref_remote process \<Rightarrow> ref_remote process \<Rightarrow> bool" where
  "same_world p p' \<longleftrightarrow> remote p' = remote p"

interpretation same_world: step_frame same_world
  by unfold_locales (simp_all add: same_world_def)

lemma let_others_alone [simp]: "remote (let_others (ref_lib alone) s) = remote s"
  by (simp add: let_others_def ref_lib_def alone_def)

lemma read_pointers_same: "keeps same_world (read_pointers L i)"
  by (simp add: keeps_def same_world_def)

lemma tx_init_alone: "keeps same_world (tx_init (ref_lib alone) conf b msg n given)"
  unfolding tx_init_def call_writable_session_def
  by (cases given) (auto intro!: same_world.steps read_pointers_same simp: same_world_def)

lemma open_alone_remote:
  assumes "open_in alone r d = (Inr t, p)"
  shows "remote t = r"
proof -
  have "remote p = r"
    using keepsD [OF tx_init_alone assms [unfolded open_in_def]] by (simp add: same_world_def process_at_def)
  with assms show ?thesis
    by (auto simp: open_in_def tx_init_def tx_of_def catalog_for_def catalog_init_def catalog_state.defs
        elim!: pbind_InrE)
qed

text \<open>What a body of staging calls may do, and running one alone to its commit.\<close>

definition stages :: "ref_tx \<Rightarrow> ref_tx \<Rightarrow> bool" where
  "stages s s' \<longleftrightarrow> (tx_ready (ref_lib alone) s \<longrightarrow> tx_ready (ref_lib alone) s') \<and> remote s' = remote s"

interpretation stages: step_frame stages
  by unfold_locales (simp_all add: stages_def)

lemma append_stages: "keeps stages (tx_append n d :: (ref_tx, (string list) exn, unit) pgm)"
proof (rule keepsI)
  fix s s' :: ref_tx and r :: "(string list) exn + unit"
  assume run: "tx_append n d s = (r, s')"
  from keepsD [OF tx_append_frame [where L = "ref_lib alone"] this] run tx_ready.appended
  show "stages s s'" by (auto simp: stages_def stage_frame_of_def)
qed

lemma run_alone_cases:
  assumes "keeps stages body"
  obtains "run_alone r d body = r"
    | s res s' where "tx_ready (ref_lib alone) s" and "remote s = r"
      and "commit (ref_lib alone) s = (res, s')" and "run_alone r d body = remote s'"
proof -
  obtain res p where o: "open_in alone r d = (res, p)" by fastforce
  show thesis
  proof (cases res)
    case (Inl e)
    have "remote p = r"
      using keepsD [OF tx_init_alone o [unfolded open_in_def]] by (simp add: same_world_def process_at_def)
    with o Inl show thesis by (intro that(1)) (simp add: run_alone_def)
  next
    case (Inr t)
    have t: "tx_ready (ref_lib alone) t" "remote t = r"
      using o Inr open_alone_remote by (auto simp: open_in_def intro: tx_ready.opened)
    obtain rb s where b: "body t = (rb, s)" by fastforce
    with assms t have s: "tx_ready (ref_lib alone) s" "remote s = r"
      by (auto simp: stages_def dest: keepsD)
    obtain res' s' where c: "commit (ref_lib alone) s = (res', s')" by fastforce
    show thesis
    proof (cases rb)
      case (Inl e)
      with o Inr b s show thesis by (intro that(1)) (simp add: run_alone_def)
    next
      case (Inr u)
      with o \<open>res = Inr t\<close> b s c show thesis by (intro that(2)) (simp_all add: run_alone_def)
    qed
  qed
qed

lemma run_alone_history:
  assumes "keeps stages body"
  shows "keeps_history (ref_lib alone) r (run_alone r d body)"
  using assms
proof (rule run_alone_cases [of body r d])
  fix s res s'
  assume "remote s = r" "commit (ref_lib alone) s = (res, s')" "run_alone r d body = remote s'"
  with keepsD [OF commit_history [OF ref_alone_laws]] show ?thesis by (metis history_frame_def)
qed simp

lemma run_alone_store:
  assumes "keeps stages body" and ok: "store_ok (ref_lib alone) r"
  shows "store_ok (ref_lib alone) (run_alone r d body)"
  using assms(1)
proof (rule run_alone_cases [of body r d])
  fix s res s'
  assume s: "tx_ready (ref_lib alone) s" "remote s = r"
    and c: "commit (ref_lib alone) s = (res, s')" "run_alone r d body = remote s'"
  from tx_ready_invariant [OF ref_session_law ref_zarr_law s(1)]
  have "synced (ref_lib alone) s" "staged s = []" by blast+
  moreover have "store_ok (ref_lib alone) (others (ref_lib alone) k q)"
    if "store_ok (ref_lib alone) q" for k q
    using that by (simp add: ref_lib_def alone_def)
  ultimately show ?thesis
    using commit_store_ok [OF ref_alone_laws _ _ _ _ c(1)] ok s(2) c(2) by simp
qed (use ok in simp)

lemma rival_history: "keeps_history (ref_lib alone) r (rival_commit n r)"
  unfolding rival_commit_def by (intro run_alone_history append_stages)

lemma rival_store: "store_ok (ref_lib alone) r \<Longrightarrow> store_ok (ref_lib alone) (rival_commit n r)"
  unfolding rival_commit_def by (intro run_alone_store append_stages)

lemma ben_laws: "world_laws (ref_lib (ben hits))"
  by (rule ref_world_laws) (simp add: ben_def ref_history_any [of "ben hits"] rival_history)

lemma ben_store:
  "store_ok (ref_lib (ben hits)) r \<Longrightarrow> store_ok (ref_lib (ben hits)) (others (ref_lib (ben hits)) n r)"
  unfolding ref_store_any [of "ben hits"]
  by (simp add: ref_lib_def [of "ben hits"] ben_def rival_store)

lemma seeded_store: "store_ok (ref_lib oth) seeded"
  by (auto simp: store_ok_def pointers_at_def ref_lib_def seeded_def ref_lookup_def
      split: sum.splits option.splits if_splits)

lemma ben_pause: "no_writer_between (ref_lib (ben once)) b (Suc 0)"
  by (auto simp: no_writer_between_def ref_lib_def ben_def once_def)

lemma ref_rows_law:
  "rows_law (ref_lib oth) (\<lambda>m. mset (ref_rows m)) mset (\<lambda>p x. x \<in> set (ref_matches p))"
  by (auto simp: rows_law_def ref_lib_def list_ex_iff filter_mset_eq_conv split: if_splits)

lemma anna_body_ready:
  assumes "tx_ready (ref_lib (ben hits)) t"
  shows "tx_ready (ref_lib (ben hits)) (snd (anna_body hits t))"
proof -
  obtain r s where d: "tx_delete (ref_lib (ben hits)) ''t'' (PText ''r1'') t = (r, s)" by fastforce
  with assms have s: "tx_ready (ref_lib (ben hits)) s" by (rule tx_ready.deleted)
  obtain r' s' where a: "tx_append ''t'' [''a1''] s = (r' :: string list exn + unit, s')" by fastforce
  with s have "tx_ready (ref_lib (ben hits)) s'" by (rule tx_ready.appended)
  with s d a show ?thesis by (cases r) (simp_all add: anna_body_def)
qed

lemma anna_ready:
  assumes "\<not> isl (fst (open_in (ben hits) seeded 1))"
  shows "tx_ready (ref_lib (ben hits)) (anna hits)"
proof -
  have "open_in (ben hits) seeded 1 = (Inr (anna_opened hits), snd (open_in (ben hits) seeded 1))"
    using run_Inr [OF assms] by (simp add: anna_opened_def split_beta)
  then have "tx_ready (ref_lib (ben hits)) (anna_opened hits)"
    unfolding open_in_def by (rule tx_ready.opened)
  then show ?thesis unfolding anna_def by (rule anna_body_ready)
qed

lemma anna_ready_runs:
  "tx_ready (ref_lib (ben never)) (anna never)" "tx_ready (ref_lib (ben once)) (anna once)"
  "tx_ready (ref_lib (ben twice)) (anna twice)"
  by (rule anna_ready, code_simp)+

subsection \<open>A rival inside a recovery\<close>

text \<open>
  Anna only creates a table \<open>u\<close>. Ben appends to \<open>t\<close> before her first attempt (\<open>S2\<close>), and again after she
  has read the tip's pointers but before her rebase (\<open>S3\<close>).
\<close>

definition anna_creates :: ref_tx where
  "anna_creates = snd (tx_create_table (ref_lib (ben in_recovery)) ''u'' (OPlain ''schema'') None None (OPlain ''spec'')
     (OPlain ''order'') (anna_opened in_recovery) :: ((string list) exn + unit) \<times> ref_tx)"

text \<open>Anna after her first attempt, after her recovery, and in the end.\<close>

definition creates_conflicted :: ref_tx where
  "creates_conflicted =
     (let L = ref_lib (ben in_recovery); s = snd (apply_intents L anna_creates)
      in snd (call_session_commit L (commit_metadata (current_pointers s)) (allow_empty L s) s))"

definition creates_recovered :: "((string list) exn + unit) \<times> ref_tx" where
  "creates_recovered = recover (ref_lib (ben in_recovery)) creates_conflicted"

definition creates_end :: "((string list) exn + string option) \<times> ref_tx" where
  "creates_end = commit_attempt (ref_lib (ben in_recovery)) 1 (snd creates_recovered)"

end
