(* ===== verification/Assets.thy ===== *)
theory Assets
  imports Errors Json
begin

text \<open>
  \<open>src/icechest/demo/assets.py\<close>: the three URL forms of an asset, and the URLs a machine reads a
  granule's bands through. A record (\<open>row\<close>) is a JSON object; what the code does with values of
  another shape than it expects is what Python does (\<open>AttributeError\<close>).
\<close>

subsection \<open>Constants\<close>

definition LPDAAC_HTTPS_PREFIX :: string where
  "LPDAAC_HTTPS_PREFIX = ''https://data.lpdaac.earthdatacloud.nasa.gov/''"

definition LPDAAC_S3_PREFIX :: string where
  "LPDAAC_S3_PREFIX = ''s3://lp-prod-protected/''"

definition LPDAAC_HTTPS_ASSET_PREFIX :: string where
  "LPDAAC_HTTPS_ASSET_PREFIX = LPDAAC_HTTPS_PREFIX @ ''lp-prod-protected/''"

definition CONTAINER_NAME :: string where
  "CONTAINER_NAME = ''lpdaac''"

definition DEFAULT_BANDS :: "string list" where
  "DEFAULT_BANDS =
     [''B01'', ''B02'', ''B03'', ''B04'', ''B05'', ''B06'', ''B07'', ''B09'', ''B10'', ''B11'',
      ''Fmask'', ''SZA'', ''SAA'', ''VZA'', ''VAA'']"

definition ACCESS_MODES :: "string list" where
  "ACCESS_MODES = [''s3'', ''https'']"

subsection \<open>The forms\<close>

definition asset_key :: "string \<Rightarrow> 'b exn + string" where
  "asset_key href =
     (if \<not> prefix LPDAAC_HTTPS_PREFIX href then Inl (ValueError (NotDistributionHref href))
      else if \<not> prefix LPDAAC_HTTPS_ASSET_PREFIX href then Inl (ValueError (NotProtectedBucket href))
      else Inr (drop (length LPDAAC_HTTPS_ASSET_PREFIX) href))"

definition to_s3_url :: "string \<Rightarrow> 'b exn + string" where
  "to_s3_url href = map_sum id (\<lambda>k. LPDAAC_S3_PREFIX @ k) (asset_key href)"

definition to_vcc_url :: "string \<Rightarrow> 'b exn + string" where
  "to_vcc_url href = map_sum id (\<lambda>k. ''vcc://'' @ CONTAINER_NAME @ ''/'' @ k) (asset_key href)"

subsection \<open>The URLs of a record\<close>

text \<open>\<open>row.get("assets") or {}\<close>, as an object to call \<open>get\<close> on.\<close>

definition assets_of :: "(string, 'f :: zero json) dict \<Rightarrow> 'b exn + (string, 'f json) dict" where
  "assets_of row =
     (case map_of row ''assets'' of
        None \<Rightarrow> Inr []
      | Some v \<Rightarrow>
          if \<not> json_truthy v then Inr []
          else (case v of JObj d \<Rightarrow> Inr d | _ \<Rightarrow> Inl AttributeError))"

text \<open>\<open>asset and asset.get("href")\<close>: the href of a band, where there is one.\<close>

definition band_href :: "(string, 'f :: zero json) dict \<Rightarrow> string \<Rightarrow> 'b exn + 'f json option" where
  "band_href assets band =
     (case map_of assets band of
        None \<Rightarrow> Inr None
      | Some asset \<Rightarrow>
          if \<not> json_truthy asset then Inr None
          else (case asset of
                  JObj a \<Rightarrow> (case map_of a ''href'' of
                      None \<Rightarrow> Inr None
                    | Some h \<Rightarrow> Inr (if json_truthy h then Some h else None))
                | _ \<Rightarrow> Inl AttributeError))"

text \<open>One pass of the loop over the bands: the URL of a band, or nothing to record.\<close>

definition band_url ::
    "(string, 'f :: zero json) dict \<Rightarrow> string \<Rightarrow> string \<Rightarrow> 'b exn + string option" where
  "band_url assets access band =
     (case band_href assets band of
        Inl e \<Rightarrow> Inl e
      | Inr None \<Rightarrow> Inr None
      | Inr (Some (JStr href)) \<Rightarrow>
          (case asset_key href of
             Inl e \<Rightarrow> Inl e
           | Inr k \<Rightarrow> if access = ''s3'' then map_sum id Some (to_s3_url href) else Inr (Some href))
      | Inr (Some _) \<Rightarrow> Inl AttributeError)"

fun bands_urls ::
    "(string, 'f :: zero json) dict \<Rightarrow> string \<Rightarrow> string list \<Rightarrow> (string, string) dict
     \<Rightarrow> 'b exn + (string, string) dict" where
  "bands_urls assets access [] urls = Inr urls"
| "bands_urls assets access (band # bands) urls =
     (case band_url assets access band of
        Inl e \<Rightarrow> Inl e
      | Inr None \<Rightarrow> bands_urls assets access bands urls
      | Inr (Some u) \<Rightarrow> bands_urls assets access bands (dict_set band u urls))"

definition asset_urls ::
    "(string, 'f :: zero json) dict \<Rightarrow> string list \<Rightarrow> string \<Rightarrow> 'b exn + (string, string) dict" where
  "asset_urls row bands access =
     (if access \<notin> set ACCESS_MODES then Inl (ValueError (UnknownAccess access))
      else case assets_of row of
             Inl e \<Rightarrow> Inl e
           | Inr assets \<Rightarrow> bands_urls assets access bands [])"

subsection \<open>One object, three names\<close>

text \<open>The key is what the distribution href adds to the bucket's prefix, and nothing is lost.\<close>

definition https_url :: "string \<Rightarrow> string" where
  "https_url key = LPDAAC_HTTPS_ASSET_PREFIX @ key"

lemma asset_key_iff: "asset_key href = (Inr k :: 'b exn + string) \<longleftrightarrow> href = https_url k"
  by (auto simp: asset_key_def https_url_def LPDAAC_HTTPS_ASSET_PREFIX_def prefix_def)

lemma asset_key_https [simp]: "asset_key (https_url k) = Inr k"
  by (simp add: asset_key_iff)

definition key_of_href :: "string \<Rightarrow> string option" where
  "key_of_href href = projr_option (asset_key href :: unit exn + string)"

interpretation href: codec https_url key_of_href
  by unfold_locales (simp add: key_of_href_def)

text \<open>The URL a machine reads an object through, by access mode.\<close>

definition read_url :: "string \<Rightarrow> string \<Rightarrow> string" where
  "read_url access key = (if access = ''s3'' then LPDAAC_S3_PREFIX @ key else https_url key)"

lemma band_url_Some:
  assumes "band_url assets access band = (Inr (Some u) :: 'b exn + _)"
  shows "\<exists>k. band_href assets band = (Inr (Some (JStr (https_url k))) :: 'b exn + _) \<and> u = read_url access k"
  using assms
  by (auto simp: band_url_def asset_key_iff read_url_def to_s3_url_def split: sum.splits option.splits json.splits
      if_splits)

text \<open>
  The loop reads every band the list names, in order; a band is recorded when its record has an
  href, and the first band that cannot be read ends the call.
\<close>

lemma bands_urls_lookup:
  fixes urls :: "(string, string) dict"
  assumes "bands_urls assets access bands urls0 = (Inr urls :: 'b exn + _)"
  shows "(\<forall>b \<in> set bands. \<exists>r. band_url assets access b = (Inr r :: 'b exn + _)) \<and>
    map_of urls b =
    (if b \<in> set bands then
       (case (band_url assets access b :: 'b exn + string option) of Inr (Some u) \<Rightarrow> Some u
        | _ \<Rightarrow> map_of urls0 b)
     else map_of urls0 b)"
  using assms
proof (induction bands arbitrary: urls0)
  case (Cons band bands)
  obtain r where r: "band_url assets access band = (Inr r :: 'b exn + _)"
    using Cons.prems by (auto split: sum.splits)
  define urls1 where "urls1 = (case r of None \<Rightarrow> urls0 | Some u \<Rightarrow> dict_set band u urls0)"
  have "bands_urls assets access bands urls1 = (Inr urls :: 'b exn + _)"
    using Cons.prems r by (auto simp: urls1_def split: option.splits)
  note rest = Cons.IH [OF this]
  have "map_of urls1 b = (if b = band then (case r of None \<Rightarrow> map_of urls0 b | Some u \<Rightarrow> Some u) else map_of urls0 b)"
    by (simp add: urls1_def split: option.split)
  with rest r show ?case by (auto split: sum.splits option.splits)
qed simp

text \<open>The other way: a band that has no record, no href, or a string href is never an error by itself.\<close>

lemma bands_urls_total:
  assumes "\<forall>b \<in> set bands. \<exists>r. band_url assets access b = (Inr r :: 'b exn + _)"
  shows "\<exists>urls. bands_urls assets access bands urls0 = (Inr urls :: 'b exn + _)"
  using assms
proof (induction bands arbitrary: urls0)
  case (Cons band bands)
  then obtain r where "band_url assets access band = (Inr r :: 'b exn + _)" by auto
  with Cons show ?case by (cases r) simp_all
qed simp

lemma asset_urls_Inr:
  "asset_urls row bands access = (Inr urls :: 'b exn + _) \<longleftrightarrow>
     access \<in> set ACCESS_MODES \<and>
     (\<exists>assets. assets_of row = (Inr assets :: 'b exn + _) \<and>
        bands_urls assets access bands [] = (Inr urls :: 'b exn + _))"
  by (auto simp: asset_urls_def split: sum.splits if_splits)

text \<open>The href a record gives for a band, where it is a non-empty string.\<close>

definition str_href :: "(string, 'f :: zero json) dict \<Rightarrow> string \<Rightarrow> string option" where
  "str_href row band =
     (case (assets_of row :: unit exn + _) of
        Inr assets \<Rightarrow> (case (band_href assets band :: unit exn + _) of
            Inr (Some (JStr h)) \<Rightarrow> Some h | _ \<Rightarrow> None)
      | _ \<Rightarrow> None)"

lemma assets_of_cong:
  "assets_of row = (Inr x :: 'b exn + _) \<longleftrightarrow> assets_of row = (Inr x :: 'c exn + _)"
  by (auto simp: assets_of_def split: option.splits json.splits if_splits)

lemma band_href_cong:
  "band_href as b = (Inr x :: 'b exn + _) \<longleftrightarrow> band_href as b = (Inr x :: 'c exn + _)"
  by (auto simp: band_href_def split: option.splits json.splits if_splits)

lemma band_url_str_href:
  assumes "assets_of row = (Inr assets :: 'b exn + _)"
    and "band_url assets access band = (Inr r :: 'b exn + _)"
  shows "r = (case str_href row band of None \<Rightarrow> None
              | Some h \<Rightarrow> map_option (read_url access) (key_of_href h))"
proof -
  have row: "assets_of row = (Inr assets :: unit exn + _)"
    using assms(1) assets_of_cong by blast
  obtain h where h: "band_href assets band = (Inr h :: 'b exn + _)"
    using assms(2) by (auto simp: band_url_def split: sum.splits)
  then have "band_href assets band = (Inr h :: unit exn + _)"
    using band_href_cong by blast
  with row h assms(2) show ?thesis
    by (auto simp: band_url_def str_href_def key_of_href_def to_s3_url_def asset_key_iff read_url_def
        split: option.splits json.splits sum.splits if_splits)
qed

text \<open>
  C39. What \<open>asset_urls\<close> returns is exactly the URL, in the reader's own access mode, of each
  requested band the record names an object for: no other band appears, and the URL names the
  object the record's href names.
\<close>

theorem asset_urls_correct:
  assumes "asset_urls row bands access = (Inr urls :: 'b exn + (string, string) dict)"
  shows "access \<in> set ACCESS_MODES \<and>
    map_of urls band =
      (if band \<in> set bands then
         (case str_href row band of None \<Rightarrow> None
          | Some h \<Rightarrow> map_option (read_url access) (key_of_href h))
       else None)"
proof -
  obtain assets where access: "access \<in> set ACCESS_MODES"
    and row: "assets_of row = (Inr assets :: 'b exn + _)"
    and loop: "bands_urls assets access bands [] = (Inr urls :: 'b exn + _)"
    using assms by (auto simp: asset_urls_Inr)
  have "map_of urls band = (case str_href row band of None \<Rightarrow> None
       | Some h \<Rightarrow> map_option (read_url access) (key_of_href h))" if b: "band \<in> set bands"
  proof -
    obtain r where r: "band_url assets access band = (Inr r :: 'b exn + _)"
      using bands_urls_lookup [OF loop] b by blast
    then have "map_of urls band = r"
      using bands_urls_lookup [OF loop, of band] b by (simp split: option.split)
    with band_url_str_href [OF row r] show ?thesis by simp
  qed
  moreover have "map_of urls band = None" if "band \<notin> set bands"
    using bands_urls_lookup [OF loop, of band] that by simp
  ultimately show ?thesis using access by simp
qed

end
