(* ===== verification/Credentials.thy ===== *)
theory Credentials
  imports Assets
begin

text \<open>
  \<open>src/icechest/demo/credentials.py\<close>: the virtual chunk container a reader resolves references
  against, its credentials, and the registry COG headers are read through. The login and the
  credential exchange are the library's (\<open>auth_lib\<close>); the process state is the outside world \<open>'w\<close>
  and the cache that \<open>lru_cache\<close> gives \<open>earthdata_token\<close>. icechunk's and obstore's configuration
  objects are records of what they are built with.
\<close>

subsection \<open>Objects\<close>

datatype store_config = S3Store (store_region: string) | HttpStore (store_headers: "(string, string) dict")

record container =
  url_prefix :: string
  container_store :: store_config
  container_name :: string

record s3_keys =
  access_key_id :: string
  secret_access_key :: string
  session_token :: string
  expires_at :: string

text \<open>A container's credential: none, or the callable that icechunk refreshes the keys through.\<close>

datatype credential = NoCredential | S3Refreshable

datatype object_store =
    HttpObjectStore (object_store_url: string) (object_store_headers: "(string, string) dict")
  | S3ObjectStore (object_store_url: string) (object_store_region: string) (object_store_keys: s3_keys)

type_synonym registry = "(string, object_store) dict"

record 'w auth_lib =
  login_token :: "'w \<Rightarrow> (string + string) \<times> 'w"
  get_bucket_credentials :: "'w \<Rightarrow> string \<Rightarrow> (string + s3_keys) \<times> 'w"

record 'w auth =
  auth_world :: 'w
  token_cache :: "string option"

subsection \<open>Credentials\<close>

definition LPDAAC_REGION :: string where
  "LPDAAC_REGION = ''us-west-2''"

definition lpdaac_credentials :: "('w, 'z) auth_lib_scheme \<Rightarrow> ('w auth, 'b exn, s3_keys) pgm" where
  "lpdaac_credentials A s =
     (case get_bucket_credentials A (auth_world s) LPDAAC_S3_PREFIX of
        (r, w) \<Rightarrow> (lib_result r, s\<lparr>auth_world := w\<rparr>))"

text \<open>\<open>lru_cache\<close> keeps a returned token; a login that raises is tried again next time.\<close>

definition earthdata_token :: "('w, 'z) auth_lib_scheme \<Rightarrow> ('w auth, 'b exn, string) pgm" where
  "earthdata_token A s =
     (case token_cache s of
        Some t \<Rightarrow> (Inr t, s)
      | None \<Rightarrow> (case login_token A (auth_world s) of
            (Inl e, w) \<Rightarrow> (Inl (LibError e), s\<lparr>auth_world := w\<rparr>)
          | (Inr t, w) \<Rightarrow> (Inr t, s\<lparr>auth_world := w, token_cache := Some t\<rparr>)))"

definition bearer :: "string \<Rightarrow> (string, string) dict" where
  "bearer token = [(''Authorization'', ''Bearer '' @ token)]"

definition virtual_chunk_container :: "string \<Rightarrow> string option \<Rightarrow> 'b exn + container" where
  "virtual_chunk_container access token =
     (if access \<notin> set ACCESS_MODES then Inl (ValueError (UnknownAccess access))
      else if access = ''s3'' then
        Inr \<lparr>url_prefix = LPDAAC_S3_PREFIX, container_store = S3Store LPDAAC_REGION,
             container_name = CONTAINER_NAME\<rparr>
      else case token of
        None \<Rightarrow> Inl (ValueError NoBearerToken)
      | Some t \<Rightarrow>
          Inr \<lparr>url_prefix = LPDAAC_HTTPS_ASSET_PREFIX, container_store = HttpStore (bearer t),
               container_name = CONTAINER_NAME\<rparr>)"

definition container_credentials :: "string \<Rightarrow> (string, credential) dict" where
  "container_credentials access =
     (if access = ''https'' then [(LPDAAC_HTTPS_ASSET_PREFIX, NoCredential)]
      else [(LPDAAC_S3_PREFIX, S3Refreshable)])"

text \<open>\<open>token or earthdata_token()\<close>: an empty token counts as none.\<close>

definition object_store_registry ::
    "('w, 'z) auth_lib_scheme \<Rightarrow> string \<Rightarrow> string option \<Rightarrow> ('w auth, 'b exn, registry) pgm" where
  "object_store_registry A access token =
     (if access = ''https'' then
        pbind (case token of
                 Some t \<Rightarrow> if t = [] then earthdata_token A else pret t
               | None \<Rightarrow> earthdata_token A) (\<lambda>t.
        pret [(LPDAAC_HTTPS_ASSET_PREFIX,
               HttpObjectStore (rstrip_slash LPDAAC_HTTPS_ASSET_PREFIX) (bearer t))])
      else
        pbind (lpdaac_credentials A) (\<lambda>issued.
        pret [(LPDAAC_S3_PREFIX, S3ObjectStore LPDAAC_S3_PREFIX LPDAAC_REGION issued)]))"

subsection \<open>One reference, two endpoints\<close>

lemma to_vcc_url_Inr:
  "to_vcc_url href = (Inr ref :: 'b exn + _) \<longleftrightarrow>
     (\<exists>k. href = https_url k \<and> ref = ''vcc://'' @ CONTAINER_NAME @ ''/'' @ k)"
proof -
  have "to_vcc_url href = (Inr ref :: 'b exn + _) \<longleftrightarrow>
     (\<exists>k. asset_key href = (Inr k :: 'b exn + _) \<and> ref = ''vcc://'' @ CONTAINER_NAME @ ''/'' @ k)"
    unfolding to_vcc_url_def by (cases "asset_key href :: 'b exn + string") auto
  then show ?thesis by (simp add: asset_key_iff)
qed

text \<open>
  C35. The reference recorded for an asset is relative to the container a reader opens in either
  access mode: it is \<open>vcc://\<close>, the container's name and a key, and that container's prefix followed
  by the same key is the URL the machine itself reads the asset through.
\<close>

theorem vcc_reference_resolves:
  assumes "to_vcc_url href = (Inr ref :: 'b exn + string)"
    and "virtual_chunk_container access token = (Inr c :: 'b exn + container)"
  shows "\<exists>k. ref = ''vcc://'' @ container_name c @ ''/'' @ k \<and> href = https_url k
    \<and> url_prefix c @ k = read_url access k"
  using assms
  by (auto simp: to_vcc_url_Inr virtual_chunk_container_def read_url_def https_url_def ACCESS_MODES_def
      split: if_splits option.splits)

text \<open>
  C40. The credentials name exactly the container's prefix, and the registry's store is keyed on
  that prefix; joining the https store's base to a key gives the asset's URL with a single slash.
\<close>

theorem registry_matches_container:
  assumes "virtual_chunk_container access token = (Inr c :: 'b exn + container)"
    and "object_store_registry A access token' s = (Inr reg :: 'b exn + registry, s')"
  shows "map fst (container_credentials access) = [url_prefix c] \<and> map fst reg = [url_prefix c]
    \<and> (access = ''https'' \<longrightarrow> (\<forall>st \<in> snd ` set reg. object_store_url st @ ''/'' @ k = https_url k))"
proof -
  have "rstrip_slash LPDAAC_HTTPS_ASSET_PREFIX @ ''/'' = LPDAAC_HTTPS_ASSET_PREFIX"
    by (simp add: rstrip_slash_def LPDAAC_HTTPS_ASSET_PREFIX_def LPDAAC_HTTPS_PREFIX_def)
  then have join: "rstrip_slash LPDAAC_HTTPS_ASSET_PREFIX @ ''/'' @ k = https_url k" for k
    by (metis append.assoc https_url_def)
  show ?thesis
    using assms join
    by (auto simp: virtual_chunk_container_def container_credentials_def object_store_registry_def
        ACCESS_MODES_def elim!: pbind_InrE split: if_splits option.splits)
qed

text \<open>A process logs in at most once: the token it has, it keeps, and every later call returns it.\<close>

lemma earthdata_token_cached:
  assumes "earthdata_token A s = (Inr t :: 'b exn + string, s')"
  shows "earthdata_token A' s' = (Inr t :: 'b exn + string, s')"
  using assms by (auto simp: earthdata_token_def split: option.splits sum.splits prod.splits)

end
