(* ===== verification/Arrow.thy ===== *)
theory Arrow
  imports Errors Json
begin

text \<open>
  The pyarrow tables the demo handles, as it reads them: column names, and rows as \<open>to_pylist\<close>
  gives them, one dictionary per row. Arithmetic on floating-point numbers is left abstract
  (\<open>float_ops\<close>): nothing the program promises depends on how it rounds.
\<close>

type_synonym 'f row = "(string, 'f json) dict"

record 'f arrow_table =
  column_names :: "string list"
  table_rows :: "'f row list"

record 'f float_ops =
  float_add :: "'f \<Rightarrow> 'f \<Rightarrow> 'f"
  float_mul :: "'f \<Rightarrow> 'f \<Rightarrow> 'f"
  float_div :: "'f \<Rightarrow> 'f \<Rightarrow> 'f"
  float_of_int :: "int \<Rightarrow> 'f"
  int_of_float :: "'f \<Rightarrow> string + int"

definition num_rows :: "'f arrow_table \<Rightarrow> nat" where
  "num_rows t = length (table_rows t)"

text \<open>\<open>t[name]\<close>: the column's values, a null where the row has none.\<close>

definition cell :: "'f row \<Rightarrow> string \<Rightarrow> 'f json" where
  "cell row name = (case map_of row name of None \<Rightarrow> JNull | Some v \<Rightarrow> v)"

definition column :: "'f arrow_table \<Rightarrow> string \<Rightarrow> 'b exn + 'f json list" where
  "column t name =
     (if name \<in> set (column_names t) then Inr (map (\<lambda>row. cell row name) (table_rows t))
      else Inl (KeyError name []))"

text \<open>\<open>pa.array(values, pa.int64())\<close> and \<open>t.append_column(name, ...)\<close>.\<close>

definition int64_array :: "int list \<Rightarrow> 'b exn + 'f json list" where
  "int64_array vs =
     (if \<forall>v \<in> set vs. - (2 ^ 63) \<le> v \<and> v < 2 ^ 63 then Inr (map JInt vs)
      else Inl (LibError ''OverflowError''))"

definition append_column :: "'f arrow_table \<Rightarrow> string \<Rightarrow> 'f json list \<Rightarrow> 'b exn + 'f arrow_table" where
  "append_column t name vs =
     (if length vs = num_rows t
      then Inr \<lparr>column_names = column_names t @ [name],
                table_rows = map2 (\<lambda>row v. dict_set name v row) (table_rows t) vs\<rparr>
      else Inl (LibError ''ArrowInvalid''))"

text \<open>\<open>t.filter(mask)\<close>.\<close>

definition filter_rows :: "('f row \<Rightarrow> bool) \<Rightarrow> 'f arrow_table \<Rightarrow> 'f arrow_table" where
  "filter_rows keep t = t\<lparr>table_rows := filter keep (table_rows t)\<rparr>"

lemma cell_dict_set [simp]: "cell (dict_set k v row) k' = (if k' = k then v else cell row k')"
  by (simp add: cell_def)

lemma append_column_Inr:
  "append_column t name vs = (Inr t' :: 'b exn + _) \<longleftrightarrow>
     length vs = num_rows t \<and>
     t' = \<lparr>column_names = column_names t @ [name],
           table_rows = map2 (\<lambda>row v. dict_set name v row) (table_rows t) vs\<rparr>"
  by (auto simp: append_column_def)

lemma int64_array_Inr:
  "int64_array vs = (Inr js :: 'b exn + _) \<longleftrightarrow> js = map JInt vs \<and> (\<forall>v \<in> set vs. - (2 ^ 63) \<le> v \<and> v < 2 ^ 63)"
  by (auto simp: int64_array_def)

subsection \<open>Python's operations on the values of a row\<close>

text \<open>
  \<open>int(v)\<close> and \<open>float(v)\<close> of a value of a numeric column (\<open>int\<close> of a float truncates, and raises
  for an infinity or a NaN); a string, which Python would parse, is refused here.
  \<open>v[i]\<close> and \<open>v[:n]\<close> for constant indices, and \<open>row[name]\<close>.
\<close>

definition py_int :: "('f, 'z) float_ops_scheme \<Rightarrow> 'f json \<Rightarrow> 'b exn + int" where
  "py_int F v =
     (case v of
        JInt i \<Rightarrow> Inr i
      | JBool b \<Rightarrow> Inr (of_bool b)
      | JFloat x \<Rightarrow> lib_result (int_of_float F x)
      | JStr s \<Rightarrow> Inl (LibError ''ValueError'')
      | _ \<Rightarrow> Inl TypeError)"

definition py_float :: "('f, 'z) float_ops_scheme \<Rightarrow> 'f json \<Rightarrow> 'b exn + 'f" where
  "py_float F v =
     (case v of
        JInt i \<Rightarrow> Inr (float_of_int F i)
      | JBool b \<Rightarrow> Inr (float_of_int F (of_bool b))
      | JFloat x \<Rightarrow> Inr x
      | JStr s \<Rightarrow> Inl (LibError ''ValueError'')
      | _ \<Rightarrow> Inl TypeError)"

definition py_index :: "'f json \<Rightarrow> nat \<Rightarrow> 'b exn + 'f json" where
  "py_index v i =
     (case v of
        JList xs \<Rightarrow> if i < length xs then Inr (xs ! i) else Inl IndexError
      | JStr s \<Rightarrow> if i < length s then Inr (JStr [s ! i]) else Inl IndexError
      | JObj d \<Rightarrow> Inl (KeyError (dec i) [])
      | _ \<Rightarrow> Inl TypeError)"

definition py_prefix :: "'f json \<Rightarrow> nat \<Rightarrow> 'b exn + 'f json list" where
  "py_prefix v n =
     (case v of
        JList xs \<Rightarrow> Inr (take n xs)
      | JStr s \<Rightarrow> Inr (map (\<lambda>c. JStr [c]) (take n s))
      | _ \<Rightarrow> Inl TypeError)"

definition list_index :: "'a list \<Rightarrow> nat \<Rightarrow> 'b exn + 'a" where
  "list_index xs i = (if i < length xs then Inr (xs ! i) else Inl IndexError)"

definition item :: "'f row \<Rightarrow> string \<Rightarrow> 'b exn + 'f json" where
  "item row name = (case map_of row name of None \<Rightarrow> Inl (KeyError name []) | Some v \<Rightarrow> Inr v)"

lemma list_index_Inr: "list_index xs i = (Inr x :: 'b exn + _) \<longleftrightarrow> i < length xs \<and> xs ! i = x"
  by (auto simp: list_index_def)

lemma item_Inr: "item row name = (Inr v :: 'b exn + _) \<longleftrightarrow> map_of row name = Some v"
  by (auto simp: item_def split: option.splits)

text \<open>\<open>v[name]\<close> of a nested value, and a record's id, which the archive's schema makes a string.\<close>

definition py_item :: "'f json \<Rightarrow> string \<Rightarrow> 'b exn + 'f json" where
  "py_item v name = (case v of JObj d \<Rightarrow> item d name | _ \<Rightarrow> Inl TypeError)"

definition row_id :: "'f row \<Rightarrow> 'b exn + string" where
  "row_id row = rbind (item row ''id'') (\<lambda>v. case v of JStr s \<Rightarrow> Inr s | _ \<Rightarrow> Inl TypeError)"

lemma row_id_Inr: "row_id row = (Inr g :: 'b exn + _) \<longleftrightarrow> map_of row ''id'' = Some (JStr g)"
  unfolding row_id_def rbind_Inr_iff item_Inr by (auto split: json.split_asm)

end
