(* ===== verification/Hash.thy ===== *)
theory Hash
  imports Arrow
begin

text \<open>
  \<open>src/icechest/demo/hash.py\<close>: the spatio-temporal hash of every row and the block it falls in.
  The Morton code itself is the library \<open>stac_hash\<close>, a parameter; \<open>hasher_law\<close> is what it
  documents, one 63-bit code per row.
\<close>

definition HASH_START :: "int \<times> int \<times> int" where "HASH_START = (2013, 1, 1)"
definition HASH_END :: "int \<times> int \<times> int" where "HASH_END = (2036, 1, 1)"
definition HASH_COLUMN :: string where "HASH_COLUMN = ''stac_hash''"
definition HASH_BLOCK_COLUMN :: string where "HASH_BLOCK_COLUMN = ''stac_hash_block''"
definition PARTITION_BITS :: int where "PARTITION_BITS = 12"

text \<open>
  \<open>Hasher(start, end).hash_all_clamped(datetimes, longitudes, latitudes)\<close>; a date is
  year, month and day in UTC, a coordinate \<open>None\<close> where Arrow holds a null.
\<close>

type_synonym 'f hash_all =
  "'f json list \<Rightarrow> 'f option list \<Rightarrow> 'f option list \<Rightarrow> string + int list"

record 'f stac_hash_lib = "'f float_ops" +
  new_hasher :: "int \<times> int \<times> int \<Rightarrow> int \<times> int \<times> int \<Rightarrow> 'f hash_all"

definition hasher :: "('f, 'z) stac_hash_lib_scheme \<Rightarrow> 'f hash_all" where
  "hasher H = new_hasher H HASH_START HASH_END"

definition hasher_law :: "('f, 'z) stac_hash_lib_scheme \<Rightarrow> bool" where
  "hasher_law H \<longleftrightarrow>
     (\<forall>ts xs ys hs. length xs = length ts \<longrightarrow> length ys = length ts \<longrightarrow> hasher H ts xs ys = Inr hs \<longrightarrow>
        length hs = length ts \<and> (\<forall>h \<in> set hs. 0 \<le> h \<and> h < 2 ^ 63))"

text \<open>\<open>pc.struct_field\<close> of one bbox, then the mean of the two sides; nulls stay nulls.\<close>

definition struct_field :: "'f json \<Rightarrow> string \<Rightarrow> 'b exn + 'f option" where
  "struct_field v name =
     (case v of
        JNull \<Rightarrow> Inr None
      | JObj d \<Rightarrow> (case map_of d name of
            Some (JFloat x) \<Rightarrow> Inr (Some x)
          | Some JNull \<Rightarrow> Inr None
          | _ \<Rightarrow> Inl (LibError ''ArrowInvalid''))
      | _ \<Rightarrow> Inl (LibError ''ArrowInvalid''))"

definition centre_of ::
    "('f, 'z) stac_hash_lib_scheme \<Rightarrow> string \<Rightarrow> string \<Rightarrow> 'f json \<Rightarrow> 'b exn + 'f option" where
  "centre_of H low high v =
     rbind (struct_field v low) (\<lambda>a.
     rbind (struct_field v high) (\<lambda>b.
     Inr (case (a, b) of
            (Some x, Some y) \<Rightarrow> Some (float_div H (float_add H x y) (float_of_int H 2))
          | _ \<Rightarrow> None)))"

definition centre ::
    "('f, 'z) stac_hash_lib_scheme \<Rightarrow> string \<Rightarrow> string \<Rightarrow> 'f json list \<Rightarrow> 'b exn + 'f option list" where
  "centre H low high bbox = rmap (centre_of H low high) bbox"

text \<open>\<open>[value >> shift for value in hashes]\<close>: Python refuses a negative shift, once there is a value.\<close>

definition shift_all :: "int \<Rightarrow> int list \<Rightarrow> 'b exn + int list" where
  "shift_all shift hashes =
     (if hashes \<noteq> [] \<and> shift < 0 then Inl (ValueError NegativeShift)
      else Inr (map (drop_bit (nat shift)) hashes))"

definition with_stac_hash ::
    "('f, 'z) stac_hash_lib_scheme \<Rightarrow> 'f arrow_table \<Rightarrow> int \<Rightarrow> 'b exn + 'f arrow_table" where
  "with_stac_hash H rows partition_bits =
     rbind (column rows ''bbox'') (\<lambda>bbox.
     if JNull \<in> set bbox then Inl (ValueError (NullBbox (length (filter (\<lambda>v. v = JNull) bbox))))
     else
     rbind (column rows ''datetime'') (\<lambda>datetimes.
     rbind (centre H ''xmin'' ''xmax'' bbox) (\<lambda>xs.
     rbind (centre H ''ymin'' ''ymax'' bbox) (\<lambda>ys.
     rbind (lib_result (hasher H datetimes xs ys)) (\<lambda>hashes.
     rbind (int64_array hashes) (\<lambda>hash_array.
     rbind (append_column rows HASH_COLUMN hash_array) (\<lambda>rows'.
     rbind (shift_all (63 - partition_bits) hashes) (\<lambda>blocks.
     rbind (int64_array blocks) (\<lambda>block_array.
     append_column rows' HASH_BLOCK_COLUMN block_array)))))))))"

subsection \<open>Blocks are the leading bits\<close>

text \<open>The block of a 63-bit hash when \<open>bits\<close> of it are kept.\<close>

definition block_of :: "nat \<Rightarrow> int \<Rightarrow> int" where
  "block_of bits h = h div 2 ^ (63 - bits)"

lemma block_of_bound:
  assumes "bits \<le> 63" and "0 \<le> h" and "h < 2 ^ 63"
  shows "0 \<le> block_of bits h \<and> block_of bits h < 2 ^ bits"
proof -
  have "(2 :: int) ^ 63 = 2 ^ bits * 2 ^ (63 - bits)"
    using assms(1) by (simp only: power_add [symmetric]) simp
  then have less: "h < 2 ^ bits * 2 ^ (63 - bits)" using assms(3) by simp
  have "h div 2 ^ (63 - bits) < 2 ^ bits"
  proof (rule ccontr)
    assume "\<not> h div 2 ^ (63 - bits) < 2 ^ bits"
    then have "2 ^ bits * 2 ^ (63 - bits) \<le> h div 2 ^ (63 - bits) * 2 ^ (63 - bits)"
      by (intro mult_right_mono) simp_all
    also have "\<dots> \<le> h" by (simp add: div_mult_mod_eq [of h, symmetric] minus_mod_eq_div_mult [symmetric])
    finally show False using less by simp
  qed
  with assms show ?thesis by (simp add: block_of_def pos_imp_zdiv_nonneg_iff)
qed

lemma shift_block:
  assumes "0 \<le> h" and "h < 2 ^ 63" and "pb \<le> 63"
  shows "drop_bit (nat (63 - pb)) h = block_of (nat pb) h"
proof (cases "0 \<le> pb")
  case True
  with assms show ?thesis by (simp add: block_of_def drop_bit_eq_div nat_diff_distrib)
next
  case False
  then have "(2 :: int) ^ 63 \<le> 2 ^ nat (63 - pb)" by (intro power_increasing) auto
  with assms(1,2) have "h div 2 ^ nat (63 - pb) = 0" by (intro div_pos_pos_trivial) linarith+
  with assms(1,2) False show ?thesis
    by (simp add: block_of_def drop_bit_eq_div div_pos_pos_trivial)
qed

lemma block_of_mono: "h \<le> h' \<Longrightarrow> block_of bits h \<le> block_of bits h'"
  by (simp add: block_of_def zdiv_mono1)

lemma hasher_lawD:
  "hasher_law H \<Longrightarrow> hasher H ts xs ys = Inr hs \<Longrightarrow> length xs = length ts \<Longrightarrow> length ys = length ts \<Longrightarrow>
     length hs = length ts \<and> (\<forall>h \<in> set hs. 0 \<le> h \<and> h < 2 ^ 63)"
  unfolding hasher_law_def by blast

lemma centre_length: "centre H low high vs = (Inr cs :: 'b exn + _) \<Longrightarrow> length cs = length vs"
  by (simp add: centre_def rmap_length)

lemma with_stac_hash_InrE:
  fixes t t' :: "'f arrow_table"
  assumes "with_stac_hash H t pb = (Inr t' :: 'b exn + _)" and "hasher_law H"
  obtains hs where "length hs = num_rows t" and "\<forall>h \<in> set hs. 0 \<le> h \<and> h < 2 ^ 63 \<and> pb \<le> 63"
    and "column_names t' = column_names t @ [HASH_COLUMN, HASH_BLOCK_COLUMN]"
    and "table_rows t' = map2 (\<lambda>row h. dict_set HASH_BLOCK_COLUMN (JInt (drop_bit (nat (63 - pb)) h))
           (dict_set HASH_COLUMN (JInt h) row)) (table_rows t) hs"
    and "\<forall>row \<in> set (table_rows t). cell row ''bbox'' \<noteq> JNull"
proof -
  obtain bbox ts xs ys hs blocks t1 where
    bbox: "column t ''bbox'' = (Inr bbox :: 'b exn + _)" and nonull: "JNull \<notin> set bbox"
    and ts: "column t ''datetime'' = (Inr ts :: 'b exn + _)"
    and xs: "centre H ''xmin'' ''xmax'' bbox = (Inr xs :: 'b exn + _)"
    and ys: "centre H ''ymin'' ''ymax'' bbox = (Inr ys :: 'b exn + _)"
    and hs: "hasher H ts xs ys = Inr hs"
    and t1: "append_column t HASH_COLUMN (map JInt hs) = (Inr t1 :: 'b exn + _)"
    and blocks: "shift_all (63 - pb) hs = (Inr blocks :: 'b exn + _)"
    and t': "append_column t1 HASH_BLOCK_COLUMN (map JInt blocks) = (Inr t' :: 'b exn + _)"
    using assms(1)
    by (auto simp: with_stac_hash_def int64_array_Inr rbind_Inr_iff dest!: lib_result_InrD split: if_splits)
  have "length bbox = num_rows t" "length ts = num_rows t"
    using bbox ts by (auto simp: column_def num_rows_def split: if_splits)
  then have law: "length hs = num_rows t" "\<forall>h \<in> set hs. 0 \<le> h \<and> h < 2 ^ 63"
    using hasher_lawD [OF assms(2) hs] centre_length [OF xs] centre_length [OF ys] by simp_all
  have b: "blocks = map (drop_bit (nat (63 - pb))) hs" and "\<forall>h \<in> set hs. pb \<le> 63"
    using blocks by (auto simp: shift_all_def split: if_splits)
  moreover have "\<forall>row \<in> set (table_rows t). cell row ''bbox'' \<noteq> JNull"
    using bbox nonull by (force simp: column_def split: if_splits)
  moreover have "table_rows t' = map2 (\<lambda>row h. dict_set HASH_BLOCK_COLUMN (JInt (drop_bit (nat (63 - pb)) h))
           (dict_set HASH_COLUMN (JInt h) row)) (table_rows t) hs"
    using t1 t' by (auto simp: append_column_Inr b intro!: nth_equalityI)
  moreover have "column_names t' = column_names t @ [HASH_COLUMN, HASH_BLOCK_COLUMN]"
    using t1 t' by (auto simp: append_column_Inr)
  ultimately show thesis using law that by blast
qed

text \<open>
  C36. Every row that \<open>with_stac_hash\<close> returns is its input row with two more columns: a hash of
  63 bits and its block, which is the hash's leading \<open>partition_bits\<close> bits, so between
  \<open>0\<close> and \<open>2 ^ partition_bits\<close>. No row is lost, reordered or otherwise changed.
\<close>

theorem with_stac_hash_columns:
  fixes t t' :: "'f arrow_table"
  assumes "with_stac_hash H t pb = (Inr t' :: 'b exn + 'f arrow_table)" and "hasher_law H"
  shows "list_all2 (\<lambda>row row'. \<exists>h. 0 \<le> h \<and> h < 2 ^ 63
      \<and> 0 \<le> block_of (nat pb) h \<and> block_of (nat pb) h < 2 ^ nat pb
      \<and> map_of row' = (map_of row)(HASH_COLUMN \<mapsto> JInt h, HASH_BLOCK_COLUMN \<mapsto> JInt (block_of (nat pb) h)))
    (table_rows t) (table_rows t')"
proof -
  obtain hs where hs: "length hs = num_rows t" "\<forall>h \<in> set hs. 0 \<le> h \<and> h < 2 ^ 63 \<and> pb \<le> 63"
    and columns: "column_names t' = column_names t @ [HASH_COLUMN, HASH_BLOCK_COLUMN]"
    and rows: "table_rows t' = map2 (\<lambda>row h. dict_set HASH_BLOCK_COLUMN (JInt (drop_bit (nat (63 - pb)) h))
           (dict_set HASH_COLUMN (JInt h) row)) (table_rows t) hs"
    and "\<forall>row \<in> set (table_rows t). cell row ''bbox'' \<noteq> JNull"
    by (rule with_stac_hash_InrE [OF assms])
  have "0 \<le> hs ! i \<and> hs ! i < 2 ^ 63 \<and> pb \<le> 63" if "i < num_rows t" for i
  proof -
    have "hs ! i \<in> set hs" using hs(1) that by simp
    with hs(2) show ?thesis by (rule bspec)
  qed
  note bounds = this
  show ?thesis
    unfolding list_all2_conv_all_nth
  proof (intro conjI allI impI)
    show "length (table_rows t) = length (table_rows t')" using hs(1) by (simp add: rows num_rows_def)
  next
    fix i assume i: "i < length (table_rows t)"
    then have b: "0 \<le> hs ! i" "hs ! i < 2 ^ 63" "pb \<le> 63" using bounds by (simp_all add: num_rows_def)
    then have "0 \<le> block_of (nat pb) (hs ! i) \<and> block_of (nat pb) (hs ! i) < 2 ^ nat pb"
      by (intro block_of_bound) simp_all
    moreover have "map_of (table_rows t' ! i) = (map_of (table_rows t ! i))
        (HASH_COLUMN \<mapsto> JInt (hs ! i), HASH_BLOCK_COLUMN \<mapsto> JInt (block_of (nat pb) (hs ! i)))"
      using i hs(1) b by (simp add: rows num_rows_def shift_block)
    ultimately show "\<exists>h. 0 \<le> h \<and> h < 2 ^ 63
      \<and> 0 \<le> block_of (nat pb) h \<and> block_of (nat pb) h < 2 ^ nat pb
      \<and> map_of (table_rows t' ! i) = (map_of (table_rows t ! i))
          (HASH_COLUMN \<mapsto> JInt h, HASH_BLOCK_COLUMN \<mapsto> JInt (block_of (nat pb) h))"
      using b(1,2) by blast
  qed
qed

text \<open>
  A batch in which some row has no \<open>bbox\<close> is refused as a whole, before anything is
  hashed, with the number of such rows.
\<close>

lemma null_bbox_refused:
  assumes "''bbox'' \<in> set (column_names t)" and "\<exists>row \<in> set (table_rows t). cell row ''bbox'' = JNull"
  shows "with_stac_hash H t pb =
    (Inl (ValueError (NullBbox (length (filter (\<lambda>row. cell row ''bbox'' = JNull) (table_rows t)))))
       :: 'b exn + 'f arrow_table)"
  using assms by (force simp: with_stac_hash_def column_def filter_map o_def)

end
