(* ===== verification/Store.thy ===== *)
theory Store
  imports Guards Credentials Hash
begin

text \<open>
  \<open>src/icechest/demo/store.py\<close>: the granules table's schema, sort order and partitioning, opening the
  store, and creating the table once. PyIceberg's schema objects are opaque (\<open>'o\<close>), built from and
  read back as lists of fields (\<open>schema_lib\<close>), whose types other than the three used here are opaque
  too (\<open>'ty\<close>); opening the Icechunk repository is the parameter
  \<open>open_or_create\<close>, which gets everything the code passes it.
\<close>

subsection \<open>Schema objects\<close>

datatype 'ty field_type = StringType | LongType | OtherType 'ty

record 'ty nested_field =
  field_id :: int
  field_name :: string
  field_type_of :: "'ty field_type"
  field_required :: bool

datatype transform = IdentityTransform

record sort_field =
  sort_source_id :: int
  sort_transform :: transform

record partition_field =
  partition_source_id :: int
  partition_field_id :: int
  partition_transform :: transform
  partition_name :: string

record ('o, 'ty) schema_lib =
  mk_schema :: "'ty nested_field list \<Rightarrow> 'o"
  schema_fields :: "'o \<Rightarrow> 'ty nested_field list"
  highest_field_id :: "'o \<Rightarrow> int"
  mk_sort_order :: "sort_field list \<Rightarrow> 'o"
  mk_partition_spec :: "partition_field list \<Rightarrow> 'o"

definition schema_law :: "('o, 'ty, 'z) schema_lib_scheme \<Rightarrow> bool" where
  "schema_law P \<longleftrightarrow> (\<forall>fs. schema_fields P (mk_schema P fs) = fs)
     \<and> (\<forall>s. \<forall>f \<in> set (schema_fields P s). field_id f \<le> highest_field_id P s)"

subsection \<open>The granules table\<close>

definition ARRAY_PATH_FIELD_ID :: int where "ARRAY_PATH_FIELD_ID = 1000"
definition STAC_HASH_FIELD_ID :: int where "STAC_HASH_FIELD_ID = 1001"
definition STAC_HASH_BLOCK_FIELD_ID :: int where "STAC_HASH_BLOCK_FIELD_ID = 1002"
definition PARTITION_FIELD_ID :: int where "PARTITION_FIELD_ID = 1100"

definition granules_schema :: "('o, 'ty, 'z) schema_lib_scheme \<Rightarrow> 'o \<Rightarrow> 'b exn + 'o" where
  "granules_schema P source =
     (if highest_field_id P source \<ge> ARRAY_PATH_FIELD_ID
      then Inl (ValueError (FieldIdCollision (highest_field_id P source)))
      else Inr (mk_schema P (schema_fields P source @
        [\<lparr>field_id = ARRAY_PATH_FIELD_ID, field_name = ''array_path'', field_type_of = StringType, field_required = False\<rparr>,
         \<lparr>field_id = STAC_HASH_FIELD_ID, field_name = HASH_COLUMN, field_type_of = LongType, field_required = False\<rparr>,
         \<lparr>field_id = STAC_HASH_BLOCK_FIELD_ID, field_name = HASH_BLOCK_COLUMN, field_type_of = LongType, field_required = False\<rparr>])))"

definition granules_sort_order :: "('o, 'ty, 'z) schema_lib_scheme \<Rightarrow> 'o" where
  "granules_sort_order P =
     mk_sort_order P [\<lparr>sort_source_id = STAC_HASH_FIELD_ID, sort_transform = IdentityTransform\<rparr>]"

definition granules_partition_spec :: "('o, 'ty, 'z) schema_lib_scheme \<Rightarrow> 'o" where
  "granules_partition_spec P =
     mk_partition_spec P [\<lparr>partition_source_id = STAC_HASH_BLOCK_FIELD_ID, partition_field_id = PARTITION_FIELD_ID,
       partition_transform = IdentityTransform, partition_name = HASH_BLOCK_COLUMN\<rparr>]"

definition optional_long :: "('o, 'ty, 'z) schema_lib_scheme \<Rightarrow> 'o \<Rightarrow> int \<Rightarrow> string \<Rightarrow> bool" where
  "optional_long P schema i name \<longleftrightarrow>
     map_of (map (\<lambda>f. (field_id f, f)) (schema_fields P schema)) i
       = Some \<lparr>field_id = i, field_name = name, field_type_of = LongType, field_required = False\<rparr>"

text \<open>
  C38. The granules schema keeps the archive's fields and adds the three of its own under ids that
  no field of the archive uses, so that a source schema whose ids are distinct gives one whose
  ids are distinct; the ids the sort order and the partition spec refer to are those of the hash
  and the block.
\<close>

theorem granules_schema_fields:
  assumes "schema_law P" and "granules_schema P source = (Inr schema :: 'b exn + 'o)"
    and "distinct (map field_id (schema_fields P source))"
  shows "distinct (map field_id (schema_fields P schema))
    \<and> take (length (schema_fields P source)) (schema_fields P schema) = schema_fields P source
    \<and> map field_name (drop (length (schema_fields P source)) (schema_fields P schema))
        = [''array_path'', HASH_COLUMN, HASH_BLOCK_COLUMN]
    \<and> (\<exists>i. granules_sort_order P = mk_sort_order P [\<lparr>sort_source_id = i, sort_transform = IdentityTransform\<rparr>]
          \<and> optional_long P schema i HASH_COLUMN)
    \<and> (\<exists>i j. granules_partition_spec P = mk_partition_spec P
            [\<lparr>partition_source_id = i, partition_field_id = j, partition_transform = IdentityTransform,
              partition_name = HASH_BLOCK_COLUMN\<rparr>]
          \<and> optional_long P schema i HASH_BLOCK_COLUMN \<and> j \<notin> set (map field_id (schema_fields P schema)))"
proof -
  let ?ids = "field_id ` set (schema_fields P source)"
  have low: "highest_field_id P source < 1000"
    and fields: "schema_fields P schema = schema_fields P source @
        [\<lparr>field_id = ARRAY_PATH_FIELD_ID, field_name = ''array_path'', field_type_of = StringType, field_required = False\<rparr>,
         \<lparr>field_id = STAC_HASH_FIELD_ID, field_name = HASH_COLUMN, field_type_of = LongType, field_required = False\<rparr>,
         \<lparr>field_id = STAC_HASH_BLOCK_FIELD_ID, field_name = HASH_BLOCK_COLUMN, field_type_of = LongType, field_required = False\<rparr>]"
    using assms(1,2)
    by (auto simp: granules_schema_def schema_law_def ARRAY_PATH_FIELD_ID_def split: if_splits)
  have "\<forall>f \<in> set (schema_fields P source). field_id f \<le> highest_field_id P source"
    using assms(1) by (simp add: schema_law_def)
  then have below: "i < 1000" if "i \<in> ?ids" for i using that low by fastforce
  then have fresh: "1000 \<notin> ?ids" "1001 \<notin> ?ids" "1002 \<notin> ?ids" "1100 \<notin> ?ids" by force+
  note ids = ARRAY_PATH_FIELD_ID_def STAC_HASH_FIELD_ID_def STAC_HASH_BLOCK_FIELD_ID_def PARTITION_FIELD_ID_def
  have none: "map_of (map (\<lambda>f. (field_id f, f)) (schema_fields P source)) i = None" if "i \<notin> ?ids" for i
    using that by (simp add: map_of_eq_None_iff image_image)
  have "optional_long P schema STAC_HASH_FIELD_ID HASH_COLUMN"
    "optional_long P schema STAC_HASH_BLOCK_FIELD_ID HASH_BLOCK_COLUMN"
    using none fresh(2,3) by (simp_all add: optional_long_def fields ids map_of_append map_add_def)
  moreover have "PARTITION_FIELD_ID \<notin> set (map field_id (schema_fields P schema))"
    using fresh(4) by (simp add: fields ids)
  moreover have "distinct (map field_id (schema_fields P schema))"
    using assms(3) fresh by (simp add: fields ids)
  ultimately show ?thesis
    by (auto simp: granules_sort_order_def granules_partition_spec_def fields)
qed

subsection \<open>Opening the store\<close>

text \<open>
  \<open>str(Path(p) / name)\<close> on POSIX: empty and \<open>.\<close> components disappear, a leading slash stays, and
  so do exactly two.
\<close>

fun path_parts :: "string \<Rightarrow> string \<Rightarrow> string list" where
  "path_parts [] acc = [acc]"
| "path_parts (c # cs) acc = (if c = CHR ''/'' then acc # path_parts cs [] else path_parts cs (acc @ [c]))"

definition path_join :: "string \<Rightarrow> string \<Rightarrow> string" where
  "path_join p name =
     (let root = (if prefix ''//'' p \<and> \<not> prefix ''///'' p then ''//'' else if prefix ''/'' p then ''/'' else [])
      in root @ join_with ''/'' (filter (\<lambda>c. c \<notin> {'''', ''.''}) (path_parts p []) @ [name]))"

definition open_store ::
    "('w, 'z) auth_lib_scheme \<Rightarrow> (string \<Rightarrow> container \<Rightarrow> (string, credential) dict \<Rightarrow> string + 'h)
     \<Rightarrow> string \<Rightarrow> string option \<Rightarrow> string \<Rightarrow> string option
     \<Rightarrow> ('w auth, 'b exn, 'h \<times> hybrid_repo) pgm" where
  "open_store A open_or_create path warehouse0 access token0 =
     pbind (if access = ''https'' \<and> token0 = None then pbind (earthdata_token A) (\<lambda>t. pret (Some t))
            else pret token0) (\<lambda>token.
     pbind (plift (virtual_chunk_container access token)) (\<lambda>c.
     pbind (plift (lib_result (open_or_create (path_join path ''icechunk'') c (container_credentials access)))) (\<lambda>h.
     pret (h, hybrid_repo_init
       (case warehouse0 of None \<Rightarrow> path_join path ''warehouse''
        | Some w \<Rightarrow> if w = [] then path_join path ''warehouse'' else w) None))))"

text \<open>
  Opening the store over s3 asks nobody for a credential: the call leaves the login and its
  cache as they are, whatever happens, and declares the container whose prefix the credentials
  name. An access mode that is neither is a \<open>ValueError\<close>.
\<close>

lemma open_store_s3_offline:
  assumes "open_store A open_or_create path warehouse0 access token s = (res :: 'b exn + 'h \<times> hybrid_repo, s')"
    and "access \<noteq> ''https''"
  shows "s' = s \<and> (if access = ''s3''
    then map_sum id fst res = (lib_result (open_or_create (path_join path ''icechunk'')
        \<lparr>url_prefix = LPDAAC_S3_PREFIX, container_store = S3Store LPDAAC_REGION, container_name = CONTAINER_NAME\<rparr>
        [(LPDAAC_S3_PREFIX, S3Refreshable)]) :: 'b exn + 'h)
    else res = Inl (ValueError (UnknownAccess access)))"
proof (cases "access = ''s3''")
  case True
  let ?o = "open_or_create (path_join path ''icechunk'')
    \<lparr>url_prefix = LPDAAC_S3_PREFIX, container_store = S3Store LPDAAC_REGION, container_name = CONTAINER_NAME\<rparr>
    [(LPDAAC_S3_PREFIX, S3Refreshable)]"
  show ?thesis
    using assms True
    by (cases ?o) (auto simp: open_store_def virtual_chunk_container_def ACCESS_MODES_def container_credentials_def)
next
  case False
  with assms show ?thesis
    by (auto simp: open_store_def virtual_chunk_container_def ACCESS_MODES_def)
qed

subsection \<open>Creating the table\<close>

definition create_granules ::
    "('s, 'f :: zero, 'r, 'm, 'b, 'd, 'o, 'z) iceberg_lib_scheme \<Rightarrow> ('o, 'ty, 'y) schema_lib_scheme
     \<Rightarrow> 'o \<Rightarrow> string \<Rightarrow> (('r, 's, 'd, 'b, 'o) transaction, 'b exn, unit) pgm" where
  "create_granules L P source name =
     pbind (plift (granules_schema P source)) (\<lambda>schema.
     tx_create_table L name schema None None (granules_partition_spec P) (granules_sort_order P))"

text \<open>The \<open>with\<close> statement: the transaction is a local, what it did to the world stays.\<close>

definition in_new_transaction ::
    "('s, 'f, 'r, 'm, 'b, 'd, 'o, 'z) iceberg_lib_scheme \<Rightarrow> hybrid_repo \<Rightarrow> string \<Rightarrow> string
     \<Rightarrow> (('r, 's, 'd, 'b, 'o) transaction, 'b exn, unit) pgm \<Rightarrow> ('r process, 'b exn, unit) pgm" where
  "in_new_transaction L conf b msg body =
     pbind (repo_transaction L conf b msg None None) (\<lambda>t p.
     case with_transaction L body t of
       (r, t') \<Rightarrow> (r, p\<lparr>remote := remote t', clock := clock t', draws := draws t'\<rparr>))"

definition ensure_table ::
    "('s, 'f :: zero, 'r, 'm, 'b, 'd, 'o, 'z) iceberg_lib_scheme \<Rightarrow> ('o, 'ty, 'y) schema_lib_scheme
     \<Rightarrow> hybrid_repo \<Rightarrow> 'o \<Rightarrow> string \<Rightarrow> ('r process, 'b exn, unit) pgm" where
  "ensure_table L P conf source name =
     pbind (repo_read L conf (Some ''main'') None None) (\<lambda>snap.
     pbind (plift (fst (snapshot_pointers L snap))) (\<lambda>ptrs.
     if dict_has ptrs name then pret ()
     else in_new_transaction L conf ''main'' (''create '' @ name @ '' table'') (create_granules L P source name)))"

text \<open>A transaction whose one intent creates a table publishes a pointer for it.\<close>

lemma commit_applied:
  assumes laws: "world_laws L" and run: "commit L s = (Inr i, s')"
  obtains s0 s1 where "intents s0 = intents s" and "apply_intents L s0 = (Inr (), s1)"
    and "current_pointers s' = current_pointers s1"
proof -
  let ?s = "s\<lparr>unmanaged_staged := dict_keys (staged s)\<rparr>"
  from run have "commit_loop L [0..max_retries s] ?s = (Inr i, s')" by (simp add: commit_as_loop)
  then obtain s0 a where q: "config_frame L ?s s0" and at: "commit_attempt L a s0 = (Inr (Some i), s')"
    by (rule commit_loop_published [OF laws])
  from at obtain s1 where "apply_intents L s0 = (Inr (), s1)" "current_pointers s' = current_pointers s1"
    by (rule commit_attempt_published [OF laws])
  moreover have "intents s0 = intents s" using q by (simp add: config_frame_def)
  ultimately show thesis using that by blast
qed

lemma create_intent_points:
  fixes L :: "('s, 'f, 'r, 'm, 'b, 'd, 'o, 'z) iceberg_lib_scheme" and s :: "('r, 's, 'd, 'b, 'o) transaction"
  assumes "storage_law L" and "plain_name L name"
    and run: "intent_apply L (CreateTable name sc loc pr ps so) s = (Inr u, s')"
  shows "name \<in> dom (map_of (current_pointers s'))"
proof (cases "table_exists L (IdStr name) s")
  case True
  with run have "s' = s" by simp
  with True assms(2) show ?thesis by (simp add: table_exists_def plain_name_def)
next
  case False
  with run obtain t where "create_table L (IdStr name) sc (Some loc) ps so pr s = (Inr t, s')"
    by (auto elim!: pbind_InrE)
  then obtain m l where "write_and_stage L name 0 m s = (Inr l :: 'b exn + string, s')"
    using create_table_InrD assms(2) unfolding plain_name_def by metis
  from write_and_stage_InrD(4) [OF assms(1) this] show ?thesis by (simp add: current_pointers_def)
qed

lemma create_granules_intent:
  assumes "create_granules L P source name t = (Inr u, t')"
  shows "\<exists>sc loc pr ps so. intents t' = intents t @ [CreateTable name sc loc pr ps so]"
  using assms
  by (auto simp: create_granules_def tx_create_table_def tx_group_def on_session_def add_intent_def
      elim!: pbind_InrE pthen_InrE split: prod.splits)

lemma create_granules_frame: "zarr_law L \<Longrightarrow> keeps (stage_frame_of L) (create_granules L P source name)"
  unfolding create_granules_def by (intro staging.steps tx_create_table_frame)

text \<open>
  A \<open>with\<close> block whose body only stages: it raises and publishes nothing, or the body went through
  and its commit published.
\<close>

lemma block_cases:
  fixes L :: "('s, 'f, 'r, 'm, 'b, 'd, 'o, 'z) iceberg_lib_scheme" and res :: "'b exn + unit"
  assumes laws: "world_laws L" and frame: "keeps (stage_frame_of L) body"
    and at: "session_branch L (session t) = branch t" and run: "with_transaction L body t = (res, t')"
  obtains (raised) e where "res = Inl e" and "unpublished L (remote t) (remote t')"
    | (done_by) t1 i r where "res = Inr ()" and "body t = (Inr (), t1)" and "commit L t1 = (Inr i, t')"
      and "unpublished L (remote t) r" and "published L (branch t) i (current_pointers t') r (remote t')"
proof -
  obtain r1 t1 where body: "body t = (r1, t1)" by fastforce
  have "stage_frame_of L t t1" by (rule keepsD [OF frame body])
  then have same: "remote t1 = remote t" "branch t1 = branch t" "session_branch L (session t1) = branch t1"
    using at by (simp_all add: stage_frame_of_def)
  show thesis
  proof (cases r1)
    case (Inl e)
    with run body same(1) show thesis
      by (intro raised [of e]) (auto simp: with_transaction_def tx_exit_def discard_def)
  next
    case u: (Inr u)
    obtain c t2 where commit: "commit L t1 = (c, t2)" by fastforce
    have left: "(res, t') = (case c of Inl e \<Rightarrow> (Inl e, discard L t2) | Inr _ \<Rightarrow> (Inr (), t2))"
      using run body u commit by (cases c) (simp_all add: with_transaction_def tx_exit_def ptry_def)
    show thesis
    proof (cases c)
      case (Inl e)
      with commit_raised [OF laws commit [unfolded Inl]] left same(1) show thesis
        by (intro raised [of e]) (simp_all add: discard_def)
    next
      case (Inr i)
      from commit_returned [OF laws commit [unfolded Inr] same(3)] left Inr commit body u same show thesis
        using done_by by auto
    qed
  qed
qed

lemma create_points:
  fixes L :: "('s, 'f :: zero, 'r, 'm, 'b, 'd, 'o, 'z) iceberg_lib_scheme"
  assumes laws: "world_laws L" and name: "plain_name L name" and "intents t = []"
    and body: "create_granules L P source name t = (Inr u :: 'b exn + unit, t1)"
    and commit: "commit L t1 = (Inr i, t')"
  shows "name \<in> dom (map_of (current_pointers t'))"
proof -
  obtain sc loc pr ps so where "intents t1 = [CreateTable name sc loc pr ps so]"
    using create_granules_intent [OF body] assms(3) by auto
  moreover obtain s0 s1 where "intents s0 = intents t1" "apply_intents L s0 = (Inr (), s1)"
    "current_pointers t' = current_pointers s1"
    by (rule commit_applied [OF laws commit])
  ultimately show ?thesis
    using create_intent_points [of L name sc loc pr ps so s0 "()" s1] laws name
    by (auto simp: apply_intents_def world_laws_def elim!: pthen_InrE)
qed

lemma create_published:
  fixes L :: "('s, 'f :: zero, 'r, 'm, 'b, 'd, 'o, 'z) iceberg_lib_scheme"
  assumes laws: "world_laws L" "zarr_law L" and name: "plain_name L name"
    and run: "in_new_transaction L conf ''main'' msg (create_granules L P source name) p = (res :: 'b exn + unit, p')"
  shows "case res of
      Inl e \<Rightarrow> unpublished L (remote p) (remote p')
    | Inr _ \<Rightarrow> \<exists>r i ptrs. name \<in> dom (map_of ptrs)
        \<and> unpublished L (remote p) r \<and> published L ''main'' i ptrs r (remote p')"
proof -
  obtain q p1 where init: "tx_init L conf ''main'' msg DEFAULT_MAX_RETRIES None p
      = (q :: 'b exn + ('r, 's, 'd, 'b, 'o) transaction, p1)" by fastforce
  note quiet = tx_init_quiet [OF laws(1) init]
  show ?thesis
  proof (cases q)
    case (Inl e)
    with run init quiet show ?thesis by (auto simp: in_new_transaction_def repo_transaction_def)
  next
    case (Inr t)
    with quiet have t: "unpublished L (remote p) (remote t)" "branch t = ''main''" "intents t = []"
      "session_branch L (session t) = branch t" by simp_all
    obtain t' where "with_transaction L (create_granules L P source name) t = (res, t')"
      and p': "remote p' = remote t'"
      using run init Inr by (auto simp: in_new_transaction_def repo_transaction_def split: prod.splits)
    with laws(1) create_granules_frame [OF laws(2)] t(4) show ?thesis
    proof (cases rule: block_cases)
      case (raised e)
      with rtranclp_trans [OF t(1) raised(2)] p' show ?thesis by simp
    next
      case (done_by t1 i r)
      moreover have "name \<in> dom (map_of (current_pointers t'))"
        by (rule create_points [OF laws(1) name t(3) done_by(2,3)])
      moreover have "unpublished L (remote p) r" by (rule rtranclp_trans [OF t(1) done_by(4)])
      ultimately show ?thesis unfolding p' t(2) by (simp only: sum.case) blast
    qed
  qed
qed

text \<open>What \<open>repo.read("main").pointers\<close> returns is the pointer map of the tip it read.\<close>

lemma read_main_pointers:
  assumes rd: "repo_read L conf (Some ''main'') None None p = (Inr snap :: 'b exn + _, p1)"
    and ptrs: "fst (snapshot_pointers L snap) = (Inr ptrs :: 'b exn + _)"
  shows "p1 = let_others L p" and "lookup_branch L (remote p1) ''main'' = Inr (snap_id snap)"
    and "pointers_at L (remote p1) (snap_id snap) = Some ptrs"
proof -
  show p1: "p1 = let_others L p" using rd by (rule repo_read_state)
  have "lookup_branch L (remote (let_others L p)) ''main'' = Inr (snap_id snap)"
    and at: "remote snap = remote (let_others L p)"
    using rd by (auto simp: repo_read_def snapshot_for_def call_lookup_branch_def snapshot_of_def
        elim!: pbind_InrE pthen_InrE dest!: lib_result_InrD)
  then show "lookup_branch L (remote p1) ''main'' = Inr (snap_id snap)" by (simp add: p1)
  show "pointers_at L (remote p1) (snap_id snap) = Some ptrs"
    using read_pointers_InrD [of L "snap_id snap" snap ptrs "snd (read_pointers L (snap_id snap) snap)"] ptrs at
    by (simp add: snapshot_pointers_def prod_eq_iff p1)
qed

text \<open>
  C21. Ensuring the table. When \<open>ensure_table\<close> returns, either the tip of \<open>main\<close> that it read already
  had a pointer for the table, and it changed nothing, or it moved \<open>main\<close> exactly once, to a
  snapshot whose pointers include the table. When it raises it has moved nothing.
\<close>

theorem ensure_table_effect:
  fixes L :: "('s, 'f :: zero, 'r, 'm, 'b, 'd, 'o, 'z) iceberg_lib_scheme"
  assumes laws: "world_laws L" "zarr_law L" and name: "plain_name L name"
    and run: "ensure_table L P conf source name p = (res :: 'b exn + unit, p')"
  shows "case res of
      Inl e \<Rightarrow> unpublished L (remote p) (remote p')
    | Inr _ \<Rightarrow>
        (\<exists>i ptrs. lookup_branch L (remote p') ''main'' = Inr i \<and> pointers_at L (remote p') i = Some ptrs
           \<and> name \<in> dom (map_of ptrs) \<and> p' = let_others L p)
      \<or> (\<exists>r i ptrs. name \<in> dom (map_of ptrs)
           \<and> unpublished L (remote p) r \<and> published L ''main'' i ptrs r (remote p'))"
proof -
  have quiet: "unpublished L (remote p) (remote (let_others L p))"
    by (simp add: let_others_def unpublished_others)
  obtain q p1 where rd: "repo_read L conf (Some ''main'') None None p
      = (q :: 'b exn + ('r, 's) hybrid_snapshot, p1)" by fastforce
  then have p1: "p1 = let_others L p" by (rule repo_read_state)
  consider (unread) e where "res = Inl e" "p' = p1"
    | (read) snap ptrs where "q = Inr snap" "fst (snapshot_pointers L snap) = (Inr ptrs :: 'b exn + _)"
    using run rd by (cases q; cases "fst (snapshot_pointers L (projr q)) :: 'b exn + (string, string) dict")
      (auto simp: ensure_table_def)
  then show ?thesis
  proof cases
    case unread
    with p1 quiet show ?thesis by simp
  next
    case read
    note tip = read_main_pointers [OF rd [unfolded read(1)] read(2)]
    show ?thesis
    proof (cases "dict_has ptrs name")
      case True
      with run rd read have "res = Inr ()" "p' = p1" by (auto simp: ensure_table_def)
      with tip True show ?thesis by auto
    next
      case False
      with run rd read have "in_new_transaction L conf ''main'' (''create '' @ name @ '' table'')
          (create_granules L P source name) p1 = (res, p')" by (simp add: ensure_table_def)
      note created = create_published [OF laws name this, unfolded p1]
      show ?thesis
        using created rtranclp_trans [OF quiet] by (cases res) (simp_all only: sum.case, blast+)
    qed
  qed
qed

end
