(* ===== verification/Tiff.thy ===== *)
theory Tiff
  imports Errors "HOL-Library.Word"
begin

text \<open>
  \<open>src/icechest/demo/tiff.py\<close>: counting a COG's resolution levels. A header is a list of bytes
  (\<open>8 word\<close>); \<open>unpack1\<close> and \<open>unpack2\<close> are \<open>struct.unpack_from\<close> with an explicit byte order
  (so without padding), which raises \<open>struct.error\<close> when the fields do not fit. Offsets are
  Python integers: sums do not wrap. The \<open>while\<close> loop follows offsets found in the file and
  need not end, so it is a \<open>partial_function\<close> whose value \<open>None\<close> is a run that never returns.
\<close>

subsection \<open>Unpacking\<close>

definition HEADER_BYTES :: nat where
  "HEADER_BYTES = 512 * 1024"

definition IMAGE_WIDTH :: nat where "IMAGE_WIDTH = 256"
definition IMAGE_LENGTH :: nat where "IMAGE_LENGTH = 257"
definition TYPE_SHORT :: nat where "TYPE_SHORT = 3"

text \<open>The number in \<open>w\<close> bytes from \<open>off\<close>; the most significant byte comes first when \<open>big\<close>.\<close>

definition field_at :: "bool \<Rightarrow> nat \<Rightarrow> 8 word list \<Rightarrow> nat \<Rightarrow> nat" where
  "field_at big w bs off =
     (let f = take w (drop off bs) in horner_sum unat 256 (if big then rev f else f))"

definition unpack1 :: "bool \<Rightarrow> nat \<Rightarrow> 8 word list \<Rightarrow> nat \<Rightarrow> 'b exn + nat" where
  "unpack1 big w bs off =
     (if off + w \<le> length bs then Inr (field_at big w bs off) else Inl (LibError ''struct.error''))"

definition unpack2 :: "bool \<Rightarrow> nat \<Rightarrow> nat \<Rightarrow> 8 word list \<Rightarrow> nat \<Rightarrow> 'b exn + nat \<times> nat" where
  "unpack2 big w w' bs off =
     (if off + (w + w') \<le> length bs
      then Inr (field_at big w bs off, field_at big w' bs (off + w))
      else Inl (LibError ''struct.error''))"

subsection \<open>The walk\<close>

text \<open>The \<open>for index in range(count)\<close> loop over the entries of one IFD.\<close>

fun read_entries ::
    "bool \<Rightarrow> 8 word list \<Rightarrow> nat \<Rightarrow> nat list \<Rightarrow> (nat, nat) dict \<Rightarrow> 'b exn + (nat, nat) dict" where
  "read_entries big header offset [] dimensions = Inr dimensions"
| "read_entries big header offset (index # indices) dimensions =
     (let entry = offset + 2 + index * 12 in
      case unpack2 big 2 2 header entry of
        Inl e \<Rightarrow> Inl e
      | Inr (tag, kind) \<Rightarrow>
          if tag \<in> {IMAGE_WIDTH, IMAGE_LENGTH} then
            (case unpack1 big (if kind = TYPE_SHORT then 2 else 4) header (entry + 8) of
               Inl e \<Rightarrow> Inl e
             | Inr v \<Rightarrow> read_entries big header offset indices (dict_set tag v dimensions))
          else read_entries big header offset indices dimensions)"

text \<open>
  The loop condition and one pass of the body: \<open>None\<close> when the loop is left, by its condition
  or by \<open>break\<close>; otherwise the next offset and the sizes so far.
\<close>

definition ifd_step ::
    "bool \<Rightarrow> 8 word list \<Rightarrow> nat \<Rightarrow> (nat \<times> nat) list \<Rightarrow> 'b exn + (nat \<times> (nat \<times> nat) list) option" where
  "ifd_step big header offset sizes =
     (if offset = 0 \<or> \<not> offset + 2 \<le> length header then Inr None
      else case unpack1 big 2 header offset of
        Inl e \<Rightarrow> Inl e
      | Inr count \<Rightarrow>
          (let end = offset + 2 + count * 12 in
           if end + 4 > length header then Inr None
           else case read_entries big header offset [0..<count] [] of
             Inl e \<Rightarrow> Inl e
           | Inr dimensions \<Rightarrow>
               (let sizes' = (case (map_of dimensions IMAGE_WIDTH, map_of dimensions IMAGE_LENGTH) of
                                (Some w, Some l) \<Rightarrow> sizes @ [(w, l)]
                              | _ \<Rightarrow> sizes)
                in case unpack1 big 4 header end of
                     Inl e \<Rightarrow> Inl e
                   | Inr offset' \<Rightarrow> Inr (Some (offset', sizes')))))"

partial_function (option) walk_ifds ::
    "bool \<Rightarrow> 8 word list \<Rightarrow> nat \<Rightarrow> (nat \<times> nat) list \<Rightarrow> ('b exn + (nat \<times> nat) list) option" where
  "walk_ifds big header offset sizes =
     (case ifd_step big header offset sizes of
        Inl e \<Rightarrow> Some (Inl e)
      | Inr None \<Rightarrow> Some (Inr sizes)
      | Inr (Some (offset', sizes')) \<Rightarrow> walk_ifds big header offset' sizes')"

definition byte_order :: "8 word list \<Rightarrow> bool option" where
  "byte_order header =
     (if take 2 header = [0x49, 0x49] then Some False
      else if take 2 header = [0x4D, 0x4D] then Some True else None)"

definition parse_ifds :: "8 word list \<Rightarrow> ('b exn + (nat \<times> nat) list) option" where
  "parse_ifds header =
     (if length header < 8 then Some (Inl (ValueError NotATiff))
      else case byte_order header of
        None \<Rightarrow> Some (Inl (ValueError NotATiff))
      | Some big \<Rightarrow>
          (case unpack2 big 2 4 header 2 of
             Inl e \<Rightarrow> Some (Inl e)
           | Inr (version, offset) \<Rightarrow>
               if version \<noteq> 42 then Some (Inl (ValueError (UnsupportedVersion version)))
               else walk_ifds big header offset []))"

lemmas walk_unfold = walk_ifds.simps

subsection \<open>No read leaves the header\<close>

lemma read_entries_total:
  assumes "\<forall>i \<in> set is. offset + 2 + i * 12 + 12 \<le> length header"
  shows "\<exists>d. read_entries big header offset is dims = (Inr d :: 'b exn + _)"
  using assms
proof (induction "is" arbitrary: dims)
  case (Cons i "is")
  then show ?case
    by (auto simp: Let_def unpack1_def unpack2_def)
qed simp

text \<open>What one IFD contributes and where it points, when the loop does not end at it.\<close>

definition ifd_next :: "bool \<Rightarrow> 8 word list \<Rightarrow> nat \<Rightarrow> nat option" where
  "ifd_next big header offset =
     (let end = offset + 2 + field_at big 2 header offset * 12 in
      if offset = 0 \<or> length header < offset + 2 \<or> length header < end + 4 then None
      else Some (field_at big 4 header end))"

definition ifd_size :: "bool \<Rightarrow> 8 word list \<Rightarrow> nat \<Rightarrow> (nat \<times> nat) list" where
  "ifd_size big header offset =
     (case (read_entries big header offset [0..<field_at big 2 header offset] [] :: unit exn + _) of
        Inl e \<Rightarrow> []
      | Inr d \<Rightarrow> (case (map_of d IMAGE_WIDTH, map_of d IMAGE_LENGTH) of
          (Some w, Some l) \<Rightarrow> [(w, l)] | _ \<Rightarrow> []))"

lemma unpack_cong:
  "unpack1 big w h off = (Inr x :: 'b exn + _) \<longleftrightarrow> unpack1 big w h off = (Inr x :: 'c exn + _)"
  "unpack2 big w w' h off = (Inr y :: 'b exn + _) \<longleftrightarrow> unpack2 big w w' h off = (Inr y :: 'c exn + _)"
  by (auto simp: unpack1_def unpack2_def)

lemma read_entries_cong:
  "read_entries big h off is d = (Inr x :: 'b exn + _) \<Longrightarrow> read_entries big h off is d = (Inr x :: 'c exn + _)"
proof (induction "is" arbitrary: d)
  case (Cons i "is")
  then show ?case
    by (auto simp: Let_def unpack1_def unpack2_def split: if_splits)
qed simp

lemma ifd_step_eq:
  "ifd_step big header offset sizes =
     (Inr (map_option (\<lambda>o'. (o', sizes @ ifd_size big header offset)) (ifd_next big header offset))
        :: 'b exn + _)"
proof (cases "ifd_next big header offset")
  case None
  then show ?thesis
    by (auto simp: ifd_next_def ifd_step_def unpack1_def Let_def split: if_splits)
next
  case (Some next')
  define count where "count = field_at big 2 header offset"
  have fits: "offset \<noteq> 0" "offset + 2 + count * 12 + 4 \<le> length header"
    and next': "next' = field_at big 4 header (offset + 2 + count * 12)"
    using Some by (auto simp: ifd_next_def count_def Let_def split: if_splits)
  have "\<forall>i \<in> set [0..<count]. offset + 2 + i * 12 + 12 \<le> length header"
    using fits by auto
  from read_entries_total [OF this] obtain d
    where d: "read_entries big header offset [0..<count] [] = (Inr d :: 'b exn + _)" by blast
  then have d': "read_entries big header offset [0..<count] [] = (Inr d :: unit exn + _)"
    by (rule read_entries_cong)
  show ?thesis
    using fits d d' Some next'
    by (auto simp: ifd_step_def ifd_size_def unpack1_def Let_def count_def [symmetric]
        split: option.splits)
qed

lemma walk_step:
  "walk_ifds big header offset sizes =
     (case ifd_next big header offset of
        None \<Rightarrow> Some (Inr sizes :: 'b exn + _)
      | Some o' \<Rightarrow> walk_ifds big header o' (sizes @ ifd_size big header offset))"
  by (subst walk_unfold) (simp add: ifd_step_eq split: option.split)

subsection \<open>The chain of offsets, and when the walk ends\<close>

fun ifd_chain :: "bool \<Rightarrow> 8 word list \<Rightarrow> nat \<Rightarrow> nat \<Rightarrow> nat option" where
  "ifd_chain big header offset 0 = Some offset"
| "ifd_chain big header offset (Suc n) =
     (case ifd_next big header offset of None \<Rightarrow> None | Some o' \<Rightarrow> ifd_chain big header o' n)"

lemma ifd_chain_add:
  "ifd_chain big header offset (m + n) =
     (case ifd_chain big header offset m of None \<Rightarrow> None | Some o' \<Rightarrow> ifd_chain big header o' n)"
  by (induction m arbitrary: offset) (auto split: option.split)

lemma ifd_next_bound: "ifd_next big header offset = Some o' \<Longrightarrow> offset < length header"
  by (auto simp: ifd_next_def Let_def split: if_splits)

lemma chain_ends_walk:
  "ifd_chain big header offset n = None \<Longrightarrow>
     \<exists>r. walk_ifds big header offset sizes = (Some (Inr r) :: ('b exn + _) option)"
proof (induction n arbitrary: offset sizes)
  case (Suc n)
  show ?case
  proof (cases "ifd_next big header offset")
    case (Some o')
    with Suc.prems have "ifd_chain big header o' n = None" by simp
    from Suc.IH [OF this] show ?thesis by (subst walk_step) (simp add: Some)
  qed (subst walk_step, simp)
qed simp

lemma walk_ends_chain:
  assumes "walk_ifds big header offset sizes = Some (r :: 'b exn + _)"
  shows "\<exists>n. ifd_chain big header offset n = None"
proof (rule walk_ifds.raw_induct [OF _ assms])
  fix walk :: "bool \<Rightarrow> 8 word list \<Rightarrow> nat \<Rightarrow> (nat \<times> nat) list \<Rightarrow> ('b exn + (nat \<times> nat) list) option"
  fix big header offset sizes r
  assume IH: "\<And>big header offset sizes r. walk big header offset sizes = Some r \<Longrightarrow>
      \<exists>n. ifd_chain big header offset n = None"
    and run: "(case ifd_step big header offset sizes of Inl e \<Rightarrow> Some (Inl e) | Inr None \<Rightarrow> Some (Inr sizes)
      | Inr (Some (offset', sizes')) \<Rightarrow> walk big header offset' sizes') = Some r"
  show "\<exists>n. ifd_chain big header offset n = None"
  proof (cases "ifd_next big header offset")
    case None
    then have "ifd_chain big header offset (Suc 0) = None" by simp
    then show ?thesis by blast
  next
    case (Some o')
    with run have "walk big header o' (sizes @ ifd_size big header offset) = Some r"
      by (simp add: ifd_step_eq)
    from IH [OF this] obtain n where "ifd_chain big header o' n = None" by blast
    with Some have "ifd_chain big header offset (Suc n) = None" by simp
    then show ?thesis by blast
  qed
qed

text \<open>The walk comes back to an offset it has been at, within as many steps as there are bytes.\<close>

definition chain_revisits :: "bool \<Rightarrow> 8 word list \<Rightarrow> nat \<Rightarrow> bool" where
  "chain_revisits big header offset \<longleftrightarrow>
     (\<exists>j \<in> {..length header}. \<exists>i \<in> {..<j}.
        ifd_chain big header offset j \<noteq> None
        \<and> ifd_chain big header offset i = ifd_chain big header offset j)"

lemma revisit_never_ends:
  assumes same: "ifd_chain big header offset i = ifd_chain big header offset j" and "i < j"
    and some: "ifd_chain big header offset j \<noteq> None"
  shows "ifd_chain big header offset n \<noteq> None"
proof (induction n rule: less_induct)
  case (less n)
  show ?case
  proof (cases "n \<le> j")
    case True
    then obtain k where "j = n + k" using le_Suc_ex by blast
    with some show ?thesis by (auto simp: ifd_chain_add split: option.splits)
  next
    case False
    then obtain k where n: "n = j + k" using nat_le_linear le_Suc_ex by blast
    have "ifd_chain big header offset n = ifd_chain big header offset (i + k)"
      by (simp add: n ifd_chain_add same)
    with less.IH [of "i + k"] n \<open>i < j\<close> show ?thesis by simp
  qed
qed

lemma in_bounds_revisit:
  assumes some: "\<And>n. n \<le> Suc (length header) \<Longrightarrow> ifd_chain big header offset n \<noteq> None"
  shows "chain_revisits big header offset"
proof -
  define f where "f n = the (ifd_chain big header offset n)" for n
  have f: "ifd_chain big header offset n = Some (f n)" if "n \<le> Suc (length header)" for n
    using some [OF that] by (simp add: f_def)
  have "f n < length header" if "n \<le> length header" for n
  proof -
    have "ifd_chain big header offset (n + Suc 0) \<noteq> None"
      by (rule some) (use that in simp)
    then have "ifd_next big header (f n) \<noteq> None"
      using f [of n] that by (simp only: ifd_chain_add option.case ifd_chain.simps le_SucI) (auto split: option.splits)
    then show ?thesis by (auto dest: ifd_next_bound)
  qed
  then have "f ` {..length header} \<subseteq> {..<length header}" by auto
  then have "\<not> inj_on f {..length header}"
    using card_inj_on_le [of f "{..length header}" "{..<length header}"] by auto
  then obtain i j where ij: "i \<le> length header" "j \<le> length header" "i \<noteq> j" "f i = f j"
    by (auto simp: inj_on_def)
  then have "\<exists>i j. j \<le> length header \<and> i < j \<and> f i = f j"
    by (cases "i < j") (metis nat_neq_iff)+
  then show ?thesis by (force simp: chain_revisits_def f)
qed

lemma walk_returns_iff:
  "(\<exists>r. walk_ifds big header offset sizes = Some (r :: 'b exn + _)) \<longleftrightarrow>
     \<not> chain_revisits big header offset"
proof
  assume "\<exists>r. walk_ifds big header offset sizes = Some (r :: 'b exn + _)"
  then obtain n where "ifd_chain big header offset n = None" using walk_ends_chain by blast
  then show "\<not> chain_revisits big header offset"
    unfolding chain_revisits_def using revisit_never_ends by (metis lessThan_iff)
next
  assume "\<not> chain_revisits big header offset"
  then obtain n where "ifd_chain big header offset n = None"
    using in_bounds_revisit by blast
  then show "\<exists>r. walk_ifds big header offset sizes = Some (r :: 'b exn + _)"
    using chain_ends_walk by blast
qed

lemma walk_endless:
  "chain_revisits big header offset \<Longrightarrow> walk_ifds big header offset sizes = (None :: ('b exn + _) option)"
  using walk_returns_iff [of big header offset sizes, where 'b = 'b] by (metis option.exhaust)

text \<open>The walk of a header that is a classic TIFF: its byte order and its first offset.\<close>

definition tiff_start :: "8 word list \<Rightarrow> (bool \<times> nat) option" where
  "tiff_start header =
     (if length header < 8 then None
      else case byte_order header of
        None \<Rightarrow> None
      | Some big \<Rightarrow> if field_at big 2 header 2 = 42 then Some (big, field_at big 4 header 4) else None)"

lemma parse_ifds_start:
  "tiff_start header = Some (big, offset) \<Longrightarrow> parse_ifds header = walk_ifds big header offset []"
  by (auto simp: tiff_start_def parse_ifds_def unpack2_def split: if_splits option.splits)

text \<open>The directories the walk goes through, at most \<open>n\<close> of them.\<close>

fun ifds_visited :: "bool \<Rightarrow> 8 word list \<Rightarrow> nat \<Rightarrow> nat \<Rightarrow> nat list" where
  "ifds_visited big header offset 0 = []"
| "ifds_visited big header offset (Suc n) =
     (case ifd_next big header offset of
        None \<Rightarrow> [] | Some o' \<Rightarrow> offset # ifds_visited big header o' n)"

lemma walk_visited:
  "ifd_chain big header offset n = None \<Longrightarrow>
     walk_ifds big header offset sizes =
       (Some (Inr (sizes @ concat (map (ifd_size big header) (ifds_visited big header offset n))))
          :: ('b exn + _) option)"
proof (induction n arbitrary: offset sizes)
  case (Suc n)
  show ?case
  proof (cases "ifd_next big header offset")
    case (Some o')
    with Suc.prems have "ifd_chain big header o' n = None" by simp
    from Suc.IH [OF this] show ?thesis by (subst walk_step) (simp add: Some)
  qed (subst walk_step, simp)
qed simp

lemma chain_ends_in_time:
  assumes "\<not> chain_revisits big header offset"
  shows "ifd_chain big header offset (Suc (length header)) = None"
proof (rule ccontr)
  assume far: "ifd_chain big header offset (Suc (length header)) \<noteq> None"
  have upto: "ifd_chain big header offset n \<noteq> None" if "n \<le> Suc (length header)" for n
  proof -
    from that obtain k where "Suc (length header) = n + k" using le_Suc_ex by blast
    with far show ?thesis by (simp only: ifd_chain_add) (auto split: option.splits)
  qed
  show False using in_bounds_revisit [OF upto] assms by blast
qed

text \<open>
  C22. The whole behaviour of \<open>parse_ifds\<close>. On a header that is not a classic TIFF it raises
  \<open>ValueError\<close>; when the chain of directories comes back to an offset it never returns; in
  every other case it returns the sizes of the directories in chain order, at most one pass per
  byte of the header, and never reads outside the header.
\<close>

theorem parse_ifds_behaviour:
  "parse_ifds header =
     (case tiff_start header of
        None \<Rightarrow> Some (Inl (ValueError
          (if length header < 8 \<or> byte_order header = None then NotATiff
           else UnsupportedVersion (field_at (byte_order header = Some True) 2 header 2))))
      | Some (big, offset) \<Rightarrow>
          if chain_revisits big header offset then None
          else Some (Inr (concat (map (ifd_size big header)
                 (ifds_visited big header offset (Suc (length header)))))
               :: 'b exn + (nat \<times> nat) list))"
proof (cases "tiff_start header")
  case None
  then show ?thesis
    by (auto simp: tiff_start_def parse_ifds_def unpack2_def split: if_splits option.splits)
next
  case (Some s)
  obtain big offset where s: "s = (big, offset)" by fastforce
  show ?thesis
  proof (cases "chain_revisits big header offset")
    case True
    with Some s show ?thesis by (simp add: parse_ifds_start walk_endless)
  next
    case False
    then show ?thesis
      using Some s walk_visited [OF chain_ends_in_time [OF False], where sizes = "[]" and 'b = 'b]
      by (simp add: parse_ifds_start)
  qed
qed

text \<open>A file of fourteen bytes whose only directory points at itself.\<close>

definition self_linked :: "8 word list" where
  "self_linked = [0x49, 0x49, 0x2A, 0, 8, 0, 0, 0, 0, 0, 8, 0, 0, 0]"

lemma self_linked_never_returns: "parse_ifds self_linked = (None :: ('b exn + (nat \<times> nat) list) option)"
proof -
  have start: "tiff_start self_linked = Some (False, 8)"
    by (simp add: self_linked_def tiff_start_def byte_order_def field_at_def Let_def)
  have "ifd_next False self_linked 8 = Some 8"
    by (simp add: self_linked_def ifd_next_def field_at_def Let_def)
  then have "ifd_chain False self_linked 8 0 = Some 8" "ifd_chain False self_linked 8 (Suc 0) = Some 8"
    by simp_all
  then have "chain_revisits False self_linked 8"
    unfolding chain_revisits_def
    by (intro bexI [of _ "Suc 0"] bexI [of _ 0]) (simp_all add: self_linked_def)
  then show ?thesis by (simp add: parse_ifds_start [OF start] walk_endless)
qed

subsection \<open>Files with one directory per level\<close>

text \<open>
  \<open>struct.pack\<close> of a value that fits, and the file the tests build: the header, then one
  directory of two \<open>LONG\<close> entries per size, each pointing at the next.
\<close>

fun le_bytes :: "nat \<Rightarrow> nat \<Rightarrow> 8 word list" where
  "le_bytes 0 n = []"
| "le_bytes (Suc w) n = word_of_nat n # le_bytes w (n div 256)"

definition size_entry :: "nat \<Rightarrow> nat \<Rightarrow> 8 word list" where
  "size_entry tag v = le_bytes 2 tag @ le_bytes 2 4 @ le_bytes 4 1 @ le_bytes 4 v"

fun build_ifds :: "nat \<Rightarrow> (nat \<times> nat) list \<Rightarrow> 8 word list" where
  "build_ifds offset [] = []"
| "build_ifds offset ((width, height) # sizes) =
     le_bytes 2 2 @ size_entry IMAGE_WIDTH width @ size_entry IMAGE_LENGTH height
     @ le_bytes 4 (if sizes = [] then 0 else offset + 30) @ build_ifds (offset + 30) sizes"

definition build_tiff :: "(nat \<times> nat) list \<Rightarrow> 8 word list" where
  "build_tiff sizes = [0x49, 0x49] @ le_bytes 2 42 @ le_bytes 4 8 @ build_ifds 8 sizes"

lemma length_le_bytes [simp]: "length (le_bytes w n) = w"
  by (induction w arbitrary: n) simp_all

lemma le_bytes_value: "n < 256 ^ w \<Longrightarrow> horner_sum unat 256 (le_bytes w n) = n"
proof (induction w arbitrary: n)
  case (Suc w)
  have "n div 256 < 256 ^ w" using Suc.prems by (simp add: less_mult_imp_div_less mult.commute)
  moreover have "unat (word_of_nat n :: 8 word) = n mod 256"
    by (simp add: unat_of_nat)
  ultimately show ?case using Suc.IH by simp
qed simp

lemma length_size_entry [simp]: "length (size_entry tag v) = 12"
  by (simp add: size_entry_def)

text \<open>Reading at an offset of the file is reading at the same distance into what begins there.\<close>

lemma field_at_skip: "length pre \<le> d \<Longrightarrow> field_at big w (pre @ bs) d = field_at big w bs (d - length pre)"
  by (simp add: field_at_def)

lemma field_at_Cons: "0 < d \<Longrightarrow> field_at big w (b # bs) d = field_at big w bs (d - 1)"
  by (cases d) (simp_all add: field_at_def)

lemma field_at_here: "n < 256 ^ w \<Longrightarrow> field_at False w (le_bytes w n @ post) 0 = n"
  by (simp add: field_at_def le_bytes_value)

lemmas field_simps = field_at_skip field_at_Cons field_at_here

lemma size_entry_fields:
  assumes "tag < 65536" and "v < 4294967296"
  shows "field_at False 2 (size_entry tag v @ post) 0 = tag"
    and "field_at False 2 (size_entry tag v @ post) 2 = 4"
    and "field_at False 4 (size_entry tag v @ post) 8 = v"
  using assms by (simp_all add: size_entry_def field_simps field_at_here [of _ _ "[]", simplified])

lemma directory_fields:
  fixes pre post :: "8 word list"
  assumes "w < 4294967296" and "h < 4294967296" and "link < 4294967296"
  defines "hdr \<equiv> pre @ le_bytes 2 2 @ size_entry IMAGE_WIDTH w @ size_entry IMAGE_LENGTH h
    @ le_bytes 4 link @ post"
  shows "field_at False 2 hdr (length pre) = 2"
    and "field_at False 2 hdr (length pre + 2) = IMAGE_WIDTH"
    and "field_at False 2 hdr (length pre + 4) = 4"
    and "field_at False 4 hdr (length pre + 10) = w"
    and "field_at False 2 hdr (length pre + 14) = IMAGE_LENGTH"
    and "field_at False 2 hdr (length pre + 16) = 4"
    and "field_at False 4 hdr (length pre + 22) = h"
    and "field_at False 4 hdr (length pre + 26) = link"
    and "length pre + 30 \<le> length hdr"
  using assms(1-3)
  by (simp_all add: hdr_def field_simps size_entry_fields IMAGE_WIDTH_def IMAGE_LENGTH_def)

lemma directory_walk:
  fixes pre post :: "8 word list"
  assumes "w < 4294967296" and "h < 4294967296" and "link < 4294967296" and "pre \<noteq> []"
  defines "hdr \<equiv> pre @ le_bytes 2 2 @ size_entry IMAGE_WIDTH w @ size_entry IMAGE_LENGTH h
    @ le_bytes 4 link @ post"
  shows "ifd_next False hdr (length pre) = Some link" and "ifd_size False hdr (length pre) = [(w, h)]"
proof -
  note fields = directory_fields [OF assms(1-3), of pre post, folded hdr_def]
  show "ifd_next False hdr (length pre) = Some link"
    using fields assms(4) by (simp add: ifd_next_def ac_simps)
  have "read_entries False hdr (length pre) [0..<2] []
      = (Inr [(IMAGE_WIDTH, w), (IMAGE_LENGTH, h)] :: unit exn + _)"
    using fields
    by (simp add: upt_rec unpack1_def unpack2_def TYPE_SHORT_def IMAGE_WIDTH_def IMAGE_LENGTH_def ac_simps
        del: add_2_eq_Suc add_2_eq_Suc')
  then show "ifd_size False hdr (length pre) = [(w, h)]"
    using fields(1) by (simp add: ifd_size_def IMAGE_WIDTH_def IMAGE_LENGTH_def)
qed

lemma length_build_ifds [simp]: "length (build_ifds offset sizes) = 30 * length sizes"
  by (induction offset sizes rule: build_ifds.induct) simp_all

lemma walk_build_ifds:
  assumes "\<forall>(w, h) \<in> set sizes. w < 4294967296 \<and> h < 4294967296"
    and "length pre + 30 * length sizes < 4294967296" and "pre \<noteq> []" and "sizes \<noteq> []"
  shows "walk_ifds False (pre @ build_ifds (length pre) sizes) (length pre) acc
    = (Some (Inr (acc @ sizes)) :: ('b exn + _) option)"
  using assms
proof (induction sizes arbitrary: pre acc)
  case (Cons s sizes)
  obtain w h where s: "s = (w, h)" by fastforce
  define link where "link = (if sizes = [] then 0 else length pre + 30)"
  define dir where "dir = le_bytes 2 2 @ size_entry IMAGE_WIDTH w @ size_entry IMAGE_LENGTH h @ le_bytes 4 link"
  have len: "length (pre @ dir) = length pre + 30" by (simp add: dir_def)
  have hdr: "pre @ build_ifds (length pre) (s # sizes)
      = (pre @ dir) @ build_ifds (length (pre @ dir)) sizes"
    unfolding len by (simp add: s dir_def link_def)
  have bounds: "w < 4294967296" "h < 4294967296" "link < 4294967296"
    using Cons.prems by (auto simp: s link_def neq_Nil_conv)
  note here = directory_walk [OF bounds Cons.prems(3), of "build_ifds (length (pre @ dir)) sizes"]
  have step: "ifd_next False (pre @ build_ifds (length pre) (s # sizes)) (length pre) = Some link"
    "ifd_size False (pre @ build_ifds (length pre) (s # sizes)) (length pre) = [(w, h)]"
    using here unfolding hdr by (simp_all add: dir_def)
  show ?case
  proof (cases "sizes = []")
    case True
    have "ifd_next False header 0 = None" for header by (simp add: ifd_next_def Let_def)
    then show ?thesis
      by (subst walk_step, subst walk_step) (use step True s in \<open>simp add: link_def\<close>)
  next
    case False
    have rest: "walk_ifds False ((pre @ dir) @ build_ifds (length (pre @ dir)) sizes) (length (pre @ dir)) (acc @ [(w, h)])
        = (Some (Inr ((acc @ [(w, h)]) @ sizes)) :: ('b exn + _) option)"
      by (rule Cons.IH) (use Cons.prems False len in auto)
    have "link = length (pre @ dir)" using False len by (simp add: link_def)
    then show ?thesis
      by (subst walk_step) (use step rest hdr s in simp)
  qed
qed simp

text \<open>
  C34. Round trip: the sizes of a file built with one directory per level are read back exactly,
  in order, as long as they and the offsets fit the file format's 32 bits.
\<close>

theorem parse_ifds_build_tiff:
  assumes "\<forall>(w, h) \<in> set sizes. w < 2 ^ 32 \<and> h < 2 ^ 32" and "8 + 30 * length sizes < 2 ^ 32"
  shows "parse_ifds (build_tiff sizes) = (Some (Inr sizes) :: ('b exn + _) option)"
proof -
  define pre where "pre = [0x49, 0x49] @ le_bytes 2 42 @ le_bytes 4 8"
  have pre: "length pre = 8" "pre \<noteq> []" by (simp_all add: pre_def)
  have layout: "build_tiff sizes = pre @ build_ifds (length pre) sizes"
    by (simp add: build_tiff_def pre_def)
  have "tiff_start (build_tiff sizes) = Some (False, 8)"
    by (simp add: build_tiff_def tiff_start_def byte_order_def field_simps)
  then have "parse_ifds (build_tiff sizes) = (walk_ifds False (build_tiff sizes) 8 [] :: ('b exn + _) option)"
    by (rule parse_ifds_start)
  also have "\<dots> = Some (Inr sizes)"
  proof (cases "sizes = []")
    case True
    then have "ifd_next False (build_tiff sizes) 8 = None"
      by (simp add: ifd_next_def build_tiff_def Let_def)
    with True show ?thesis by (subst walk_step) simp
  next
    case False
    then show ?thesis
      using walk_build_ifds [of sizes pre "[]", where 'b = 'b] assms pre by (simp add: layout)
  qed
  finally show ?thesis .
qed

end
