(* ===== verification/Granule_Attrs.thy ===== *)
theory Granule_Attrs
  imports Arrow
begin

text \<open>
  \<open>src/icechest/demo/conventions.py\<close>: the Zarr convention attributes of a band group, computed
  from the STAC record. Paths are strings, attributes JSON values; the affine's arithmetic is
  the abstract \<open>float_ops\<close>.
\<close>

subsection \<open>Convention metadata\<close>

definition MULTISCALES_CONVENTION :: "'f json" where
  "MULTISCALES_CONVENTION = JObj
    [(''schema_url'', JStr ''https://raw.githubusercontent.com/zarr-conventions/multiscales/refs/tags/v0.1/schema.json''),
     (''spec_url'', JStr ''https://github.com/zarr-conventions/multiscales/blob/v0.1/README.md''),
     (''uuid'', JStr ''d35379db-88df-4056-af3a-620245f8e347''),
     (''name'', JStr ''multiscales''),
     (''description'', JStr ''Multiscale layout of zarr datasets'')]"

definition PROJ_CONVENTION :: "'f json" where
  "PROJ_CONVENTION = JObj
    [(''schema_url'', JStr ''https://raw.githubusercontent.com/zarr-conventions/proj/refs/tags/v0.1/schema.json''),
     (''spec_url'', JStr ''https://github.com/zarr-conventions/proj/blob/v0.1/README.md''),
     (''uuid'', JStr ''f17cb550-5864-4468-aeb7-f3180cfb622f''),
     (''name'', JStr ''proj''),
     (''description'', JStr ''Coordinate reference system information for geospatial data'')]"

definition SPATIAL_CONVENTION :: "'f json" where
  "SPATIAL_CONVENTION = JObj
    [(''schema_url'', JStr ''https://raw.githubusercontent.com/zarr-conventions/spatial/refs/tags/v0.1/schema.json''),
     (''spec_url'', JStr ''https://github.com/zarr-conventions/spatial/blob/v0.1/README.md''),
     (''uuid'', JStr ''689b58e2-cf7b-45e0-9fff-9cfc0883d6b4''),
     (''name'', JStr ''spatial''),
     (''description'', JStr ''Spatial coordinate information'')]"

definition MULTISCALES_GROUP :: string where
  "MULTISCALES_GROUP = ''multiscales''"

definition LEVEL_ASSET_PREFIX :: string where
  "LEVEL_ASSET_PREFIX = MULTISCALES_GROUP @ ''/''"

subsection \<open>The pyramid\<close>

definition level_path :: "string \<Rightarrow> nat \<Rightarrow> string \<Rightarrow> string" where
  "level_path pre level array_name = pre @ dec level @ ''/'' @ array_name"

definition layout_entry :: "string \<Rightarrow> string \<Rightarrow> nat \<Rightarrow> 'f json" where
  "layout_entry pre array_name level = JObj
    [(''asset'', JStr (level_path pre level array_name)),
     (''derived_from'', JStr (level_path pre (level - 1) array_name)),
     (''transform'', JObj [(''scale'', JList [JInt 2, JInt 2])])]"

definition multiscale_layout :: "nat \<Rightarrow> string \<Rightarrow> string \<Rightarrow> 'f json list" where
  "multiscale_layout levels array_name pre =
     JObj [(''asset'', JStr (level_path pre 0 array_name))]
     # map (layout_entry pre array_name) [1..<levels]"

subsection \<open>The attributes\<close>

definition granule_attrs ::
    "('f, 'z) float_ops_scheme \<Rightarrow> 'f json \<Rightarrow> 'f json \<Rightarrow> 'f json \<Rightarrow> nat \<Rightarrow> string \<Rightarrow> string
     \<Rightarrow> 'b exn + 'f row" where
  "granule_attrs F epsg shape transform levels array_name pre =
     rbind (rbind (py_index shape 0) (py_int F)) (\<lambda>rows.
     rbind (rbind (py_index shape 1) (py_int F)) (\<lambda>cols.
     rbind (rbind (py_prefix transform 6) (rmap (py_float F))) (\<lambda>affine.
     rbind (list_index affine 2) (\<lambda>xmin.
     rbind (list_index affine 5) (\<lambda>ymax.
     rbind (list_index affine 0) (\<lambda>width.
     rbind (list_index affine 4) (\<lambda>height.
     rbind (py_int F epsg) (\<lambda>code.
     let xmax = float_add F xmin (float_mul F (float_of_int F cols) width);
         ymin = float_add F ymax (float_mul F (float_of_int F rows) height)
     in Inr
       [(''zarr_conventions'', JList [MULTISCALES_CONVENTION, PROJ_CONVENTION, SPATIAL_CONVENTION]),
        (''proj:code'', JStr (''EPSG:'' @ dec_int code)),
        (''spatial:shape'', JList [JInt rows, JInt cols]),
        (''spatial:dimensions'', JList [JStr ''y'', JStr ''x'']),
        (''spatial:transform'', JList (map JFloat affine)),
        (''spatial:bbox'', JList [JFloat xmin, JFloat ymin, JFloat xmax, JFloat ymax]),
        (''multiscales'', JObj [(''layout'', JList (multiscale_layout levels array_name pre))])]))))))))"

subsection \<open>What the layout declares\<close>

text \<open>Reading a layout back: the paths it names, and what each level derives from.\<close>

definition entry_path :: "string \<Rightarrow> 'f json \<Rightarrow> string option" where
  "entry_path key e =
     (case e of JObj d \<Rightarrow> (case map_of d key of Some (JStr p) \<Rightarrow> Some p | _ \<Rightarrow> None) | _ \<Rightarrow> None)"

lemma layout_entry_paths [simp]:
  "entry_path ''asset'' (layout_entry pre a l) = Some (level_path pre l a)"
  "entry_path ''derived_from'' (layout_entry pre a l) = Some (level_path pre (l - 1) a)"
  by (simp_all add: entry_path_def layout_entry_def)

lemma first_entry_paths [simp]:
  "entry_path ''asset'' (JObj [(''asset'', JStr p)]) = Some p"
  "entry_path ''derived_from'' (JObj [(''asset'', JStr p)]) = None"
  by (simp_all add: entry_path_def)

lemma butlast_range: "butlast [0..<n] = [0..<n - 1]"
  by (cases n) simp_all

lemma multiscale_layout_assets:
  "map (entry_path ''asset'') (multiscale_layout levels a pre) = map (\<lambda>l. Some (level_path pre l a)) [0..<max 1 levels]"
proof -
  have "[0..<max 1 levels] = 0 # [1..<levels]"
    by (cases "levels = 0") (simp_all add: upt_conv_Cons max_def)
  then show ?thesis
    by (simp add: multiscale_layout_def o_def)
qed

lemma multiscale_layout_derived:
  "map (entry_path ''derived_from'') (multiscale_layout levels a pre :: 'f json list)
     = None # map (entry_path ''asset'') (butlast (multiscale_layout levels a pre :: 'f json list))"
proof -
  have "map (entry_path ''asset'') (butlast (multiscale_layout levels a pre :: 'f json list))
      = map (\<lambda>l. Some (level_path pre l a)) [0..<max 1 levels - 1]"
    by (simp only: map_butlast multiscale_layout_assets) (simp add: butlast_range flip: map_butlast)
  moreover
  have "[1..<levels] = map Suc [0..<max 1 levels - 1]"
    by (cases levels) (simp_all add: map_Suc_upt)
  then have "map (entry_path ''derived_from'') (multiscale_layout levels a pre :: 'f json list)
      = None # map (\<lambda>l. Some (level_path pre l a)) [0..<max 1 levels - 1]"
    by (simp add: multiscale_layout_def o_def)
  ultimately show ?thesis by (simp only:)
qed

lemma level_path_inj: "level_path pre l a = level_path pre l' a \<longleftrightarrow> l = l'"
  by (simp add: level_path_def dec_inj)

text \<open>The pyramid a set of attributes declares.\<close>

definition declared_layout :: "'f row \<Rightarrow> 'f json list" where
  "declared_layout attrs =
     (case map_of attrs ''multiscales'' of
        Some (JObj d) \<Rightarrow> (case map_of d ''layout'' of Some (JList es) \<Rightarrow> es | _ \<Rightarrow> [])
      | _ \<Rightarrow> [])"

lemma granule_attrs_layout:
  assumes "granule_attrs F epsg shape transform levels a pre = (Inr attrs :: 'b exn + _)"
  shows "declared_layout attrs = multiscale_layout levels a pre"
  using assms by (auto simp: granule_attrs_def rbind_Inr_iff Let_def declared_layout_def)

text \<open>
  The pyramid the attributes declare: one entry per level (at least the first), whose asset is
  that level's array; every level but the first derives from the level before it, and the first
  from none.
\<close>

lemma granule_attrs_pyramid:
  assumes "granule_attrs F epsg shape transform levels a pre = (Inr attrs :: 'b exn + 'f row)"
  shows "map (entry_path ''asset'') (declared_layout attrs)
           = map (\<lambda>l. Some (level_path pre l a)) [0..<max 1 levels]
    \<and> map (entry_path ''derived_from'') (declared_layout attrs)
           = None # map (entry_path ''asset'') (butlast (declared_layout attrs))"
  by (simp only: granule_attrs_layout [OF assms] multiscale_layout_assets multiscale_layout_derived simp_thms)

end
