(* ===== verification/Virtualize.thy ===== *)
theory Virtualize
  imports Assets Tiff Granule_Attrs
begin

text \<open>
  \<open>src/icechest/demo/virtualize.py\<close>: opening every resolution level of a granule's bands and
  writing the references into a store. VirtualiZarr, obstore and the Zarr store are parameters
  (\<open>store_lib\<close>): \<open>'s\<close> is the store, \<open>'x\<close> a virtual dataset, \<open>'g\<close> the registry. The observation
  \<open>node\<close> says what is at a path of the store, the root being the empty path; \<open>store_law\<close> is what
  Zarr and \<open>to_icechunk\<close> document of it. A record's id is a string (\<open>row_id\<close>), and the names of a
  tree's children are decimal numerals.
\<close>

subsection \<open>Datasets, stores and paths\<close>

datatype 'f znode = Group "(string, 'f json) dict" | Array (array_path: string)

datatype open_result = Opened | NodeNotFound | OpenError string

record ('s, 'x, 'g, 'f) store_lib =
  open_virtual_datatree :: "string \<Rightarrow> 'g \<Rightarrow> nat option \<Rightarrow> string \<Rightarrow> string + (string, 'x) dict"
  resolve_url :: "'g \<Rightarrow> string \<Rightarrow> string + 'g \<times> string"
  get_range :: "'g \<Rightarrow> string \<Rightarrow> nat \<Rightarrow> nat \<Rightarrow> string + 8 word list"
  data_vars :: "'x \<Rightarrow> string list"
  dim_sizes :: "'x \<Rightarrow> (string, int) dict"
  rename_variable :: "'x \<Rightarrow> string \<Rightarrow> string \<Rightarrow> string + 'x"
  rename_paths :: "'x \<Rightarrow> string \<Rightarrow> 'x"
  to_icechunk :: "'s \<Rightarrow> string \<Rightarrow> 'x \<Rightarrow> (string + unit) \<times> 's"
  open_group_at :: "'s \<Rightarrow> string \<Rightarrow> (string + unit) \<times> 's"
  update_attrs_at :: "'s \<Rightarrow> string \<Rightarrow> (string, 'f json) dict \<Rightarrow> (string + unit) \<times> 's"
  zarr_open_r :: "'s \<Rightarrow> string \<Rightarrow> open_result"
  delete_dir :: "'s \<Rightarrow> string \<Rightarrow> (string + unit) \<times> 's"
  node :: "'s \<Rightarrow> string \<Rightarrow> 'f znode option"
  chunk_path :: "'x \<Rightarrow> string"

definition under :: "string \<Rightarrow> string \<Rightarrow> bool" where
  "under p q \<longleftrightarrow> q = p \<or> prefix (p @ ''/'') q"

text \<open>\<open>touched p q\<close>: working at \<open>p\<close> may create or change the node at \<open>q\<close>.\<close>

definition touched :: "string \<Rightarrow> string \<Rightarrow> bool" where
  "touched p q \<longleftrightarrow> under p q \<or> under q p"

subsection \<open>Reading\<close>

definition read_header ::
    "('s, 'x, 'g, 'f, 'z) store_lib_scheme \<Rightarrow> string \<Rightarrow> 'g \<Rightarrow> 'b exn + 8 word list" where
  "read_header S url registry =
     rbind (lib_result (resolve_url S registry url)) (\<lambda>(store, path).
     lib_result (get_range S store path 0 HEADER_BYTES))"

definition open_pyramid ::
    "('s, 'x, 'g, 'f, 'z) store_lib_scheme \<Rightarrow> string \<Rightarrow> 'g \<Rightarrow> 'b exn + (string, 'x) dict" where
  "open_pyramid S url registry = lib_result (open_virtual_datatree S url registry None ''nested'')"

record 'x granule_arrays =
  datasets :: "(string, (nat, 'x) dict) dict"
  band_levels :: "(string, nat) dict"
  grid_shape :: "int \<times> int"

text \<open>\<open>{int(key): node.to_dataset() for key, node in tree.children.items()}\<close>.\<close>

fun per_level :: "(string, 'x) dict \<Rightarrow> (nat, 'x) dict \<Rightarrow> 'b exn + (nat, 'x) dict" where
  "per_level [] acc = Inr acc"
| "per_level ((key, d) # children) acc =
     (case undec key of
        None \<Rightarrow> Inl (LibError ''ValueError'')
      | Some n \<Rightarrow> per_level children (dict_set n d acc))"

definition level0_shape :: "('s, 'x, 'g, 'f, 'z) store_lib_scheme \<Rightarrow> (nat, 'x) dict \<Rightarrow> 'b exn + int \<times> int" where
  "level0_shape S levels =
     (case map_of levels 0 of
        None \<Rightarrow> Inl (KeyError ''0'' [])
      | Some d \<Rightarrow> (case map_of (dim_sizes S d) ''y'' of
            None \<Rightarrow> Inl (KeyError ''y'' [])
          | Some y \<Rightarrow> (case map_of (dim_sizes S d) ''x'' of
                None \<Rightarrow> Inl (KeyError ''x'' [])
              | Some x \<Rightarrow> Inr (y, x))))"

definition granule_error :: "'f row \<Rightarrow> string \<Rightarrow> 'b exn + 'a" where
  "granule_error row problem = rbind (row_id row) (\<lambda>gid. Inl (GranuleError (gid @ '': '' @ problem)))"

text \<open>The loop over the URLs, with \<open>datasets\<close>, \<open>levels\<close> and \<open>shape\<close> as they grow.\<close>

fun open_bands ::
    "('s, 'x, 'g, 'f, 'z) store_lib_scheme \<Rightarrow> 'f row \<Rightarrow> 'g
     \<Rightarrow> (string \<Rightarrow> 'g \<Rightarrow> 'b exn + (string, 'x) dict) \<Rightarrow> (string, string) dict
     \<Rightarrow> (string, (nat, 'x) dict) dict \<Rightarrow> (string, nat) dict \<Rightarrow> (int \<times> int) option
     \<Rightarrow> 'b exn + (string, (nat, 'x) dict) dict \<times> (string, nat) dict \<times> (int \<times> int) option" where
  "open_bands S row registry opener [] ds ls shape = Inr (ds, ls, shape)"
| "open_bands S row registry opener ((band, url) # urls) ds ls shape =
     rbind (opener url registry) (\<lambda>tree.
     rbind (per_level tree []) (\<lambda>levels.
     if levels = [] then granule_error row (''no readable levels in '' @ band)
     else
       rbind (case shape of
                None \<Rightarrow> rbind (level0_shape S levels) (\<lambda>s. Inr (Some s))
              | Some s \<Rightarrow> Inr (Some s)) (\<lambda>shape'.
       open_bands S row registry opener urls (dict_set band levels ds)
         (dict_set band (length levels) ls) shape')))"

definition expected_shape :: "('f, 'z) float_ops_scheme \<Rightarrow> 'f row \<Rightarrow> 'b exn + int \<times> int" where
  "expected_shape F row =
     rbind (rbind (rbind (item row ''proj:shape'') (\<lambda>v. py_index v 0)) (py_int F)) (\<lambda>rows.
     rbind (rbind (rbind (item row ''proj:shape'') (\<lambda>v. py_index v 1)) (py_int F)) (\<lambda>cols.
     Inr (rows, cols)))"

definition virtual_granule ::
    "('f :: zero, 'y) float_ops_scheme \<Rightarrow> ('s, 'x, 'g, 'f, 'z) store_lib_scheme \<Rightarrow> 'f row \<Rightarrow> 'g
     \<Rightarrow> string list \<Rightarrow> string \<Rightarrow> (string \<Rightarrow> 'g \<Rightarrow> 'b exn + (string, 'x) dict)
     \<Rightarrow> 'b exn + 'x granule_arrays" where
  "virtual_granule F S row registry bands access opener =
     rbind (asset_urls row bands access) (\<lambda>urls.
     if urls = [] then granule_error row ''no assets among the bands''
     else
       rbind (open_bands S row registry opener urls [] [] None) (\<lambda>(ds, ls, shape).
       rbind (expected_shape F row) (\<lambda>expected.
       if shape \<noteq> Some expected then granule_error row ''proj:shape disagrees with the COG''
       else Inr \<lparr>datasets = ds, band_levels = ls, grid_shape = expected\<rparr>)))"

subsection \<open>Writing\<close>

definition store_call :: "('s \<Rightarrow> (string + 'a) \<times> 's) \<Rightarrow> ('s, 'b exn, 'a) pgm" where
  "store_call f s = (case f s of (r, s') \<Rightarrow> (lib_result r, s'))"

definition level_group :: "string \<Rightarrow> string \<Rightarrow> nat \<Rightarrow> string" where
  "level_group gid band level =
     ''/'' @ gid @ ''/'' @ band @ ''/'' @ MULTISCALES_GROUP @ ''/'' @ dec level"

definition band_group :: "string \<Rightarrow> string \<Rightarrow> string" where
  "band_group gid band = ''/'' @ gid @ ''/'' @ band"

definition write_level ::
    "('s, 'x, 'g, 'f, 'z) store_lib_scheme \<Rightarrow> string \<Rightarrow> string \<Rightarrow> string \<Rightarrow> nat \<times> 'x
     \<Rightarrow> ('s, 'b exn, unit) pgm" where
  "write_level S gid band reference =
     (\<lambda>(level, dataset).
       case data_vars S dataset of
         [v] \<Rightarrow>
           pbind (plift (lib_result (rename_variable S dataset v band))) (\<lambda>leveled.
           store_call (\<lambda>s. to_icechunk S s (level_group gid band level) (rename_paths S leveled reference)))
       | _ \<Rightarrow> praise (GranuleError (gid @ '': expected one variable per level in '' @ band)))"

text \<open>\<open>row["assets"][band]["href"]\<close>, rewritten relative to the container.\<close>

definition band_reference :: "'f row \<Rightarrow> string \<Rightarrow> 'b exn + string" where
  "band_reference row band =
     rbind (rbind (rbind (item row ''assets'') (\<lambda>a. py_item a band)) (\<lambda>b. py_item b ''href'')) (\<lambda>h.
     case h of JStr href \<Rightarrow> to_vcc_url href | _ \<Rightarrow> Inl AttributeError)"

definition band_attrs ::
    "('f, 'y) float_ops_scheme \<Rightarrow> 'f row \<Rightarrow> nat \<Rightarrow> string \<Rightarrow> 'b exn + 'f row" where
  "band_attrs F row levels band =
     rbind (item row ''proj:epsg'') (\<lambda>epsg.
     rbind (item row ''proj:shape'') (\<lambda>shape.
     rbind (item row ''proj:transform'') (\<lambda>transform.
     granule_attrs F epsg shape transform levels band LEVEL_ASSET_PREFIX)))"

definition write_band ::
    "('f, 'y) float_ops_scheme \<Rightarrow> ('s, 'x, 'g, 'f, 'z) store_lib_scheme \<Rightarrow> 'f row \<Rightarrow> string
     \<Rightarrow> (string, nat) dict \<Rightarrow> string \<times> (nat, 'x) dict \<Rightarrow> ('s, 'b exn, unit) pgm" where
  "write_band F S row gid levels =
     (\<lambda>(band, per_level).
       pbind (plift (band_reference row band)) (\<lambda>reference.
       pthen (for_each (write_level S gid band reference) (sort_key fst per_level))
      (pthen (store_call (\<lambda>s. open_group_at S s (band_group gid band)))
      (pbind (plift (case map_of levels band of
                       None \<Rightarrow> Inl (KeyError band []) | Some n \<Rightarrow> band_attrs F row n band)) (\<lambda>attrs.
       store_call (\<lambda>s. update_attrs_at S s (band_group gid band) attrs))))))"

definition write_granule_to_store ::
    "('f :: zero, 'y) float_ops_scheme \<Rightarrow> ('s, 'x, 'g, 'f, 'z) store_lib_scheme \<Rightarrow> 'f row \<Rightarrow> 'g
     \<Rightarrow> string list \<Rightarrow> string \<Rightarrow> (string \<Rightarrow> 'g \<Rightarrow> 'b exn + (string, 'x) dict)
     \<Rightarrow> ('s, 'b exn, string) pgm" where
  "write_granule_to_store F S row registry bands access opener =
     pbind (plift (virtual_granule F S row registry bands access opener)) (\<lambda>arrays.
     pbind (plift (row_id row)) (\<lambda>gid.
     pthen (for_each (write_band F S row gid (band_levels arrays)) (datasets arrays))
       (pret (''/'' @ gid))))"

subsection \<open>Laws of the store\<close>

definition touches_only :: "('s, 'x, 'g, 'f, 'z) store_lib_scheme \<Rightarrow> string \<Rightarrow> 's \<Rightarrow> 's \<Rightarrow> bool" where
  "touches_only S p s s' \<longleftrightarrow> (\<forall>q. \<not> touched p q \<longrightarrow> node S s' q = node S s q)"

text \<open>
  Writing a dataset into a group makes an array of each of its variables there; opening a group
  in mode "a" leaves what is below it, and an existing node, alone; \<open>attrs.update\<close> merges; nothing
  outside the path is affected except that missing parent groups are created. Opening for reading
  finds a node exactly if there is one, and \<open>delete_dir\<close> removes what is at and below a path.
\<close>

definition dataset_law :: "('s, 'x, 'g, 'f, 'z) store_lib_scheme \<Rightarrow> bool" where
  "dataset_law S \<longleftrightarrow>
     (\<forall>d v w d'. rename_variable S d v w = Inr d' \<longrightarrow> data_vars S d = [v] \<longrightarrow> data_vars S d' = [w])
     \<and> (\<forall>d ref. data_vars S (rename_paths S d ref) = data_vars S d \<and> chunk_path S (rename_paths S d ref) = ref)"

definition write_law :: "('s, 'x, 'g, 'f, 'z) store_lib_scheme \<Rightarrow> bool" where
  "write_law S \<longleftrightarrow>
     (\<forall>s p d r s'. to_icechunk S s p d = (r, s') \<longrightarrow>
        touches_only S p s s'
        \<and> (r = Inr () \<longrightarrow> (\<forall>v \<in> set (data_vars S d). node S s' (p @ ''/'' @ v) = Some (Array (chunk_path S d)))))
     \<and> (\<forall>s p r s'. open_group_at S s p = (r, s') \<longrightarrow>
        touches_only S p s s'
        \<and> (r = Inr () \<longrightarrow> (\<exists>a. node S s' p = Some (Group a))
             \<and> (\<forall>q. q \<noteq> p \<longrightarrow> under p q \<longrightarrow> node S s' q = node S s q)))
     \<and> (\<forall>s p attrs r s'. update_attrs_at S s p attrs = (r, s') \<longrightarrow>
        touches_only S p s s'
        \<and> (r = Inr () \<longrightarrow> (\<forall>a. node S s p = Some (Group a) \<longrightarrow>
             node S s' = (node S s)(p \<mapsto> Group (dict_merge a attrs)))))"

definition presence_law :: "('s, 'x, 'g, 'f, 'z) store_lib_scheme \<Rightarrow> bool" where
  "presence_law S \<longleftrightarrow>
     (\<forall>s g. (zarr_open_r S s g = Opened \<longrightarrow> node S s (''/'' @ g) \<noteq> None)
          \<and> (zarr_open_r S s g = NodeNotFound \<longrightarrow> node S s (''/'' @ g) = None))
     \<and> (\<forall>s g r s'. delete_dir S s g = (r, s') \<longrightarrow>
        (\<forall>q. \<not> under (''/'' @ g) q \<longrightarrow> node S s' q = node S s q)
        \<and> (r = Inr () \<longrightarrow> (\<forall>q. under (''/'' @ g) q \<longrightarrow> node S s' q = None)))"

lemma write_law_icechunk:
  assumes "write_law S" and run: "to_icechunk S s p d = (r, s')"
  shows "touches_only S p s s'"
    and "r = Inr () \<Longrightarrow> v \<in> set (data_vars S d) \<Longrightarrow> node S s' (p @ ''/'' @ v) = Some (Array (chunk_path S d))"
  using assms(1) [unfolded write_law_def, THEN conjunct1, rule_format, OF run] by simp_all

lemma write_law_group:
  assumes "write_law S" and run: "open_group_at S s p = (r, s')"
  shows "touches_only S p s s'"
    and "r = Inr () \<Longrightarrow> \<exists>a. node S s' p = Some (Group a)"
    and "r = Inr () \<Longrightarrow> q \<noteq> p \<Longrightarrow> under p q \<Longrightarrow> node S s' q = node S s q"
  using assms(1) [unfolded write_law_def, THEN conjunct2, THEN conjunct1, rule_format, OF run] by simp_all

lemma write_law_attrs:
  assumes "write_law S" and run: "update_attrs_at S s p attrs = (r, s')"
  shows "touches_only S p s s'"
    and "r = Inr () \<Longrightarrow> node S s p = Some (Group a) \<Longrightarrow> node S s' = (node S s)(p \<mapsto> Group (dict_merge a attrs))"
  using assms(1) [unfolded write_law_def, THEN conjunct2, THEN conjunct2, rule_format, OF run] by simp_all

subsection \<open>Paths of a granule\<close>

text \<open>An id or a band name that is one component of a path.\<close>

definition plain_component :: "string \<Rightarrow> bool" where
  "plain_component g \<longleftrightarrow> g \<noteq> [] \<and> CHR ''/'' \<notin> set g"

lemma under_refl [simp]: "under p p"
  by (simp add: under_def)

lemma under_trans: "under p q \<Longrightarrow> under q r \<Longrightarrow> under p r"
  by (auto simp: under_def prefix_def)

lemma under_append [simp]: "under p (p @ ''/'' @ t)"
  by (simp add: under_def prefix_def)

lemma slash_split:
  assumes "CHR ''/'' \<notin> set g" and "q @ ''/'' @ r = g @ t"
  shows "\<exists>u. q = g @ u \<and> t = u @ ''/'' @ r"
proof -
  from assms(2) obtain us where "q = g @ us \<and> us @ ''/'' @ r = t \<or> q @ us = g \<and> ''/'' @ r = us @ t"
    by (auto simp: append_eq_append_conv2)
  then show ?thesis
  proof
    assume us: "q @ us = g \<and> ''/'' @ r = us @ t"
    then have "us = []" using assms(1) by (cases us) auto
    with us show ?thesis by simp
  qed simp
qed

text \<open>Work at or below a component of \<open>base\<close> reaches nothing outside it but \<open>base\<close> and its parents.\<close>

lemma touched_component:
  assumes c: "plain_component c" and p: "under (base @ ''/'' @ c) p"
    and q: "touched p q" "\<not> under q base"
  shows "under (base @ ''/'' @ c) q"
proof (cases "under p q")
  case False
  then obtain r where qp: "q @ ''/'' @ r = p"
    using q(1) by (auto simp: touched_def under_def prefix_def)
  obtain t where t: "p = base @ ''/'' @ c @ t" "t = [] \<or> hd t = CHR ''/''"
    using p by (auto simp: under_def prefix_def)
  from qp t(1) obtain us where
    "q = base @ us \<and> us @ ''/'' @ r = ''/'' @ c @ t \<or> q @ us = base \<and> ''/'' @ r = us @ ''/'' @ c @ t"
    by (auto simp: append_eq_append_conv2)
  then obtain us where us: "q = base @ us" "us @ ''/'' @ r = ''/'' @ c @ t" "us \<noteq> []"
    using q(2) by (cases us) (auto simp: under_def prefix_def)
  then obtain us' where us': "us = CHR ''/'' # us'" "us' @ ''/'' @ r = c @ t" by (cases us) auto
  then obtain u where u: "us' = c @ u" "t = u @ ''/'' @ r"
    using slash_split c unfolding plain_component_def by blast
  have "u = [] \<or> hd u = CHR ''/''" using u(2) t(2) by (cases u) auto
  then show ?thesis by (cases u) (auto simp: us(1) us'(1) u(1) under_def prefix_def)
qed (use under_trans [OF p] in blast)

text \<open>\<open>own_part base c\<close>: only what is at or below the component \<open>c\<close> of \<open>base\<close>, or above it, may have changed.\<close>

definition own_part :: "('s, 'x, 'g, 'f, 'z) store_lib_scheme \<Rightarrow> string \<Rightarrow> string \<Rightarrow> 's \<Rightarrow> 's \<Rightarrow> bool" where
  "own_part S base c s s' \<longleftrightarrow>
     (\<forall>q. \<not> under q base \<longrightarrow> \<not> under (base @ ''/'' @ c) q \<longrightarrow> node S s' q = node S s q)"

interpretation own: step_frame "own_part S base c"
  by unfold_locales (auto simp: own_part_def)

definition own_granule :: "('s, 'x, 'g, 'f, 'z) store_lib_scheme \<Rightarrow> string \<Rightarrow> 's \<Rightarrow> 's \<Rightarrow> bool" where
  "own_granule S g s s' \<longleftrightarrow> (\<forall>q. q \<noteq> [] \<longrightarrow> \<not> under (''/'' @ g) q \<longrightarrow> node S s' q = node S s q)"

lemma under_Nil [simp]: "under q [] \<longleftrightarrow> q = []"
  by (auto simp: under_def)

lemma own_granule_part: "own_granule S g = own_part S [] g"
  by (intro ext) (simp add: own_granule_def own_part_def)

lemma own_partI:
  "plain_component c \<Longrightarrow> under (base @ ''/'' @ c) p \<Longrightarrow> touches_only S p s s' \<Longrightarrow> own_part S base c s s'"
  unfolding own_part_def touches_only_def using touched_component by blast

text \<open>A path below \<open>base/c\<close>, seen from a part that contains it.\<close>

definition inside :: "string \<Rightarrow> string \<Rightarrow> string \<Rightarrow> bool" where
  "inside base c p \<longleftrightarrow> plain_component c \<and> under (base @ ''/'' @ c) p"

lemma band_group_under [simp]: "under (''/'' @ g) (band_group g b)" "under (CHR ''/'' # g) (band_group g b)"
  by (simp_all add: band_group_def under_def prefix_def)

lemma level_group_under [simp]: "under (band_group g b) (level_group g b l)"
  by (simp add: band_group_def level_group_def under_def prefix_def)

lemma pbind_plift_Inr: "pbind (plift (Inr x)) f = f x"
  by (rule ext) simp

lemma store_call_own:
  assumes "inside base c p" and "\<And>s r s'. f s = (r, s') \<Longrightarrow> touches_only S p s s'"
  shows "keeps (own_part S base c) (store_call f)"
  using assms(1) unfolding inside_def
  by (intro keepsI) (auto simp: store_call_def split: prod.splits intro: own_partI assms(2))

lemma write_level_own:
  assumes "write_law S" and "inside base c (band_group g b)"
  shows "keeps (own_part S base c) (write_level S g b ref x)"
proof -
  have "inside base c (level_group g b l)" for l
    using assms(2) under_trans [OF _ level_group_under] by (auto simp: inside_def)
  then show ?thesis
    by (auto simp: write_level_def split: prod.split list.split
        intro!: own.steps store_call_own write_law_icechunk(1) [OF assms(1)])
qed

lemma group_call_own:
  "write_law S \<Longrightarrow> inside base c (band_group g b) \<Longrightarrow>
     keeps (own_part S base c) (store_call (\<lambda>s. open_group_at S s (band_group g b)))"
  by (rule store_call_own) (auto intro: write_law_group(1))

lemma attrs_call_own:
  "write_law S \<Longrightarrow> inside base c (band_group g b) \<Longrightarrow>
     keeps (own_part S base c) (store_call (\<lambda>s. update_attrs_at S s (band_group g b) attrs))"
  by (rule store_call_own) (auto intro: write_law_attrs(1))

lemma write_band_own:
  assumes "write_law S" and "inside base c (band_group g (fst x))"
  shows "keeps (own_part S base c) (write_band F S row g ls x)"
  using write_level_own [OF assms] assms(2)
  by (auto simp: write_band_def split: prod.split
      intro!: own.steps own.for_each_step group_call_own [OF assms(1)] attrs_call_own [OF assms(1)])

text \<open>Whatever happens while a granule is written, no other granule's nodes change.\<close>

lemma write_granule_own:
  assumes "write_law S" and "row_id row = (Inr g :: 'b exn + string)" and "plain_component g"
  shows "keeps (own_granule S g)
    (write_granule_to_store F S row registry bands access opener :: ('s, 'b exn, string) pgm)"
  unfolding write_granule_to_store_def assms(2) pbind_plift_Inr own_granule_part
  by (intro own.steps own.for_each_step write_band_own [OF assms(1)]) (simp add: inside_def assms(3))

subsection \<open>The pyramid that is declared is the pyramid that is written\<close>

definition level_array :: "string \<Rightarrow> string \<Rightarrow> nat \<Rightarrow> string" where
  "level_array g b l = level_group g b l @ ''/'' @ b"

text \<open>The parser names each child group after its directory's index, in order.\<close>

definition pyramid_law :: "(string \<Rightarrow> 'g \<Rightarrow> 'b exn + (string, 'x) dict) \<Rightarrow> bool" where
  "pyramid_law opener \<longleftrightarrow>
     (\<forall>url reg tree. opener url reg = Inr tree \<longrightarrow> map fst tree = map dec [0..<length tree])"

lemma slash_first:
  assumes "CHR ''/'' \<notin> set a" and "CHR ''/'' \<notin> set c" and "a @ ''/'' @ t = c @ ''/'' @ u"
  shows "a = c"
proof -
  have "takeWhile (\<lambda>x. x \<noteq> CHR ''/'') (a @ ''/'' @ t) = a"
    using assms(1) by (subst takeWhile_append2) auto
  moreover have "takeWhile (\<lambda>x. x \<noteq> CHR ''/'') (c @ ''/'' @ u) = c"
    using assms(2) by (subst takeWhile_append2) auto
  ultimately show ?thesis using assms(3) by simp
qed

lemma component_apart:
  assumes "plain_component b" and "plain_component b'" and "b \<noteq> b'"
  shows "\<not> under (base @ ''/'' @ b') (base @ ''/'' @ b)" and "\<not> under (base @ ''/'' @ b') (base @ ''/'' @ b @ ''/'' @ t)"
proof -
  show "\<not> under (base @ ''/'' @ b') (base @ ''/'' @ b)"
    using assms by (auto simp: under_def prefix_def plain_component_def)
  show "\<not> under (base @ ''/'' @ b') (base @ ''/'' @ b @ ''/'' @ t)"
  proof
    assume u: "under (base @ ''/'' @ b') (base @ ''/'' @ b @ ''/'' @ t)"
    have "b @ ''/'' @ t \<noteq> b'" using assms(2) by (auto simp: plain_component_def)
    with u obtain v where "b @ ''/'' @ t = b' @ ''/'' @ v"
      by (auto simp: under_def prefix_def)
    with slash_first assms show False by (auto simp: plain_component_def)
  qed
qed

lemma level_apart:
  assumes "l \<noteq> l'"
  shows "\<not> touched (level_group g b l') (level_array g b l)"
proof -
  define base where "base = ''/'' @ g @ ''/'' @ b @ ''/'' @ MULTISCALES_GROUP"
  have dec: "plain_component (dec l)" "plain_component (dec l')" "dec l \<noteq> dec l'"
    using assms by (simp_all add: plain_component_def dec_inj)
  have paths: "level_array g b l = base @ ''/'' @ dec l @ ''/'' @ b" "level_group g b l' = base @ ''/'' @ dec l'"
    by (simp_all add: base_def level_array_def level_group_def)
  have "\<not> under (level_group g b l') (level_array g b l)"
    unfolding paths by (rule component_apart(2) [OF dec])
  moreover have "\<not> under (level_array g b l) (level_group g b l')"
  proof
    assume u: "under (level_array g b l) (level_group g b l')"
    then obtain t where "dec l' = dec l @ ''/'' @ t"
      by (auto simp: under_def prefix_def paths)
    then show False using slash_dec [of l'] by simp
  qed
  ultimately show ?thesis by (simp add: touched_def)
qed

lemma store_call_InrD: "store_call f s = (Inr x, s') \<Longrightarrow> f s = (Inr x, s')"
  by (auto simp: store_call_def split: prod.splits dest: lib_result_InrD)

lemma write_level_Inr:
  assumes laws: "write_law S" "dataset_law S" and run: "write_level S g b ref (l, d) s = (Inr u :: 'b exn + unit, s')"
  shows "node S s' (level_array g b l) = Some (Array ref) \<and> touches_only S (level_group g b l) s s'"
proof -
  from run obtain v d' where v: "data_vars S d = [v]" and d': "rename_variable S d v b = Inr d'"
    and w: "to_icechunk S s (level_group g b l) (rename_paths S d' ref) = (Inr (), s')"
    by (auto simp: write_level_def split: list.splits elim!: pbind_InrE dest!: store_call_InrD lib_result_InrD)
  have vars: "data_vars S (rename_paths S d' ref) = [b]" "chunk_path S (rename_paths S d' ref) = ref"
    using laws(2) v d' unfolding dataset_law_def by auto
  show ?thesis
    using write_law_icechunk(1) [OF laws(1) w] write_law_icechunk(2) [OF laws(1) w refl, of b] vars by (simp add: level_array_def)
qed

lemma write_levels_Inr:
  assumes laws: "write_law S" "dataset_law S"
  shows "for_each (write_level S g b ref) xs s = (Inr u :: 'b exn + unit, s') \<Longrightarrow> distinct (map fst xs) \<Longrightarrow>
    (\<forall>l \<in> fst ` set xs. node S s' (level_array g b l) = Some (Array ref))
    \<and> (\<forall>l. l \<notin> fst ` set xs \<longrightarrow> node S s' (level_array g b l) = node S s (level_array g b l))"
proof (induction xs arbitrary: s)
  case (Cons x xs)
  obtain l d where x: "x = (l, d)" by fastforce
  from Cons.prems(1) obtain v s1 where head: "write_level S g b ref (l, d) s = (Inr v :: 'b exn + unit, s1)"
    and tail: "for_each (write_level S g b ref) xs s1 = (Inr u :: 'b exn + unit, s')"
    by (auto simp: x elim!: pthen_InrE)
  note here = write_level_Inr [OF laws head]
  have rest: "\<forall>l \<in> fst ` set xs. node S s' (level_array g b l) = Some (Array ref)"
    "\<forall>l. l \<notin> fst ` set xs \<longrightarrow> node S s' (level_array g b l) = node S s1 (level_array g b l)"
    using Cons.IH [OF tail] Cons.prems(2) by simp_all
  have other: "node S s1 (level_array g b k) = node S s (level_array g b k)" if "k \<noteq> l" for k
    using here level_apart [OF that] by (auto simp: touches_only_def)
  show ?case
    using rest other here Cons.prems(2) by (auto simp: x)
qed simp

lemma declared_layout_merge:
  "declared_layout attrs \<noteq> [] \<Longrightarrow> declared_layout (dict_merge a attrs) = declared_layout attrs"
  by (auto simp: declared_layout_def map_add_def split: option.splits)

text \<open>A band as it should be left: its levels' arrays, and the attributes that declare them.\<close>

definition band_written ::
    "('s, 'x, 'g, 'f, 'z) store_lib_scheme \<Rightarrow> string \<Rightarrow> string \<Rightarrow> string \<Rightarrow> nat \<Rightarrow> 's \<Rightarrow> bool" where
  "band_written S g b ref n s \<longleftrightarrow>
     (\<exists>attrs. node S s (band_group g b) = Some (Group attrs)
        \<and> declared_layout attrs = multiscale_layout n b LEVEL_ASSET_PREFIX)
     \<and> (\<forall>l < n. node S s (level_array g b l) = Some (Array ref))"

text \<open>Every entry of a written band's layout is an array of the store.\<close>

lemma band_written_declared:
  assumes "band_written S g b ref n s" and "0 < n"
  shows "\<exists>attrs. node S s (band_group g b) = Some (Group attrs) \<and> declared_layout attrs \<noteq> []
    \<and> list_all (\<lambda>e. \<exists>a. entry_path ''asset'' e = Some a
          \<and> node S s (band_group g b @ ''/'' @ a) = Some (Array ref)) (declared_layout attrs)"
proof -
  from assms(1) obtain attrs where attrs: "node S s (band_group g b) = Some (Group attrs)"
    "declared_layout attrs = multiscale_layout n b LEVEL_ASSET_PREFIX"
    and nodes: "\<And>l. l < n \<Longrightarrow> node S s (level_array g b l) = Some (Array ref)"
    by (auto simp: band_written_def)
  have n: "max 1 n = n" using assms(2) by simp
  have at: "band_group g b @ ''/'' @ level_path LEVEL_ASSET_PREFIX l b = level_array g b l" for l
    by (simp add: band_group_def level_array_def level_group_def level_path_def LEVEL_ASSET_PREFIX_def)
  have "\<exists>a. entry_path ''asset'' e = Some a \<and> node S s (band_group g b @ ''/'' @ a) = Some (Array ref)"
    if "e \<in> set (declared_layout attrs)" for e
  proof -
    from that have "entry_path ''asset'' e \<in> set (map (entry_path ''asset'') (declared_layout attrs))" by simp
    then obtain l where "l < n" "entry_path ''asset'' e = Some (level_path LEVEL_ASSET_PREFIX l b)"
      unfolding attrs(2) multiscale_layout_assets n by auto
    then show ?thesis using nodes at by metis
  qed
  with attrs show ?thesis by (auto simp: list_all_iff multiscale_layout_def)
qed

lemma write_band_Inr:
  assumes laws: "write_law S" "dataset_law S"
    and keys: "map fst levels = [0..<n]" "map_of ls b = Some n"
    and run: "write_band F S row g ls (b, levels) s = (Inr u :: 'b exn + unit, s')"
  shows "\<exists>ref. band_reference row b = (Inr ref :: 'b exn + string) \<and> band_written S g b ref n s'"
proof -
  from run obtain ref s1 s2 attrs u1 where ref: "band_reference row b = (Inr ref :: 'b exn + string)"
    and levels: "for_each (write_level S g b ref) (sort_key fst levels) s = (Inr u1 :: 'b exn + unit, s1)"
    and group: "open_group_at S s1 (band_group g b) = (Inr (), s2)"
    and attrs: "band_attrs F row n b = (Inr attrs :: 'b exn + _)"
    and update: "update_attrs_at S s2 (band_group g b) attrs = (Inr (), s')"
    using keys(2) by (auto simp: write_band_def elim!: pbind_InrE pthen_InrE dest!: store_call_InrD)
  have "distinct (map fst (sort_key fst levels))" "fst ` set levels = set [0..<n]"
    using keys(1) by (simp add: distinct_map, metis distinct_map distinct_upt, metis list.set_map)
  then have arrays: "node S s1 (level_array g b l) = Some (Array ref)" if "l < n" for l
    using write_levels_Inr [OF laws levels] that by auto
  have below: "under (band_group g b) (level_array g b l)" "level_array g b l \<noteq> band_group g b" for l
    by (auto simp: level_array_def level_group_def band_group_def under_def prefix_def)
  have arrays2: "node S s2 (level_array g b l) = Some (Array ref)" if "l < n" for l
    using write_law_group(3) [OF laws(1) group refl below(2) below(1)] arrays [OF that] by simp
  obtain a where a: "node S s2 (band_group g b) = Some (Group a)"
    using write_law_group(2) [OF laws(1) group] by blast
  have final: "node S s' = (node S s2)(band_group g b \<mapsto> Group (dict_merge a attrs))"
    by (rule write_law_attrs(2) [OF laws(1) update refl a])
  have "declared_layout attrs = multiscale_layout n b LEVEL_ASSET_PREFIX"
    using attrs granule_attrs_layout by (auto simp: band_attrs_def rbind_Inr_iff)
  moreover then have "declared_layout (dict_merge a attrs) = declared_layout attrs"
    by (intro declared_layout_merge) (simp add: multiscale_layout_def)
  ultimately have "band_written S g b ref n s'"
    using final arrays2 below(2) by (simp add: band_written_def)
  with ref show ?thesis by blast
qed

text \<open>Work on another band leaves a written band as it is.\<close>

lemma band_written_kept:
  assumes "write_law S" and b: "plain_component b" "plain_component b'" "b \<noteq> b'"
    and run: "write_band F S row g ls (b', levels) s = (r :: 'b exn + unit, s')"
    and written: "band_written S g b ref n s"
  shows "band_written S g b ref n s'"
proof -
  let ?base = "''/'' @ g"
  have "inside ?base b' (band_group g b')"
    using b(2) by (simp add: inside_def band_group_def)
  then have own: "own_part S ?base b' s s'"
    using keepsD [OF write_band_own [OF assms(1), where x = "(b', levels)"] run] by simp
  have same: "node S s' (?base @ ''/'' @ b @ t) = node S s (?base @ ''/'' @ b @ t)"
    if "t = [] \<or> (\<exists>u. t = ''/'' @ u)" for t
  proof -
    have "\<not> under (?base @ ''/'' @ b @ t) ?base"
      by (auto simp: under_def prefix_def)
    moreover have "\<not> under (?base @ ''/'' @ b') (?base @ ''/'' @ b @ t)"
      using that component_apart [OF b, of ?base] by auto
    ultimately show ?thesis using own unfolding own_part_def by blast
  qed
  have "node S s' (band_group g b) = node S s (band_group g b)"
    using same [of "[]"] by (simp add: band_group_def)
  moreover have "node S s' (level_array g b l) = node S s (level_array g b l)" for l
    using same [of "''/'' @ MULTISCALES_GROUP @ ''/'' @ dec l @ ''/'' @ b"]
    by (simp add: level_array_def level_group_def)
  ultimately show ?thesis using written by (simp add: band_written_def)
qed

lemma write_bands_kept:
  assumes "write_law S" and "plain_component b" and "\<forall>x \<in> set xs. plain_component (fst x) \<and> fst x \<noteq> b"
    and "for_each (write_band F S row g ls) xs s = (r :: 'b exn + unit, s')"
    and "band_written S g b ref n s"
  shows "band_written S g b ref n s'"
  using assms(3-5)
proof (induction xs arbitrary: s)
  case (Cons x xs)
  obtain r1 s1 where head: "write_band F S row g ls (fst x, snd x) s = (r1 :: 'b exn + unit, s1)"
    by (cases "write_band F S row g ls x s :: ('b exn + unit) \<times> _") simp
  have kept: "band_written S g b ref n s1"
    using band_written_kept [OF assms(1,2) _ _ head] Cons.prems(1,3) by auto
  show ?case
    using Cons.IH [OF _ _ kept] Cons.prems(1,2) head kept by (cases r1) auto
qed simp

lemma write_bands_Inr:
  assumes laws: "write_law S" "dataset_law S"
  shows "for_each (write_band F S row g ls) ds s = (Inr u :: 'b exn + unit, s') \<Longrightarrow>
    distinct (map fst ds) \<Longrightarrow> \<forall>x \<in> set ds. plain_component (fst x) \<Longrightarrow>
    (b, levels) \<in> set ds \<Longrightarrow> map fst levels = [0..<n] \<Longrightarrow> map_of ls b = Some n \<Longrightarrow>
    \<exists>ref. band_reference row b = (Inr ref :: 'b exn + string) \<and> band_written S g b ref n s'"
proof (induction ds arbitrary: s)
  case (Cons x ds)
  from Cons.prems(1) obtain v s1 where head: "write_band F S row g ls x s = (Inr v :: 'b exn + unit, s1)"
    and tail: "for_each (write_band F S row g ls) ds s1 = (Inr u :: 'b exn + unit, s')"
    by (auto elim!: pthen_InrE)
  show ?case
  proof (cases "x = (b, levels)")
    case True
    obtain ref where ref: "band_reference row b = (Inr ref :: 'b exn + string)"
      and here: "band_written S g b ref n s1"
      using write_band_Inr [OF laws Cons.prems(5,6)] head unfolding True by blast
    have "\<forall>y \<in> set ds. plain_component (fst y) \<and> fst y \<noteq> b" and "plain_component b"
      using Cons.prems(2,3) True by auto
    then have "band_written S g b ref n s'"
      using write_bands_kept [OF laws(1) _ _ tail here] by blast
    with ref show ?thesis by blast
  next
    case False
    then show ?thesis using Cons.IH [OF tail] Cons.prems by simp
  qed
qed simp

text \<open>What \<open>virtual_granule\<close> hands to the writing loop.\<close>

lemma dict_set_new: "k \<notin> fst ` set d \<Longrightarrow> dict_set k v d = d @ [(k, v)]"
  by (induction d) auto

lemma per_level_indexed:
  "map fst tree = map dec [m..<m + length tree] \<Longrightarrow> map fst acc = [0..<m] \<Longrightarrow>
     per_level tree acc = (Inr levels :: 'b exn + _) \<Longrightarrow> map fst levels = [0..<m + length tree]"
proof (induction tree arbitrary: m acc)
  case (Cons x tree)
  obtain k d where x: "x = (k, d)" by fastforce
  have "k = dec m" and rest: "map fst tree = map dec [Suc m..<Suc m + length tree]"
    using Cons.prems(1) by (simp_all add: x upt_conv_Cons del: upt_Suc)
  moreover have "m \<notin> fst ` set acc"
    using Cons.prems(2) by (metis atLeastLessThan_iff less_irrefl list.set_map set_upt)
  ultimately have "per_level tree (acc @ [(m, d)]) = (Inr levels :: 'b exn + _)"
    using Cons.prems(3) by (simp add: x dict_set_new)
  from Cons.IH [OF rest _ this] Cons.prems(2) show ?case by simp
qed simp

definition bands_indexed :: "(string, (nat, 'x) dict) dict \<Rightarrow> (string, nat) dict \<Rightarrow> bool" where
  "bands_indexed ds ls \<longleftrightarrow> distinct (map fst ds)
     \<and> (\<forall>b levels. map_of ds b = Some levels \<longrightarrow>
          map fst levels = [0..<length levels] \<and> levels \<noteq> [] \<and> map_of ls b = Some (length levels))"

lemma open_bands_indexed:
  fixes opener :: "string \<Rightarrow> 'g \<Rightarrow> 'b exn + (string, 'x) dict"
  assumes "pyramid_law opener"
  shows "open_bands S row registry opener urls ds ls shape = Inr (ds', ls', shape') \<Longrightarrow>
    bands_indexed ds ls \<Longrightarrow>
    bands_indexed ds' ls' \<and> dom (map_of ds') = dom (map_of ds) \<union> fst ` set urls"
proof (induction urls arbitrary: ds ls shape)
  case (Cons x urls)
  obtain band url where x: "x = (band, url)" by fastforce
  from Cons.prems(1) obtain tree levels shape1 where tree: "opener url registry = Inr tree"
    and levels: "per_level tree [] = (Inr levels :: 'b exn + _)" "levels \<noteq> []"
    and rest: "open_bands S row registry opener urls (dict_set band levels ds)
        (dict_set band (length levels) ls) shape1 = Inr (ds', ls', shape')"
    by (auto simp: x rbind_Inr_iff granule_error_def split: if_splits)
  have names: "map fst tree = map dec [0..<0 + length tree]"
    using assms tree by (simp add: pyramid_law_def)
  have keys: "map fst levels = [0..<length tree]"
    using per_level_indexed [OF names _ levels(1)] by simp
  then have "length levels = length tree" by (metis length_map length_upt minus_nat.diff_0)
  with keys levels(2) Cons.prems(2) have "bands_indexed (dict_set band levels ds) (dict_set band (length levels) ls)"
    by (auto simp: bands_indexed_def distinct_update split: if_splits)
  from Cons.IH [OF rest this] show ?case by (auto simp: x)
qed simp

lemma virtual_granule_Inr:
  fixes opener :: "string \<Rightarrow> 'g \<Rightarrow> 'b exn + (string, 'x) dict"
  assumes "pyramid_law opener"
    and "virtual_granule F S row registry bands access opener = Inr arrays"
  obtains urls where "asset_urls row bands access = (Inr urls :: 'b exn + _)"
    and "bands_indexed (datasets arrays) (band_levels arrays)"
    and "dom (map_of (datasets arrays)) = dom (map_of urls)"
proof -
  from assms(2) obtain urls ds ls shape s where urls: "asset_urls row bands access = (Inr urls :: 'b exn + _)"
    and open_them: "open_bands S row registry opener urls [] [] None = Inr (ds, ls, shape)"
    and arrays: "arrays = \<lparr>datasets = ds, band_levels = ls, grid_shape = s\<rparr>"
    by (auto simp: virtual_granule_def rbind_Inr_iff granule_error_def split: if_splits option.splits)
  have "bands_indexed ds ls \<and> dom (map_of ds) = dom (map_of ([] :: (string, (nat, 'x) dict) dict)) \<union> fst ` set urls"
    by (rule open_bands_indexed [OF assms(1) open_them]) (simp add: bands_indexed_def)
  then show thesis
    using urls arrays that by (simp add: dom_map_of_conv_image_fst)
qed

lemma urls_requested:
  fixes row :: "'f :: zero row"
  assumes "asset_urls row bands access = (Inr urls :: 'b exn + (string, string) dict)"
  shows "dom (map_of urls) \<subseteq> set bands"
proof -
  obtain assets :: "'f row" where "bands_urls assets access bands [] = (Inr urls :: 'b exn + _)"
    using assms by (auto simp: asset_urls_Inr)
  from bands_urls_lookup [OF this] show ?thesis by (auto split: if_splits)
qed

lemma virtual_granule_urls:
  assumes arrays: "virtual_granule F S row registry bands access opener = (Inr arrays :: 'b exn + _)"
    and urls: "asset_urls row bands access = (Inr urls :: 'b exn + _)"
  shows "urls \<noteq> []"
proof
  assume "urls = []"
  with urls have "virtual_granule F S row registry bands access opener
      = granule_error row ''no assets among the bands''" by (simp only: virtual_granule_def rbind_simps refl if_True)
  with arrays show False by (simp add: granule_error_def rbind_Inr_iff)
qed

lemma granule_bands_written:
  fixes opener :: "string \<Rightarrow> 'g \<Rightarrow> 'b exn + (string, 'x) dict"
  assumes laws: "write_law S" "dataset_law S" "pyramid_law opener" and bands: "list_all plain_component bands"
    and run: "write_granule_to_store F S row registry bands access opener s = (Inr path, s')"
  obtains gid urls where "row_id row = (Inr gid :: 'b exn + _)" and "path = ''/'' @ gid"
    and "asset_urls row bands access = (Inr urls :: 'b exn + _)" and "urls \<noteq> []"
    and "\<forall>band \<in> dom (map_of urls). \<exists>ref n. band_reference row band = (Inr ref :: 'b exn + _)
      \<and> 0 < n \<and> band_written S gid band ref n s'"
proof -
  obtain arrays gid u where arrays: "virtual_granule F S row registry bands access opener = Inr arrays"
    and gid: "row_id row = (Inr gid :: 'b exn + _)" "path = ''/'' @ gid"
    and loop: "for_each (write_band F S row gid (band_levels arrays)) (datasets arrays) s = (Inr u :: 'b exn + unit, s')"
    using run by (auto simp: write_granule_to_store_def elim!: pbind_InrE pthen_InrE)
  obtain urls where urls: "asset_urls row bands access = (Inr urls :: 'b exn + _)"
    and indexed: "bands_indexed (datasets arrays) (band_levels arrays)"
    and dom: "dom (map_of (datasets arrays)) = dom (map_of urls)"
    by (rule virtual_granule_Inr [OF laws(3) arrays])
  have "urls \<noteq> []" by (rule virtual_granule_urls [OF arrays urls])
  have plain: "\<forall>x \<in> set (datasets arrays). plain_component (fst x)"
    using dom urls_requested [OF urls] bands by (auto simp: list_all_iff dom_map_of_conv_image_fst)
  have "\<exists>ref n. band_reference row band = (Inr ref :: 'b exn + _) \<and> 0 < n \<and> band_written S gid band ref n s'"
    if band: "band \<in> dom (map_of urls)" for band
  proof -
    obtain levels where levels: "map_of (datasets arrays) band = Some levels"
      using band unfolding dom [symmetric] by blast
    obtain ref where "band_reference row band = (Inr ref :: 'b exn + _)" "band_written S gid band ref (length levels) s'"
      using write_bands_Inr [OF laws(1,2) loop _ plain map_of_SomeD [OF levels]] indexed levels
      unfolding bands_indexed_def by blast
    moreover have "levels \<noteq> []" using indexed levels unfolding bands_indexed_def by blast
    then have "0 < length levels" by simp
    ultimately show ?thesis by blast
  qed
  with \<open>urls \<noteq> []\<close> show thesis using that gid urls by blast
qed

text \<open>
  C15. A granule that is written declares only what it wrote: its path is \<open>/id\<close>, and each band it has
  a URL for carries attributes whose layout names at least one level, every asset of which is
  an array of the store, holding the band's reference relative to the container.
\<close>

theorem written_pyramid_resolves:
  fixes opener :: "string \<Rightarrow> 'g \<Rightarrow> 'b exn + (string, 'x) dict"
  assumes "write_law S" and "dataset_law S" and "pyramid_law opener"
    and "list_all plain_component bands"
    and "asset_urls row bands access = (Inr urls :: 'b exn + _)" and "band \<in> dom (map_of urls)"
    and "write_granule_to_store F S row registry bands access opener s = (Inr path, s')"
  shows "\<exists>gid attrs ref. row_id row = (Inr gid :: 'b exn + _) \<and> path = ''/'' @ gid
    \<and> band_reference row band = (Inr ref :: 'b exn + _)
    \<and> node S s' (band_group gid band) = Some (Group attrs) \<and> declared_layout attrs \<noteq> []
    \<and> list_all (\<lambda>e. \<exists>a. entry_path ''asset'' e = Some a
          \<and> node S s' (band_group gid band @ ''/'' @ a) = Some (Array ref)) (declared_layout attrs)"
proof -
  obtain gid urls' where gid: "row_id row = (Inr gid :: 'b exn + _)" "path = ''/'' @ gid"
    and urls: "asset_urls row bands access = (Inr urls' :: 'b exn + _)" and "urls' \<noteq> []"
    and bands: "\<forall>band \<in> dom (map_of urls'). \<exists>ref n. band_reference row band = (Inr ref :: 'b exn + _)
      \<and> 0 < n \<and> band_written S gid band ref n s'"
    by (rule granule_bands_written [OF assms(1-4,7)])
  have "urls' = urls" using assms(5) urls by simp
  with bands assms(6) obtain ref n where ref: "band_reference row band = (Inr ref :: 'b exn + _)"
    and written: "band_written S gid band ref n s'" "0 < n" by blast
  from band_written_declared [OF written] gid ref show ?thesis by blast
qed

end
