(* ===== verification/Nodes.thy ===== *)
theory Nodes
  imports Rows Virtualize
begin

text \<open>
  Arrays and rows in one snapshot. A row of a table may name the path of its granule's arrays (the
  \<open>array_path\<close> column of the demo); the promise of the package is that a published row never names
  arrays that its own snapshot does not hold. This theory states the promise (\<open>paired\<close>), the
  documented behaviour of Icechunk's sessions it rests on (\<open>nodes_law\<close>), and proves that a commit
  keeps it, when no rival lands inside a recovery, if the session holds what the appended rows name (\<open>carries\<close>).
\<close>

subsection \<open>The nodes of a snapshot\<close>

text \<open>Path \<open>p\<close> is a node of the snapshot \<open>i\<close>, read as \<open>repo.readonly_session(snapshot_id=i)\<close>.\<close>

definition holds_node ::
    "('s, 'f, 'r, 'z) icechunk_lib_scheme \<Rightarrow> ('s, 'x, 'g, 'h, 'y) store_lib_scheme \<Rightarrow> 'r \<Rightarrow> string
     \<Rightarrow> string \<Rightarrow> bool" where
  "holds_node L S r i p \<longleftrightarrow> (\<exists>s. readonly_session L r i = Inr s \<and> node S s p \<noteq> None)"

text \<open>Snapshots are immutable: those that can be read keep their metadata and their nodes.\<close>

definition keeps_nodes ::
    "('s, 'f, 'r, 'z) icechunk_lib_scheme \<Rightarrow> ('s, 'x, 'g, 'h, 'y) store_lib_scheme \<Rightarrow> 'r \<Rightarrow> 'r \<Rightarrow> bool" where
  "keeps_nodes L S r r' \<longleftrightarrow>
     (\<forall>i m. lookup_snapshot L r i = Inr m \<longrightarrow>
        lookup_snapshot L r' i = Inr m \<and> holds_node L S r' i = holds_node L S r i)"

lemma keeps_nodes_refl [simp]: "keeps_nodes L S r r"
  by (simp add: keeps_nodes_def)

lemma keeps_nodes_trans: "keeps_nodes L S r s \<Longrightarrow> keeps_nodes L S s t \<Longrightarrow> keeps_nodes L S r t"
  by (simp add: keeps_nodes_def)

lemma pointers_at_readable: "pointers_at L r i = Some p \<Longrightarrow> \<exists>m. lookup_snapshot L r i = Inr m"
  by (auto simp: pointers_at_def split: sum.splits)

lemma keeps_nodesD:
  "keeps_nodes L S r r' \<Longrightarrow> pointers_at L r i = Some p \<Longrightarrow> holds_node L S r' i = holds_node L S r i"
  using pointers_at_readable unfolding keeps_nodes_def by fastforce

text \<open>
  What Icechunk documents of a session's nodes. A writable session starts with the nodes of the
  snapshot it is opened on; a commit makes a snapshot with exactly the session's nodes, and one that
  does not go through leaves them as they are. Rebasing with \<open>BasicConflictSolver\<close>, which solves no
  conflict between two nodes created at one path, carries the session's own new nodes over to a
  tip that does not have them, and takes over the tip's nodes except those the session deleted.
  Files in the warehouse are no nodes.
\<close>

definition session_nodes_law ::
    "('s, 'f, 'r, 'z) icechunk_lib_scheme \<Rightarrow> ('s, 'x, 'g, 'h, 'y) store_lib_scheme \<Rightarrow> bool" where
  "session_nodes_law L S \<longleftrightarrow>
     (\<forall>r b s p. writable_session L r b = Inr s \<longrightarrow>
        (node S s p \<noteq> None \<longleftrightarrow> holds_node L S r (session_base L s) p))
     \<and> (\<forall>r s msg md ae res r' s'. session_commit L r s msg md ae = (res, r', s') \<longrightarrow>
        keeps_nodes L S r r'
        \<and> (case res of
             Committed i \<Rightarrow> \<forall>p. holds_node L S r' i p \<longleftrightarrow> node S s p \<noteq> None
           | _ \<Rightarrow> node S s' = node S s))"

definition rebase_nodes_law ::
    "('s, 'f, 'r, 'z) icechunk_lib_scheme \<Rightarrow> ('s, 'x, 'g, 'h, 'y) store_lib_scheme \<Rightarrow> bool" where
  "rebase_nodes_law L S \<longleftrightarrow>
     (\<forall>r s s' p. session_rebase L r s = (Inr (), s') \<longrightarrow>
        (node S s p \<noteq> None \<and> \<not> holds_node L S r (session_base L s) p \<longrightarrow>
           node S s' p \<noteq> None \<and> \<not> holds_node L S r (session_base L s') p)
        \<and> (holds_node L S r (session_base L s') p
             \<and> (holds_node L S r (session_base L s) p \<longrightarrow> node S s p \<noteq> None) \<longrightarrow>
           node S s' p \<noteq> None))"

definition nodes_law ::
    "('s, 'f, 'r, 'm, 'b, 'd, 'o, 'z) iceberg_lib_scheme \<Rightarrow> ('s, 'x, 'g, 'h, 'y) store_lib_scheme \<Rightarrow> bool" where
  "nodes_law L S \<longleftrightarrow> session_nodes_law L S \<and> rebase_nodes_law L S
     \<and> (\<forall>r l m r'. write_metadata L r l m = Inr r' \<longrightarrow> keeps_nodes L S r r')
     \<and> (\<forall>r r'. data_write L r r' \<longrightarrow> keeps_nodes L S r r')"

lemma nodes_law_opened:
  "nodes_law L S \<Longrightarrow> writable_session L r b = Inr s \<Longrightarrow>
     node S s p \<noteq> None \<longleftrightarrow> holds_node L S r (session_base L s) p"
  unfolding nodes_law_def session_nodes_law_def by blast

lemma nodes_law_commit:
  assumes "nodes_law L S" and run: "session_commit L r s msg md ae = (res, r', s')"
  shows "keeps_nodes L S r r'"
    and "res = Committed i \<Longrightarrow> holds_node L S r' i p \<longleftrightarrow> node S s p \<noteq> None"
    and "(\<And>i. res \<noteq> Committed i) \<Longrightarrow> node S s' = node S s"
proof -
  have "session_nodes_law L S" using assms(1) by (simp add: nodes_law_def)
  note law = this [unfolded session_nodes_law_def, THEN conjunct2, rule_format, OF run]
  show "keeps_nodes L S r r'" using law by blast
  show "res = Committed i \<Longrightarrow> holds_node L S r' i p \<longleftrightarrow> node S s p \<noteq> None" using law by simp
  show "(\<And>i. res \<noteq> Committed i) \<Longrightarrow> node S s' = node S s" using law by (auto split: commit_result.splits)
qed

lemma nodes_law_rebase:
  assumes "nodes_law L S" and run: "session_rebase L r s = (Inr (), s')"
  shows "node S s p \<noteq> None \<Longrightarrow> \<not> holds_node L S r (session_base L s) p \<Longrightarrow>
      node S s' p \<noteq> None \<and> \<not> holds_node L S r (session_base L s') p"
    and "holds_node L S r (session_base L s') p \<Longrightarrow>
      (holds_node L S r (session_base L s) p \<Longrightarrow> node S s p \<noteq> None) \<Longrightarrow> node S s' p \<noteq> None"
proof -
  have "rebase_nodes_law L S" using assms(1) by (simp add: nodes_law_def)
  note law = this [unfolded rebase_nodes_law_def, rule_format, OF run]
  show "node S s p \<noteq> None \<Longrightarrow> \<not> holds_node L S r (session_base L s) p \<Longrightarrow>
      node S s' p \<noteq> None \<and> \<not> holds_node L S r (session_base L s') p"
    using law [of p] by blast
  show "holds_node L S r (session_base L s') p \<Longrightarrow>
      (holds_node L S r (session_base L s) p \<Longrightarrow> node S s p \<noteq> None) \<Longrightarrow> node S s' p \<noteq> None"
    using law [of p] by blast
qed

subsection \<open>The promise\<close>

text \<open>The path of a granule's own group, and the node a row names, if it names one.\<close>

definition granule_path :: "string \<Rightarrow> bool" where
  "granule_path p \<longleftrightarrow> (\<exists>g. plain_component g \<and> p = ''/'' @ g)"

definition paired ::
    "('s, 'f, 'r, 'm, 'b, 'd, 'o, 'z) iceberg_lib_scheme \<Rightarrow> ('s, 'x, 'g, 'h, 'y) store_lib_scheme
     \<Rightarrow> ('m \<Rightarrow> 'a multiset) \<Rightarrow> ('a \<Rightarrow> string option) \<Rightarrow> string \<Rightarrow> 'r \<Rightarrow> bool" where
  "paired L S rows_of path_of name r \<longleftrightarrow>
     (\<forall>i R x p. snapshot_rows L rows_of r i name = Some R \<longrightarrow> x \<in># R \<longrightarrow> path_of x = Some p \<longrightarrow>
        granule_path p \<and> holds_node L S r i p)"

definition sound ::
    "('s, 'f, 'r, 'm, 'b, 'd, 'o, 'z) iceberg_lib_scheme \<Rightarrow> ('s, 'x, 'g, 'h, 'y) store_lib_scheme
     \<Rightarrow> ('m \<Rightarrow> 'a multiset) \<Rightarrow> ('a \<Rightarrow> string option) \<Rightarrow> string \<Rightarrow> 'r \<Rightarrow> bool" where
  "sound L S rows_of path_of name r \<longleftrightarrow> store_ok L r \<and> paired L S rows_of path_of name r"

lemma pairedI:
  "(\<And>i R x p. snapshot_rows L rows_of r i name = Some R \<Longrightarrow> x \<in># R \<Longrightarrow> path_of x = Some p \<Longrightarrow>
      granule_path p \<and> holds_node L S r i p) \<Longrightarrow> paired L S rows_of path_of name r"
  unfolding paired_def by blast

lemma pairedD:
  "paired L S rows_of path_of name r \<Longrightarrow> snapshot_rows L rows_of r i name = Some R \<Longrightarrow> x \<in># R \<Longrightarrow>
     path_of x = Some p \<Longrightarrow> granule_path p \<and> holds_node L S r i p"
  unfolding paired_def by blast

lemma snapshot_rows_readable: "snapshot_rows L rows_of r i n = Some R \<Longrightarrow> \<exists>p. pointers_at L r i = Some p"
  by (auto simp: snapshot_rows_def split: option.splits)

text \<open>A snapshot that was there keeps its rows and its nodes.\<close>

lemma snapshot_rows_keeps:
  assumes "store_ok L r" and "keeps_history L r r'" and "pointers_at L r i = Some p"
  shows "snapshot_rows L rows_of r' i = snapshot_rows L rows_of r i"
proof -
  have "all_resolve L (map_of p) r"
    unfolding all_resolve_def using store_okD [OF assms(1,3)] by blast
  from table_rows_keeps [OF this assms(2)] assms(3) pointers_at_keeps [OF assms(2,3)]
  show ?thesis by (simp add: snapshot_rows_def)
qed

lemma paired_old:
  assumes "store_ok L r" and "paired L S rows_of path_of name r"
    and "keeps_history L r r'" and "keeps_nodes L S r r'" and "pointers_at L r i = Some q"
    and "snapshot_rows L rows_of r' i name = Some R" and "x \<in># R" and "path_of x = Some p"
  shows "granule_path p \<and> holds_node L S r' i p"
  using assms(6) pairedD [OF assms(2) _ assms(7,8)] keeps_nodesD [OF assms(4,5)]
  by (simp add: snapshot_rows_keeps [OF assms(1,3,5)])

lemma sound_grows:
  assumes "sound L S rows_of path_of name r" and "same_refs L r r'" and "keeps_history L r r'"
    and "keeps_nodes L S r r'"
  shows "sound L S rows_of path_of name r'"
proof -
  have ok: "store_ok L r" "paired L S rows_of path_of name r" using assms(1) by (simp_all add: sound_def)
  have "store_ok L r'"
    using assms(3) by (intro store_ok_grows [OF ok(1) assms(2)]) (simp add: keeps_history_def)
  moreover have "paired L S rows_of path_of name r'"
  proof (rule pairedI)
    fix i R x p
    assume R: "snapshot_rows L rows_of r' i name = Some R" "x \<in># R" "path_of x = Some p"
    then obtain q where "pointers_at L r i = Some q"
      using snapshot_rows_readable by (fastforce simp: pointers_at_same_refs [OF assms(2)])
    from paired_old [OF ok assms(3,4) this R] show "granule_path p \<and> holds_node L S r' i p" .
  qed
  ultimately show ?thesis by (simp add: sound_def)
qed

lemma paired_grown:
  assumes "sound L S rows_of path_of name r" and "keeps_history L r r'" and "keeps_nodes L S r r'"
    and ptrs: "pointers_at L r' = (pointers_at L r)(i := Some q)"
    and new: "\<And>R x p. snapshot_rows L rows_of r' i name = Some R \<Longrightarrow> x \<in># R \<Longrightarrow> path_of x = Some p \<Longrightarrow>
      granule_path p \<and> holds_node L S r' i p"
  shows "paired L S rows_of path_of name r'"
proof (rule pairedI)
  fix k R x p
  assume R: "snapshot_rows L rows_of r' k name = Some R" and x: "x \<in># R" "path_of x = Some p"
  show "granule_path p \<and> holds_node L S r' k p"
  proof (cases "k = i")
    case True
    with R x new show ?thesis by blast
  next
    case False
    then obtain u where u: "pointers_at L r k = Some u" using snapshot_rows_readable [OF R] by (auto simp: ptrs)
    have "store_ok L r" "paired L S rows_of path_of name r" using assms(1) by (simp_all add: sound_def)
    from paired_old [OF this assms(2,3) u R x] show ?thesis .
  qed
qed

subsection \<open>Staging tables touches no node\<close>

definition nodes_frame ::
    "('s, 'f, 'r, 'm, 'b, 'd, 'o, 'z) iceberg_lib_scheme \<Rightarrow> ('s, 'x, 'g, 'h, 'y) store_lib_scheme
     \<Rightarrow> ('r, 'y1) catalog_state_scheme \<Rightarrow> ('r, 'y1) catalog_state_scheme \<Rightarrow> bool" where
  "nodes_frame L S s s' \<longleftrightarrow> keeps_nodes L S (remote s) (remote s')"

interpretation nodes: step_frame
    "nodes_frame L S :: ('r, 'y1) catalog_state_scheme \<Rightarrow> ('r, 'y1) catalog_state_scheme \<Rightarrow> bool"
    for L :: "('s, 'f, 'r, 'm, 'b, 'd, 'o, 'z) iceberg_lib_scheme" and S
  by unfold_locales (auto simp: nodes_frame_def intro: keeps_nodes_trans)

lemma write_and_stage_nodes:
  assumes "nodes_law L S"
  shows "keeps (nodes_frame L S) (write_and_stage L n v m)"
proof (rule keepsI)
  fix s r s'
  assume "write_and_stage L n v m s = (r, s')"
  then have "remote s' = remote s \<or> (\<exists>l. write_metadata L (remote s) l m = Inr (remote s'))"
    by (auto simp: write_and_stage_def metadata_location_for_run call_write_metadata_def stage_def
        pbind_run pthen_run split: sum.splits)
  with assms show "nodes_frame L S s s'" unfolding nodes_frame_def nodes_law_def by fastforce
qed

lemma create_table_nodes:
  assumes "nodes_law L S"
  shows "keeps (nodes_frame L S) (create_table L i sc loc ps so pr)"
  unfolding create_table_def assert_writable_def Let_def
  by (intro nodes.steps write_and_stage_nodes assms)

lemma commit_table_nodes:
  assumes "nodes_law L S"
  shows "keeps (nodes_frame L S) (commit_table L t rq up)"
  unfolding commit_table_def assert_writable_def Let_def
  by (intro nodes.steps nodes.for_each_step write_and_stage_nodes assms) (simp add: keeps_def nodes.refl)

lemma apply_intents_nodes:
  assumes "nodes_law L S"
  shows "keeps (nodes_frame L S) (apply_intents L)"
proof -
  have files: "nodes_frame L S s (s\<lparr>remote := r\<rparr>)" if "data_write L (remote s) r" for s r
    using assms that by (simp add: nodes_law_def nodes_frame_def)
  have "keeps (nodes_frame L S) (intent_apply L i)" for i
    by (rule intent_apply_step, erule files)
      (intro nodes.step_frame_axioms create_table_nodes commit_table_nodes assms)+
  then show ?thesis
    unfolding apply_intents_def by (intro nodes.steps nodes.for_each_step)
qed

subsection \<open>What the session holds\<close>

text \<open>
  \<open>carries\<close>: the session still holds every granule of its base, and holds the granules \<open>G\<close>, which are
  not in its base. A step that moves neither nodes nor base (\<open>unmoved\<close>) keeps it, and so does a
  rebase.
\<close>

definition carries ::
    "('s, 'f, 'r, 'z) icechunk_lib_scheme \<Rightarrow> ('s, 'x, 'g, 'h, 'y) store_lib_scheme \<Rightarrow> string set
     \<Rightarrow> ('r, 's, 'd, 'b, 'o) transaction \<Rightarrow> bool" where
  "carries L S G t \<longleftrightarrow>
     (\<forall>p. granule_path p \<longrightarrow> holds_node L S (remote t) (session_base L (session t)) p
        \<longrightarrow> node S (session t) p \<noteq> None)
     \<and> (\<forall>p \<in> G. granule_path p \<and> node S (session t) p \<noteq> None
        \<and> \<not> holds_node L S (remote t) (session_base L (session t)) p)"

definition unmoved ::
    "('s, 'f, 'r, 'z) icechunk_lib_scheme \<Rightarrow> ('s, 'x, 'g, 'h, 'y) store_lib_scheme
     \<Rightarrow> ('r, 's, 'd, 'b, 'o) transaction \<Rightarrow> ('r, 's, 'd, 'b, 'o) transaction \<Rightarrow> bool" where
  "unmoved L S t t' \<longleftrightarrow> keeps_nodes L S (remote t) (remote t')
     \<and> node S (session t') = node S (session t)
     \<and> session_base L (session t') = session_base L (session t)"

lemma unmoved_trans: "unmoved L S t u \<Longrightarrow> unmoved L S u v \<Longrightarrow> unmoved L S t v"
  by (auto simp: unmoved_def intro: keeps_nodes_trans)

lemma synced_base: "synced L t \<Longrightarrow> pointers_at L (remote t) (session_base L (session t)) = Some (pointers t)"
  by (simp add: synced_def)

lemma carries_unmoved:
  assumes "carries L S G t" and "synced L t" and "unmoved L S t t'"
  shows "carries L S G t'"
proof -
  have "keeps_nodes L S (remote t) (remote t')" using assms(3) by (simp add: unmoved_def)
  then have "holds_node L S (remote t') (session_base L (session t))
      = holds_node L S (remote t) (session_base L (session t))"
    using synced_base [OF assms(2)] by (rule keeps_nodesD)
  with assms(1,3) show ?thesis by (simp add: carries_def unmoved_def)
qed

text \<open>The other writers run the same code on the same repository: they keep what this one keeps.\<close>

definition neighbours_law ::
    "('s, 'f, 'r, 'm, 'b, 'd, 'o, 'z) iceberg_lib_scheme \<Rightarrow> ('s, 'x, 'g, 'h, 'y) store_lib_scheme
     \<Rightarrow> ('m \<Rightarrow> 'a multiset) \<Rightarrow> ('a \<Rightarrow> string option) \<Rightarrow> string \<Rightarrow> bool" where
  "neighbours_law L S rows_of path_of name \<longleftrightarrow>
     (\<forall>n r. keeps_nodes L S r (others L n r)
        \<and> (store_ok L r \<longrightarrow> store_ok L (others L n r))
        \<and> (sound L S rows_of path_of name r \<longrightarrow> sound L S rows_of path_of name (others L n r)))"

lemma neighboursD:
  assumes "neighbours_law L S rows_of path_of name"
  shows "keeps_nodes L S r (others L n r)"
    and "store_ok L r \<Longrightarrow> store_ok L (others L n r)"
    and "sound L S rows_of path_of name r \<Longrightarrow> sound L S rows_of path_of name (others L n r)"
  using assms unfolding neighbours_law_def by blast+

lemma let_others_unmoved:
  "neighbours_law L S rows_of path_of name \<Longrightarrow> unmoved L S t (let_others L t)"
  by (simp add: unmoved_def let_others_def neighboursD(1))

lemma apply_intents_unmoved:
  fixes t t' :: "('r, 's, 'd, 'b, 'o) transaction"
  assumes "world_laws L" and "nodes_law L S" and "apply_intents L t = (r, t')"
  shows "unmoved L S t t'"
  using keepsD [OF apply_intents_nodes [OF assms(2)] assms(3)] keepsD [OF apply_intents_frame [OF assms(1)] assms(3)]
  by (simp add: unmoved_def nodes_frame_def tx_more(1) [OF catalog_frameD(9)])

lemma failed_commit_unmoved:
  assumes laws: "world_laws L" "nodes_law L S" "neighbours_law L S rows_of path_of name"
    and run: "call_session_commit L md ae t = (res, t')" and no: "\<And>i. res \<noteq> Committed i"
  shows "unmoved L S t t'"
proof -
  obtain r s where c: "session_commit L (remote (let_others L t)) (session (let_others L t))
        (message (let_others L t)) md ae = (res, r, s)"
    and t': "t' = (let_others L t)\<lparr>remote := r, session := s\<rparr>"
    using run by (auto simp: call_session_commit_def Let_def split: prod.splits)
  have "unmoved L S (let_others L t) t'"
    using nodes_law_commit(1,3) [OF laws(2) c] no call_session_commit_failed(2) [OF laws(1) run no]
    by (simp add: unmoved_def t' let_others_def)
  then show ?thesis by (rule unmoved_trans [OF let_others_unmoved [OF laws(3)]])
qed

text \<open>A pass that has to be repeated: the nodes ride along on the rebase.\<close>

lemma retry_carries:
  assumes laws: "world_laws L" "nodes_law L S" "neighbours_law L S rows_of path_of name"
    and "carries L S G t" and sync: "synced L t" and run: "commit_attempt L a t = (Inr None, t')"
  shows "carries L S G t'"
proof -
  from run obtain t1 t2 md ae where ap: "apply_intents L t = (Inr (), t1)"
    and c: "call_session_commit L md ae t1 = (CommitConflict, t2)" and rec: "recover L t2 = (Inr (), t')"
    by (auto simp: commit_attempt_def elim!: pthen_InrE split: if_splits prod.splits commit_result.splits)
  from rec have reb: "session_rebase L (remote t') (session t2) = (Inr (), session t')"
    and rem: "remote t' = remote (let_others L (let_others L t2))"
    by (elim recover_done; simp add: let_others_def)+
  let ?t3 = "(let_others L (let_others L t2))"
  have "unmoved L S t1 t2" by (rule failed_commit_unmoved [OF laws c]) simp
  with apply_intents_unmoved [OF laws(1,2) ap] have "unmoved L S t t2" by (rule unmoved_trans)
  then have "unmoved L S t ?t3"
    using let_others_unmoved [OF laws(3)] by (blast intro: unmoved_trans)
  from carries_unmoved [OF assms(4) sync this] have here: "carries L S G ?t3" .
  note move = nodes_law_rebase [OF laws(2) reb]
  show ?thesis
    unfolding carries_def
  proof (intro conjI allI impI ballI)
    fix p assume "granule_path p" "holds_node L S (remote t') (session_base L (session t')) p"
    with here show "node S (session t') p \<noteq> None"
      by (intro move(2)) (auto simp: carries_def rem let_others_def)
  next
    fix p assume "p \<in> G"
    with here have "granule_path p" "node S (session t2) p \<noteq> None"
      "\<not> holds_node L S (remote t') (session_base L (session t2)) p"
      by (simp_all add: carries_def rem let_others_def)
    with move(1) show "granule_path p" "node S (session t') p \<noteq> None"
      "\<not> holds_node L S (remote t') (session_base L (session t')) p" by blast+
  qed
qed

subsection \<open>A commit keeps the promise\<close>

text \<open>What the intents can add to the table: only rows that name granules of \<open>G\<close>.\<close>

definition adds_only ::
    "('d \<Rightarrow> 'a multiset) \<Rightarrow> ('b predicate \<Rightarrow> 'a \<Rightarrow> bool) \<Rightarrow> ('a \<Rightarrow> string option) \<Rightarrow> string \<Rightarrow> string set
     \<Rightarrow> ('d, 'b, 'o) intent list \<Rightarrow> bool" where
  "adds_only dat sat path_of name G is \<longleftrightarrow>
     (\<forall>c c' R' x p. row_run dat sat is c = Some c' \<longrightarrow> c' name = Some R' \<longrightarrow> x \<in># R' \<longrightarrow> path_of x = Some p \<longrightarrow>
        (\<exists>R. c name = Some R \<and> x \<in># R) \<or> p \<in> G)"

lemma adds_onlyD:
  "adds_only dat sat path_of name G is \<Longrightarrow> row_run dat sat is c = Some c' \<Longrightarrow> c' name = Some R' \<Longrightarrow>
     x \<in># R' \<Longrightarrow> path_of x = Some p \<Longrightarrow> (\<exists>R. c name = Some R \<and> x \<in># R) \<or> p \<in> G"
  unfolding adds_only_def by blast

lemma append_adds_only:
  "(\<And>x p. x \<in># dat d \<Longrightarrow> path_of x = Some p \<Longrightarrow> p \<in> G) \<Longrightarrow>
     adds_only dat sat path_of name G [AppendRows n d :: ('d, 'b, 'o) intent]"
  by (auto simp: adds_only_def bind_eq_Some_conv split: if_splits)

lemma apply_intents_sound:
  fixes t t' :: "('r, 's, 'd, 'b, 'o) transaction"
  assumes "world_laws L" and "nodes_law L S" and "sound L S rows_of path_of name (remote t)"
    and run: "apply_intents L t = (r, t')"
  shows "sound L S rows_of path_of name (remote t')"
proof -
  have f: "catalog_frame L t t'" by (rule keepsD [OF apply_intents_frame [OF assms(1)] run])
  have "keeps_nodes L S (remote t) (remote t')"
    using apply_intents_unmoved [OF assms(1,2) run] by (simp add: unmoved_def)
  with assms(3) catalog_frameD(1) [OF f] catalog_frame_history [OF f] show ?thesis by (rule sound_grows)
qed

text \<open>The pass that publishes.\<close>

lemma published_pass_paired:
  fixes t t' :: "('r, 's, 'd, 'b, 'o) transaction"
  assumes laws: "world_laws L" "nodes_law L S" "neighbours_law L S rows_of path_of name"
    and rows: "rows_law L rows_of dat sat"
    and t: "synced L t" "staged t = []" "sound L S rows_of path_of name (remote t)" "carries L S G t"
    and plain: "\<And>x. x \<in> set (intents t) \<Longrightarrow> plain_name L (intent_name x)"
    and adds: "adds_only dat sat path_of name G (intents t)"
    and run: "commit_attempt L a t = (Inr (Some i), t')"
  shows "paired L S rows_of path_of name (remote t')"
proof -
  from run obtain t1 ae t2 where ap: "apply_intents L t = (Inr (), t1)"
    and c: "call_session_commit L (commit_metadata (current_pointers t1)) ae t1 = (Committed i, t2)"
    and t': "remote t' = remote t2"
    by (auto simp: commit_attempt_def elim!: pthen_InrE split: if_splits prod.splits commit_result.splits)
  let ?u = "let_others L t1"
  note pub = call_session_commit_done(1) [OF laws(1) c]
  obtain r s where "session_commit L (remote ?u) (session ?u) (message ?u) (commit_metadata (current_pointers t1)) ae
      = (Committed i, r, s)" and "remote t2 = r"
    using c by (auto simp: call_session_commit_def Let_def split: prod.splits)
  with nodes_law_commit(1,2) [OF laws(2)] have new: "keeps_nodes L S (remote ?u) (remote t')"
      "holds_node L S (remote t') i p \<longleftrightarrow> node S (session ?u) p \<noteq> None" for p
    by (simp_all add: t')
  have u: "sound L S rows_of path_of name (remote ?u)"
    using apply_intents_sound [OF laws(1,2) t(3) ap] neighboursD(3) [OF laws(3)] by (simp add: let_others_def)
  have "unmoved L S t ?u"
    using apply_intents_unmoved [OF laws(1,2) ap] let_others_unmoved [OF laws(3)] by (rule unmoved_trans)
  then have here: "carries L S G ?u" and base: "session_base L (session ?u) = session_base L (session t)"
    using carries_unmoved [OF t(4,1)] by (simp_all add: unmoved_def)
  have "store_ok L (remote t)" using t(3) by (simp add: sound_def)
  from replay_rows [OF laws(1) rows t(1,2) this plain ap pub] have grown:
    "row_run dat sat (intents t) (snapshot_rows L rows_of (remote ?u) (session_base L (session t)))
      = Some (snapshot_rows L rows_of (remote t') i)" by (simp add: t')
  have old: "paired L S rows_of path_of name (remote ?u)" using u by (simp add: sound_def)
  have hist: "keeps_history L (remote ?u) (remote t')" using published_history [OF pub] by (simp add: t')
  have ptrs: "pointers_at L (remote t') = (pointers_at L (remote ?u))(i := Some (current_pointers t1))"
    using published_pointers [OF pub] by (simp add: t')
  show ?thesis
  proof (rule paired_grown [OF u hist new(1) ptrs])
    fix R x p
    assume R: "snapshot_rows L rows_of (remote t') i name = Some R" and x: "x \<in># R" "path_of x = Some p"
    from adds_onlyD [OF adds grown R x] pairedD [OF old _ _ x(2)]
    have "p \<in> G \<or> granule_path p \<and> holds_node L S (remote ?u) (session_base L (session t)) p" by blast
    with here base new(2) show "granule_path p \<and> holds_node L S (remote t') i p" by (auto simp: carries_def)
  qed
qed

text \<open>A pass that does not.\<close>

lemma unpublished_pass_sound:
  fixes t t' :: "('r, 's, 'd, 'b, 'o) transaction"
  assumes laws: "world_laws L" "nodes_law L S" "neighbours_law L S rows_of path_of name"
    and t: "sound L S rows_of path_of name (remote t)"
    and run: "commit_attempt L a t = (res, t')" and no: "\<And>i. res \<noteq> Inr (Some i)"
  shows "sound L S rows_of path_of name (remote t')"
proof -
  have refused_world: "sound L S rows_of path_of name (remote u)"
    if "apply_intents L t = (r1, t1)" and c: "call_session_commit L md ae t1 = (cres, u)"
      and none: "\<And>i. cres \<noteq> Committed i" for r1 t1 md ae cres u
  proof -
    have start: "sound L S rows_of path_of name (remote (let_others L t1))"
      using apply_intents_sound [OF laws(1,2) t that(1)] neighboursD(3) [OF laws(3)] by (simp add: let_others_def)
    obtain r s where sc: "session_commit L (remote (let_others L t1)) (session (let_others L t1))
        (message (let_others L t1)) md ae = (cres, r, s)" and u: "remote u = r"
      using c by (auto simp: call_session_commit_def Let_def split: prod.splits)
    have "commit_law L" using laws(1) by (simp add: world_laws_def)
    note law = this [unfolded commit_law_def, rule_format, OF sc]
    have "same_refs L (remote (let_others L t1)) r" using law none by (cases cres) auto
    moreover from this have "keeps_history L (remote (let_others L t1)) r"
      using law by (auto simp: keeps_history_def same_refs_def)
    ultimately show ?thesis
      unfolding u using nodes_law_commit(1) [OF laws(2) sc] by (rule sound_grows [OF start])
  qed
  from run no show ?thesis
  proof (cases rule: commit_attempt_unpublished_cases)
    case applied
    then show ?thesis by (rule apply_intents_sound [OF laws(1,2) t])
  next
    case refused
    with refused_world show ?thesis by blast
  next
    case (recovered r1 s1 md ae cres s2 r)
    have "keeps (world_frame (sound L S rows_of path_of name)) (recover L)"
      by (rule recover_world) (rule neighboursD(3) [OF laws(3)])
    from keepsD [OF this recovered(4)] refused_world [OF recovered(1,2,3)] show ?thesis by (simp add: world_frame_def)
  qed
qed

text \<open>However the commit ends.\<close>

lemma commit_sound:
  fixes t t' :: "('r, 's, 'd, 'b, 'o) transaction"
  assumes laws: "world_laws L" "nodes_law L S" "neighbours_law L S rows_of path_of name"
    and rows: "rows_law L rows_of dat sat"
    and t: "synced L t" "staged t = []" "sound L S rows_of path_of name (remote t)" "carries L S G t"
    and pause: "no_writer_between L (branch t) (clock t)"
    and plain: "\<And>x. x \<in> set (intents t) \<Longrightarrow> plain_name L (intent_name x)"
    and adds: "adds_only dat sat path_of name G (intents t)"
    and run: "commit L t = (res, t')"
  shows "sound L S rows_of path_of name (remote t')"
proof -
  let ?J = "\<lambda>u :: ('r, 's, 'd, 'b, 'o) transaction. sound L S rows_of path_of name (remote u) \<and> carries L S G u"
  have start: "?J (t\<lparr>unmanaged_staged := dict_keys (staged t)\<rparr>)" using t(3,4) by (simp add: carries_def)
  have retry: "?J u'" if "?J u" "synced L u" "commit_attempt L a u = (Inr None, u')" for a u u'
    using that unpublished_pass_sound [OF laws _ that(3)] retry_carries [OF laws _ that(2,3)] by simp
  from laws(1) t(1,2) pause run start retry show ?thesis
  proof (rule commit_last_pass [where J = ?J])
    assume "?J t'"
    then show ?thesis by (rule conjunct1)
  next
    fix u a q
    assume u: "config_frame L t u" "synced L u" "staged u = []" "?J u"
      and at: "commit_attempt L a u = (q, t')"
    show ?thesis
    proof (cases "\<exists>i. q = Inr (Some i)")
      case False
      then show ?thesis using u(4) unpublished_pass_sound [OF laws _ at] by blast
    next
      case True
      then obtain i where i: "commit_attempt L a u = (Inr (Some i), t')" using at by blast
      have ints: "intents u = intents t" using u(1) by (simp add: config_frame_def)
      have "paired L S rows_of path_of name (remote t')"
        using u(4) plain adds by (intro published_pass_paired [OF laws rows u(2,3) _ _ _ _ i]) (simp_all add: ints)
      moreover have "store_ok L (remote t')"
        using t(1-3) by (intro commit_store_ok [OF laws(1) neighboursD(2) [OF laws(3)] _ _ _ run]) (simp_all add: sound_def)
      ultimately show ?thesis by (simp add: sound_def)
    qed
  qed
qed

subsection \<open>Nodes outlive a commit\<close>

lemma commit_nodes:
  fixes L :: "('s, 'f, 'r, 'm, 'b, 'd, 'o, 'z) iceberg_lib_scheme"
  assumes laws: "world_laws L" "nodes_law L S" and others: "\<And>n r. keeps_nodes L S r (others L n r)"
  shows "keeps (world_frame (keeps_nodes L S r0)) (commit L)"
proof -
  let ?K = "world_frame (keeps_nodes L S r0) :: ('r, 's, 'd, 'b, 'o) transaction \<Rightarrow> _"
  have apply_step: "keeps ?K (apply_intents L)"
    using keepsD [OF apply_intents_nodes [OF laws(2)]]
    by (intro keepsI) (auto simp: world_frame_def nodes_frame_def intro: keeps_nodes_trans)
  have call: "?K t t'" if run: "call_session_commit L md ae t = (res, t')" for t t' :: "('r, 's, 'd, 'b, 'o) transaction" and md ae res
  proof -
    obtain r s where "session_commit L (remote (let_others L t)) (session (let_others L t)) (message (let_others L t)) md ae
        = (res, r, s)" and t': "remote t' = r"
      using run by (auto simp: call_session_commit_def Let_def split: prod.splits)
    from nodes_law_commit(1) [OF laws(2) this(1)] have "keeps_nodes L S (remote (let_others L t)) (remote t')" by (simp add: t')
    then show ?thesis
      by (auto simp: world_frame_def let_others_def intro: keeps_nodes_trans [OF keeps_nodes_trans [OF _ others]])
  qed
  have rec: "keeps ?K (recover L)"
    by (rule recover_world) (rule keeps_nodes_trans [OF _ others])
  have attempt: "keeps ?K (commit_attempt L a)" for a
    unfolding commit_attempt_def
  proof (intro world.then_step apply_step keepsI)
    fix t r t'
    assume "(if nothing_to_publish L t \<and> a = 0 then (Inl (ValueError (NoChanges (message t))), t)
       else case call_session_commit L (commit_metadata (current_pointers t)) (allow_empty L t) t of
              (Committed i, s') \<Rightarrow> (Inr (Some i), s'\<lparr>snapshot_id := Some i\<rparr>)
            | (CommitFailed e, s') \<Rightarrow> (Inl (LibError e), s')
            | (CommitConflict, s') \<Rightarrow> if a = max_retries s' then (Inl ConflictError, s')
                else pthen (recover L) (pret None) s') = (r, t')"
    moreover have "keeps ?K (pthen (recover L) (pret None))" by (intro world.steps rec)
    ultimately show "?K t t'"
      using call [of "commit_metadata (current_pointers t)" "allow_empty L t" t]
      by (auto split: if_splits prod.splits commit_result.splits dest!: keepsD intro: world.trans simp: world.refl)
        (auto simp: world_frame_def)
  qed
  have "keeps ?K (commit_loop L as)" for as
  proof (induction as)
    case Nil
    show ?case by (simp add: keeps_def world.refl)
  next
    case (Cons a as)
    then show ?case by (auto intro!: world.steps attempt split: option.split)
  qed
  then show ?thesis
    unfolding commit_def by (intro world.steps) (simp_all add: world_frame_def)
qed

end
