(* ===== verification/Lone.thy ===== *)
theory Lone
  imports Store Nodes
begin

text \<open>
  A repository that this process has to itself, as the two examples have theirs. Then a commit of a
  transaction with nothing staged runs its intents on the very tip that \<open>main\<close> shows, and a \<open>with\<close>
  block is that commit.
\<close>

subsection \<open>The tip, and transactions that are ready to commit\<close>

definition lone :: "('s, 'f, 'r, 'z) icechunk_lib_scheme \<Rightarrow> bool" where
  "lone L \<longleftrightarrow> (\<forall>n r. others L n r = r)"

text \<open>\<open>tip_shows\<close>: the branch points at \<open>i\<close>, whose tables are \<open>c\<close>.\<close>

definition tip_shows ::
    "('s, 'f, 'r, 'm, 'b, 'd, 'o, 'z) iceberg_lib_scheme \<Rightarrow> ('m \<Rightarrow> 'a multiset) \<Rightarrow> 'r \<Rightarrow> string
     \<Rightarrow> 'a tables \<Rightarrow> bool" where
  "tip_shows L rows_of r i c \<longleftrightarrow>
     store_ok L r \<and> lookup_branch L r ''main'' = Inr i \<and> pointers_at L r i \<noteq> None
     \<and> snapshot_rows L rows_of r i = c"

definition ready ::
    "('s, 'f, 'r, 'm, 'b, 'd, 'o, 'z) iceberg_lib_scheme \<Rightarrow> ('d, 'b, 'o) intent list
     \<Rightarrow> ('r, 's, 'd, 'b, 'o) transaction \<Rightarrow> bool" where
  "ready L is t \<longleftrightarrow> synced L t \<and> staged t = [] \<and> branch t = ''main'' \<and> intents t = is"

text \<open>What a step of the script may do to the rest of the repository.\<close>

definition builds_on ::
    "('s, 'f, 'r, 'm, 'b, 'd, 'o, 'z) iceberg_lib_scheme \<Rightarrow> 'r \<Rightarrow> 'r \<Rightarrow> bool" where
  "builds_on L r r' \<longleftrightarrow> keeps_history L r r' \<and> lookup_tag L r' = lookup_tag L r"

lemma builds_on_refl [simp]: "builds_on L r r"
  by (simp add: builds_on_def)

lemma builds_on_trans [trans]: "builds_on L r s \<Longrightarrow> builds_on L s t \<Longrightarrow> builds_on L r t"
  by (auto simp: builds_on_def intro: keeps_history_trans)

lemma lone_neighbours: "lone L \<Longrightarrow> neighbours_law L S rows_of path_of name"
  by (simp add: neighbours_law_def lone_def)

lemma lone_pause: "lone L \<Longrightarrow> no_writer_between L b n"
  by (simp add: no_writer_between_def lone_def)

lemma let_others_lone: "lone L \<Longrightarrow> remote (let_others L p) = remote p"
  by (simp add: let_others_def lone_def)

lemma unpublished_lone: "lone L \<Longrightarrow> unpublished L r r' \<Longrightarrow> same_refs L r r'"
  by (erule unpublished_quiet) (simp add: lone_def)

lemma opened_ready:
  assumes laws: "world_laws L" "lone L"
    and run: "repo_transaction L conf ''main'' msg None None p = (Inr t :: 'b exn + ('r, 's, 'd, 'b, 'o) transaction, p')"
  shows "ready L [] t" and "remote t = remote p" and "remote p' = remote p"
proof -
  have law: "session_law L" using laws(1) by (simp add: world_laws_def)
  have init: "tx_init L conf ''main'' msg DEFAULT_MAX_RETRIES None p = (Inr t :: 'b exn + ('r, 's, 'd, 'b, 'o) transaction, p')"
    using run by (simp add: repo_transaction_def)
  show "ready L [] t" using tx_init_synced(1-4) [OF law init] by (simp add: ready_def)
  show "remote t = remote p" "remote p' = remote p"
    using tx_init_state [OF init] let_others_lone [OF laws(2), of p] by simp_all
qed

text \<open>A commit of such a transaction runs its intents on the tip.\<close>

lemma commit_tip:
  fixes t t' :: "('r, 's, 'd, 'b, 'o) transaction"
  assumes laws: "world_laws L" "lone L" "rows_law L rows_of dat sat"
    and plain: "\<And>x. x \<in> set is \<Longrightarrow> plain_name L (intent_name x)"
    and t: "ready L is t" and tip: "tip_shows L rows_of (remote t) j c" and run: "commit L t = (Inr i, t')"
  shows "\<exists>c'. row_run dat sat is c = Some c' \<and> tip_shows L rows_of (remote t') i c'"
    and "builds_on L (remote t) (remote t')"
proof -
  have t': "synced L t" "staged t = []" "branch t = ''main''" "intents t = is" "store_ok L (remote t)"
    using t tip by (simp_all add: ready_def tip_shows_def)
  have others: "store_ok L r \<Longrightarrow> store_ok L (others L n r)" for n r using laws(2) by (simp add: lone_def)
  have pause: "no_writer_between L (branch t) (clock t)" by (rule lone_pause [OF laws(2)])
  have hist: "keeps_history L (remote t) (remote t')"
    using keepsD [OF commit_history [OF laws(1)] run] by (simp add: history_frame_def)
  obtain r k where r: "unpublished L (remote t) r" "lookup_branch L r ''main'' = Inr k"
    and runs: "row_run dat sat is (snapshot_rows L rows_of r k) = Some (snapshot_rows L rows_of (remote t') i)"
    and main: "lookup_branch L (remote t') ''main'' = Inr i"
    using commit_rows [OF laws(1,3) others t'(5,1,2) pause _ run] plain t'(3,4) by auto
  have "same_refs L (remote t) r" by (rule unpublished_lone [OF laws(2) r(1)])
  then have "k = j" using r(2) tip by (simp add: same_refs_def tip_shows_def)
  moreover have "keeps_history L (remote t) r"
    using unpublished_history r(1) laws(1) by (auto simp: world_laws_def)
  ultimately have "snapshot_rows L rows_of r k = c"
    using tip snapshot_rows_keeps [OF t'(5)] by (auto simp: tip_shows_def)
  moreover obtain r2 where r2: "unpublished L (remote t) r2" "published L ''main'' i (current_pointers t') r2 (remote t')"
    using commit_returned [OF laws(1) run] t' by (auto simp: synced_def)
  have "pointers_at L (remote t') i \<noteq> None" using published_pointers [OF r2(2)] by simp
  moreover have "store_ok L (remote t')" by (rule commit_store_ok [OF laws(1) others t'(5,1,2) run])
  ultimately show "\<exists>c'. row_run dat sat is c = Some c' \<and> tip_shows L rows_of (remote t') i c'"
    using runs main by (auto simp: tip_shows_def)
  have "lookup_tag L (remote t') = lookup_tag L (remote t)"
    using r2(2) unpublished_lone [OF laws(2) r2(1)] by (simp add: published_def same_refs_def)
  with hist show "builds_on L (remote t) (remote t')" by (simp add: builds_on_def)
qed

subsection \<open>Blocks\<close>

text \<open>Bodies: they stage, and add their intents to the list.\<close>

definition stages_intents ::
    "('s, 'f, 'r, 'm, 'b, 'd, 'o, 'z) iceberg_lib_scheme \<Rightarrow> (('d, 'b, 'o) intent list \<Rightarrow> bool)
     \<Rightarrow> (('r, 's, 'd, 'b, 'o) transaction, 'b exn, unit) pgm \<Rightarrow> bool" where
  "stages_intents L P body \<longleftrightarrow> keeps (stage_frame_of L) body
     \<and> (\<forall>t u t'. body t = (Inr u, t') \<longrightarrow> (\<exists>is. P is \<and> intents t' = intents t @ is))"

lemma stages_ready:
  fixes t t' :: "('r, 's, 'd, 'b, 'o) transaction"
  assumes "stages_intents L P body" and "ready L [] t" and run: "body t = (Inr u, t')"
  shows "\<exists>is. P is \<and> ready L is t'" and "remote t' = remote t"
proof -
  from assms(1) have frame: "stage_frame_of L t t'" using run by (auto simp: stages_intents_def dest: keepsD)
  from assms(1) run obtain "is" where "P is" "intents t' = intents t @ is" unfolding stages_intents_def by blast
  moreover have "synced L t' \<and> staged t' = staged t" using assms(2) frame by (intro synced_staging) (simp_all add: ready_def)
  ultimately show "\<exists>is. P is \<and> ready L is t'"
    using assms(2) frame by (auto simp: ready_def stage_frame_of_def)
  show "remote t' = remote t" using frame by (simp add: stage_frame_of_def)
qed

text \<open>A \<open>with\<close> block commits such a transaction, opened in the present world.\<close>

lemma block_commits:
  fixes L :: "('s, 'f, 'r, 'm, 'b, 'd, 'o, 'z) iceberg_lib_scheme"
  assumes laws: "world_laws L" "lone L" and body: "stages_intents L P body"
    and run: "in_new_transaction L conf ''main'' msg body p = (Inr u :: 'b exn + unit, p')"
  obtains "is" t i t' where "P is" and "ready L is t" and "remote t = remote p"
    and "commit L t = (Inr i :: 'b exn + string, t' :: ('r, 's, 'd, 'b, 'o) transaction)" and "remote p' = remote t'"
proof -
  from run obtain t0 p1 t2 where init: "repo_transaction L conf ''main'' msg None None p
        = (Inr t0 :: 'b exn + ('r, 's, 'd, 'b, 'o) transaction, p1)"
    and block: "with_transaction L body t0 = (Inr u :: 'b exn + unit, t2)" and p': "remote p' = remote t2"
    by (auto simp: in_new_transaction_def elim!: pbind_InrE split: prod.splits)
  note t0 = opened_ready [OF laws init]
  have frame: "keeps (stage_frame_of L) body" using body by (simp add: stages_intents_def)
  have "session_branch L (session t0) = branch t0" using t0(1) by (simp add: ready_def synced_def)
  with laws(1) frame show thesis using block
  proof (cases rule: block_cases)
    case (raised e)
    then show thesis by simp
  next
    case (done_by t1 i r)
    from stages_ready [OF body t0(1) done_by(2)] obtain "is" where "P is" "ready L is t1" "remote t1 = remote p"
      using t0(2) by auto
    with done_by(3) p' show thesis using that by blast
  qed
qed

subsection \<open>Reading the tip\<close>

lemma read_main:
  assumes "lone L" and "repo_read L conf (Some ''main'') None None p = (Inr snap :: 'b exn + ('r, 's) hybrid_snapshot, p')"
  shows "remote p' = remote p" and "remote snap = remote p" and "lookup_branch L (remote p) ''main'' = Inr (snap_id snap)"
  using assms let_others_lone [OF assms(1), of p]
  by (auto simp: repo_read_def snapshot_for_def snapshot_of_def call_lookup_branch_def
      elim!: pbind_InrE pthen_InrE dest!: lib_result_InrD)

lemma table_read_rows:
  fixes L :: "('s, 'f :: zero, 'r, 'm, 'b, 'd, 'o, 'z) iceberg_lib_scheme"
  assumes "fst (snapshot_table L n snap) = (Inr t :: 'b exn + 'm iceberg_table)"
    and rows: "snapshot_rows L rows_of (remote snap) (snap_id snap) n = Some R"
  shows "rows_of (table_metadata t) = R"
proof -
  have "snapshot_table L n snap = (Inr t :: 'b exn + _, snd (snapshot_table L n snap))"
    using assms(1) by (simp add: prod_eq_iff)
  from snapshot_table_InrD [OF this] obtain q l where q: "pointers_at L (remote snap) (snap_id snap) = Some q"
      "map_of q n = Some l"
    and load: "load_table L (IdStr n) (catalog_for (snap_repo snap) [(n, l)] True snap)
      = (Inr t :: 'b exn + 'm iceberg_table, catalog_for (snap_repo snap) [(n, l)] True snap)"
    by (elim conjE exE) (rule that)
  from load_table_InrD [OF load] have "read_metadata L (remote snap) l = Inr (table_metadata t)"
    by (auto split: if_splits)
  with q rows show ?thesis by (simp add: snapshot_rows_def Rows.table_rows_def)
qed

end
