(* ===== verification/Witnesses.thy ===== *)
theory Witnesses
  imports Scenario Lone
begin

text \<open>
  Each theorem about transactions, snapshots and the catalog applied to a concrete run of the
  scenario, where its hypotheses hold by evaluation: Anna deletes row \<open>r1\<close> and appends \<open>a1\<close>
  while Ben commits, so her first attempt conflicts, she recovers and publishes \<open>S3\<close>.
\<close>

abbreviation L1 :: "(ref_session, int, ref_remote, ref_meta, string list, string list, ref_obj) iceberg_lib" where
  "L1 \<equiv> ref_lib (ben once)"

abbreviation L0 :: "(ref_session, int, ref_remote, ref_meta, string list, string list, ref_obj) iceberg_lib" where
  "L0 \<equiv> ref_lib alone"

lemma alone_lone: "lone L0"
  by (simp add: lone_def ref_lib_def alone_def)

text \<open>A repository as created.\<close>

definition fresh :: ref_remote where
  "fresh = \<lparr>ref_branches = [(''main'', ''S0'')], ref_tags = [],
     ref_snapshots = [(''S0'', (Some (commit_metadata []), []))], ref_files = []\<rparr>"

lemma fresh_facts:
  "store_ok L0 fresh" "lookup_branch L0 fresh ''main'' = Inr ''S0''" "pointers_at L0 fresh ''S0'' = Some []"
proof -
  show "lookup_branch L0 fresh ''main'' = Inr ''S0''" "pointers_at L0 fresh ''S0'' = Some []"
    by code_simp+
  show "store_ok L0 fresh"
    by (auto simp: store_ok_def pointers_at_def ref_lib_def fresh_def ref_lookup_def commit_metadata_def pointers_of_meta_def
      split: sum.splits option.splits if_splits)
qed

definition anna_run :: "nat list \<Rightarrow> ((string list) exn + string) \<times> ref_tx" where
  "anna_run hits = commit (ref_lib (ben hits)) (anna hits)"

abbreviation anna_end :: ref_tx where
  "anna_end \<equiv> snd (anna_run once)"

lemma anna_start:
  "remote (anna once) = seeded" "clock (anna once) = 1" "branch (anna once) = ''main''"
  "session_branch L1 (session (anna once)) = ''main''" "read_only (anna once) = False"
  "max_retries (anna once) = 10"
  "intents (anna once) = [DeleteRows ''t'' (PText ''r1''), AppendRows ''t'' [''a1'']]"
  by code_simp+

lemma anna_commit: "commit L1 (anna once) = (Inr ''S3'', anna_end)"
proof -
  have "fst (anna_run once) = Inr ''S3''" by code_simp
  then show ?thesis by (metis anna_run_def prod.collapse)
qed

lemma anna_synced: "synced L1 (anna once)" "staged (anna once) = []"
  using tx_ready_invariant [OF ref_session_law ref_zarr_law anna_ready_runs(2)] by blast+

theorem commit_serialisable_witness:
  "\<exists>r j. unpublished L1 (remote (anna once)) r \<and> lookup_branch L1 r (branch (anna once)) = Inr j
    \<and> row_run mset (\<lambda>p x. x \<in> set (ref_matches p)) (intents (anna once))
         (snapshot_rows L1 (\<lambda>m. mset (ref_rows m)) r j)
       = Some (snapshot_rows L1 (\<lambda>m. mset (ref_rows m)) (remote anna_end) ''S3'')
    \<and> lookup_branch L1 (remote anna_end) (branch (anna once)) = Inr ''S3''"
  by (rule commit_serialisable [OF ben_laws ref_zarr_law ref_rows_law ben_store _ anna_ready_runs(2) _ _ anna_commit])
    (simp_all add: anna_start seeded_store ben_pause)

lemma ref_view_law: "view_law (ref_lib oth) ref_attrs"
  by (auto simp: view_law_def snapshot_view_def ref_lib_def ref_commit_def Let_def fun_eq_iff
      split: if_splits option.splits)

theorem commit_atomic_witness:
  "\<exists>r z. unpublished L1 (remote (anna once)) r
    \<and> published L1 ''main'' ''S3'' (current_pointers anna_end) r (remote anna_end)
    \<and> carried L1 ref_attrs (remote (anna once)) (session (anna once)) z
    \<and> snapshot_view L1 ref_attrs (remote anna_end) ''S3'' = Some (ref_attrs z)"
  using commit_atomic [OF ben_laws ref_view_law anna_commit] by (simp add: anna_start) (metis fun_upd_same)

theorem no_lost_update_witness:
  "\<exists>r j p0. lookup_branch L1 r ''main'' = Inr j \<and> pointers_at L1 r j = Some p0
    \<and> published L1 ''main'' ''S3'' (current_pointers anna_end) r (remote anna_end)"
  using no_lost_update [OF ben_laws anna_synced _ _ anna_commit]
  by (simp add: anna_start ben_pause) blast

theorem commit_no_dangling_witness: "store_ok L1 (remote anna_end)"
  unfolding store_ok_def
  by (rule commit_no_dangling [OF ben_laws ref_zarr_law ben_store _ anna_ready_runs(2) anna_commit])
    (simp_all add: anna_start seeded_store)

theorem commit_bounded_witness: "clock anna_end \<le> 32"
  using commit_bounded [OF ben_laws _ anna_commit] by (simp add: anna_start)

theorem removal_window_anchored_witness:
  "\<exists>b. map_of (base_snapshots (anna once)) ''t'' = Some b \<and> anchored L1 (anna once) ''t'' b"
  using removal_window_anchored [OF anna_ready_runs(2), of "DeleteRows ''t'' (PText ''r1'')"]
  by (simp add: anna_start removes_def)

subsection \<open>Reading\<close>

definition old_snapshot :: "(ref_remote, ref_session) hybrid_snapshot" where
  "old_snapshot = snapshot_of conf0 ''S1'' (process_at seeded 0)"

lemma old_snapshot_table:
  "snapshot_table L1 ''t'' old_snapshot = (Inr (projr (fst (snapshot_table L1 ''t'' old_snapshot))),
     snd (snapshot_table L1 ''t'' old_snapshot))"
proof -
  have "\<not> isl (fst (snapshot_table L1 ''t'' old_snapshot))" by code_simp
  then show ?thesis by (rule run_Inr)
qed

theorem snapshot_isolation_witness:
  "fst (snapshot_table L1 ''t'' (old_snapshot\<lparr>remote := remote anna_end\<rparr>))
    = Inr (projr (fst (snapshot_table L1 ''t'' old_snapshot)))"
  by (rule snapshot_isolation [OF ben_laws old_snapshot_table _ anna_commit])
    (simp add: anna_start old_snapshot_def snapshot_of_def process_at_def)

theorem read_after_commit_witness:
  "fst (snapshot_table L1 ''t'' (snapshot_of conf0 ''S3'' anna_end)) = fst (load_table L1 (IdStr ''t'') anna_end)"
proof (rule read_after_commit [OF ben_laws _ anna_commit ref_plain_name])
  have "map_of (current_pointers anna_end) ''t'' \<noteq> None" by code_simp
  then show "''t'' \<in> dom (map_of (current_pointers anna_end))" by (simp add: domIff)
qed (simp add: anna_start)

definition first_snapshot :: "(ref_remote, ref_session) hybrid_snapshot" where
  "first_snapshot = snapshot_of conf0 ''S0'' (process_at seeded 0)"

definition first_bindings ::
    "((string list) exn + (string, table_binding) dict) \<times> (ref_remote, ref_session) hybrid_snapshot" where
  "first_bindings = snapshot_bindings L1 first_snapshot"

lemma first_snapshot_facts:
  "pointers_at L1 (remote first_snapshot) (snap_id first_snapshot) = Some []"
  "fst first_bindings = Inr []"
  by code_simp+

theorem unresolvable_table_witness:
  "snapshot_table L1 ''t'' first_snapshot = (Inl (KeyError ''t'' []), snd first_bindings)"
proof -
  have "snapshot_bindings L1 first_snapshot = (Inr [] :: (string list) exn + _, snd first_bindings)"
    using first_snapshot_facts(2) by (metis first_bindings_def prod.collapse)
  from unresolvable_table [OF first_snapshot_facts(1) _ this, of "''t''"] show ?thesis
    by (simp add: dict_keys_def sorted_set_def)
qed

subsection \<open>The guards\<close>

definition anna_twice :: ref_tx where
  "anna_twice = (anna twice)\<lparr>max_retries := 1\<rparr>"

abbreviation L2 :: "(ref_session, int, ref_remote, ref_meta, string list, string list, ref_obj) iceberg_lib" where
  "L2 \<equiv> ref_lib (ben twice)"

lemma anna_twice_facts:
  "session_branch L2 (session anna_twice) = ''main''" "read_only anna_twice = False" "max_retries anna_twice = 1"
  "clock anna_twice = 1" "branch anna_twice = ''main''"
  "fst (commit L2 anna_twice) = Inl ConflictError"
  by code_simp+

lemma anna_twice_commit: "commit L2 anna_twice = (Inl ConflictError, snd (commit L2 anna_twice))"
  using anna_twice_facts(6) by (metis prod.collapse)

lemma ref_conflict_law: "conflict_law (ref_lib oth)"
  by (auto simp: conflict_law_def ref_lib_def ref_commit_def Let_def split: if_splits)

text \<open>Anna's base is stale at her first commit, and Ben moves the branch before her second.\<close>

theorem conflict_means_rivals_witness:
  "lookup_branch L2 (remote (let_others L2 (at_commit L2 0 anna_twice))) ''main''
      \<noteq> Inr (session_base L2 (session anna_twice))
    \<and> lookup_branch L2 (remote (let_others L2 (at_commit L2 1 anna_twice))) ''main''
      \<noteq> lookup_branch L2 (remote (at_commit L2 1 anna_twice)) ''main''"
  using conflict_means_rivals [OF ben_laws ref_conflict_law _ _ _ anna_twice_commit, of 0]
    conflict_means_rivals [OF ben_laws ref_conflict_law _ _ _ anna_twice_commit, of 1]
  by (auto simp: anna_twice_facts)

theorem commit_errors_witness: "commit_error anna_twice (ConflictError :: (string list) exn)"
  by (rule commit_errors [OF ben_laws _ _ anna_twice_commit]) (simp_all add: anna_twice_facts)

text \<open>Two pointers staged past the intent API, one for a table that an intent names, and no conflict.\<close>

definition anna_extra :: ref_tx where
  "anna_extra = stage ''x'' ''w/x.json'' (stage ''t'' ''w/m1'' (anna never))"

lemma anna_extra_facts:
  "fst (commit (ref_lib (ben never)) anna_extra) = (Inr ''S2'' :: (string list) exn + _)"
  "map_of (staged anna_extra) ''x'' = Some ''w/x.json''" "map_of (staged anna_extra) ''t'' = Some ''w/m1''"
  "map intent_name (intents anna_extra) = [''t'', ''t'']"
  by code_simp+

theorem unmanaged_work_survives_witness:
  "map_of (current_pointers (snd (commit (ref_lib (ben never)) anna_extra))) ''x'' = Some ''w/x.json''
    \<and> clock (snd (commit (ref_lib (ben never)) anna_extra)) = Suc (clock anna_extra)"
proof -
  have run: "commit (ref_lib (ben never)) anna_extra
      = (Inr ''S2'', snd (commit (ref_lib (ben never)) anna_extra))"
    using anna_extra_facts(1) by (metis prod.collapse)
  have "''x'' \<notin> intent_name ` set (intents anna_extra)"
    using arg_cong [OF anna_extra_facts(4), of set] by auto
  with unmanaged_work_survives [OF ben_laws _ run anna_extra_facts(2)]
    unmanaged_work_survives [OF ben_laws _ run anna_extra_facts(3)]
  show ?thesis by auto
qed

text \<open>A rival inside a recovery: Ben appends to \<open>t\<close> as \<open>S3\<close>, while Anna creates \<open>u\<close>.\<close>

abbreviation L3 :: "(ref_session, int, ref_remote, ref_meta, string list, string list, ref_obj) iceberg_lib" where
  "L3 \<equiv> ref_lib (ben in_recovery)"

definition race_world :: ref_remote where
  "race_world = others L3 (clock creates_conflicted) (remote creates_conflicted)"

lemma creates_clock: "clock creates_conflicted = 2"
  by code_simp

lemma creates_base: "session_branch L3 (session creates_conflicted) = ''main''" "branch creates_conflicted = ''main''"
  by code_simp+

lemma creates_names: "map intent_name (intents creates_conflicted) = [''u'']"
  by code_simp

text \<open>What she read, and what the branch had when she rebased.\<close>

definition t2 :: "(string, string) dict" where "t2 = [(''t'', ''w/t/metadata/00002-u101.metadata.json'')]"
definition t3 :: "(string, string) dict" where "t3 = [(''t'', ''w/t/metadata/00003-u103.metadata.json'')]"

lemma creates_read: "lookup_branch L3 race_world ''main'' = Inr ''S2''" "pointers_at L3 race_world ''S2'' = Some t2"
  by code_simp+

lemma creates_rival:
  "lookup_branch L3 (others L3 (Suc (clock creates_conflicted)) race_world) ''main'' = Inr ''S3''"
  "pointers_at L3 (others L3 (Suc (clock creates_conflicted)) race_world) ''S3'' = Some t3"
  unfolding creates_clock by code_simp+

lemma creates_recovers: "fst creates_recovered = Inr ()"
  by code_simp

lemma creates_publishes: "fst creates_end = Inr (Some ''S4'')"
  by code_simp

theorem recovery_race_loses_update_witness:
  "\<exists>r s1. lookup_branch L3 r ''main'' = Inr ''S3'' \<and> pointers_at L3 r ''S3'' = Some t3
    \<and> published L3 ''main'' ''S4'' (current_pointers (s1 :: ref_tx)) r (remote (snd creates_end))
    \<and> map_of (current_pointers s1) ''t'' = map_of t2 ''t''"
proof -
  have rec: "recover L3 creates_conflicted = (Inr (), snd creates_recovered)"
    using creates_recovers by (metis creates_recovered_def prod.collapse)
  have at: "commit_attempt L3 1 (snd creates_recovered) = (Inr (Some ''S4''), snd creates_end)"
    using creates_publishes by (metis creates_end_def prod.collapse)
  have "''t'' \<notin> intent_name ` set (intents creates_conflicted)"
    using arg_cong [OF creates_names, of set] by auto
  moreover have "map_of t2 ''t'' \<noteq> map_of t3 ''t''" by (simp add: t2_def t3_def)
  moreover have tips: "lookup_branch L3 race_world (branch creates_conflicted) = Inr ''S2''"
    "lookup_branch L3 (others L3 (Suc (clock creates_conflicted)) race_world) (branch creates_conflicted) = Inr ''S3''"
    using creates_read(1) creates_rival(1) by (simp_all only: creates_base)
  ultimately have "\<exists>s1 r. lookup_branch L3 r (branch creates_conflicted) = Inr ''S3'' \<and> pointers_at L3 r ''S3'' = Some t3
      \<and> published L3 (branch creates_conflicted) ''S4'' (current_pointers (s1 :: ref_tx)) r (remote (snd creates_end))
      \<and> map_of (current_pointers s1) ''t'' = map_of t2 ''t''"
    using recovery_race_loses_update [OF ben_laws _ _ rec at race_world_def tips(1) creates_read(2) tips(2) creates_rival(2),
        where n = "''t''"] creates_base by auto
  then show ?thesis unfolding creates_base by blast
qed

text \<open>The state in which Anna's first attempt has just failed.\<close>

definition anna_conflicted :: ref_tx where
  "anna_conflicted =
     (let s = snd (apply_intents L1 (anna once))
      in snd (call_session_commit L1 (commit_metadata (current_pointers s)) (allow_empty L1 s) s))"

definition ref_lineage :: "ref_meta \<Rightarrow> int \<Rightarrow> int \<Rightarrow> int list option" where
  "ref_lineage m tip base =
     (if base \<le> tip then Some (filter (\<lambda>k. base \<le> k \<and> k \<le> tip) (map fst (ref_snaps m))) else None)"

definition ref_adds :: "ref_meta \<Rightarrow> int \<Rightarrow> string list \<Rightarrow> bool" where
  "ref_adds m i e = list_ex (\<lambda>(k, rows). k = i \<and> list_ex (\<lambda>x. x \<in> set e) rows) (ref_snaps m)"

lemma ref_walk_law: "walk_law (ref_lib oth) ref_lineage ref_adds"
  by (auto simp: walk_law_def ref_lib_def ref_walk_def ref_lineage_def ref_adds_def list_ex_iff
      split: if_splits) force+

definition tip_table :: "((string list) exn + ref_meta iceberg_table) \<times> ref_remote catalog_state" where
  "tip_table = load_table L1 (IdStr ''t'')
     (catalog_for (repo_conf anna_conflicted) (pointers (snd (recover L1 anna_conflicted))) False
        (let_others L1 anna_conflicted))"

lemma anna_conflicted_facts:
  "fst (recover L1 anna_conflicted) = Inr ()"
  "intents anna_conflicted = [DeleteRows ''t'' (PText ''r1''), AppendRows ''t'' [''a1'']]"
  by code_simp+

lemma tip_table_facts1:
  "\<not> isl (fst tip_table)"
  by code_simp

lemma tip_table_facts2:
  "current_snapshot_id L1 (table_metadata (projr (fst tip_table))) = Some 2"
  by code_simp

theorem replayed_removals_safe_witness:
  "\<exists>base. map_of (base_snapshots anna_conflicted) ''t'' = Some (Some base) \<and> (base = 2
     \<or> (\<exists>e. as_predicate L1 (PText ''r1'') = (Inr e :: (string list) exn + string list)
          \<and> clean_window ref_lineage ref_adds (table_metadata (projr (fst tip_table))) base 2 e))"
proof -
  have rec: "recover L1 anna_conflicted = (Inr (), snd (recover L1 anna_conflicted))"
    using anna_conflicted_facts(1) by (metis prod.collapse)
  note load = run_Inr [OF tip_table_facts1, unfolded tip_table_def]
  show ?thesis
    unfolding tip_table_def
    by (rule replayed_removals_safe [where x = "DeleteRows ''t'' (PText ''r1'')" and d = "[]",
          OF ref_walk_law rec _ _ load tip_table_facts2 [unfolded tip_table_def]])
      (simp_all add: anna_conflicted_facts(2))
qed

text \<open>A block whose commit fails: the table its intent names does not exist.\<close>

definition lost_body :: "(ref_tx, (string list) exn, unit) pgm" where
  "lost_body = tx_append ''nope'' [''x'']"

definition lost_run :: "((string list) exn + unit) \<times> ref_tx" where
  "lost_run = with_transaction L1 lost_body (anna once)"

lemma lost_facts: "fst lost_run = Inl (NoSuchTableError ''nope'')"
  by code_simp

theorem failed_block_leaves_nothing_witness:
  "\<not> has_uncommitted_changes L1 (session (snd lost_run))
    \<and> unpublished L1 (remote (anna once)) (remote (snd lost_run))"
proof -
  have "keeps (quiet_frame L1) lost_body"
    by (simp add: keeps_def lost_body_def tx_append_def add_intent_def quiet_frame_def)
  moreover have "with_transaction L1 lost_body (anna once) = (Inl (NoSuchTableError ''nope''), snd lost_run)"
    using lost_facts by (metis lost_run_def prod.collapse)
  ultimately show ?thesis
    using failed_block_leaves_nothing [OF ben_laws] by blast
qed

subsection \<open>Rows\<close>

definition anna_applied :: "((string list) exn + unit) \<times> ref_tx" where
  "anna_applied = apply_intents L1 (anna once)"

lemma anna_rows_facts:
  "fst anna_applied = Inr ()"
  "current_pointers (anna once) = [(''t'', ''w/m1'')]"
  "read_metadata L1 (remote (anna once)) ''w/m1'' = read_metadata L1 seeded ''w/m1''"
  by code_simp+

lemma anna_resolves: "all_resolve L1 (map_of (current_pointers (anna once))) (remote (anna once))"
  by (simp add: all_resolve_def anna_rows_facts(2,3)) (simp add: ref_lib_def seeded_def)

theorem intents_refine_rows_witness:
  "row_run mset (\<lambda>p x. x \<in> set (ref_matches p)) (intents (anna once))
      (catalog_rows L1 (\<lambda>m. mset (ref_rows m)) (anna once))
    = Some (catalog_rows L1 (\<lambda>m. mset (ref_rows m)) (snd anna_applied))"
proof -
  have "apply_intents L1 (anna once) = (Inr (), snd anna_applied)"
    using anna_rows_facts(1) by (metis anna_applied_def prod.collapse)
  from intents_refine_rows [OF ref_storage_law ref_rows_law anna_resolves _ this] show ?thesis by simp
qed

subsection \<open>The catalog\<close>

definition cat :: "ref_remote catalog_state" where
  "cat = catalog_for conf0 [(''t'', ''w/m1'')] False (process_at seeded 0)"

definition created :: "((string list) exn + ref_meta iceberg_table) \<times> ref_remote catalog_state" where
  "created = create_table L0 (IdStr ''u'') (OPlain ''s'') None (OPlain ''p'') (OPlain ''o'')
     [(''gc.enabled'', ''true'')] cat"

lemma created_run:
  "create_table L0 (IdStr ''u'') (OPlain ''s'') None (OPlain ''p'') (OPlain ''o'') [(''gc.enabled'', ''true'')] cat
    = (Inr (projr (fst created)), snd created)"
proof -
  have "\<not> isl (fst created)" by code_simp
  from run_Inr [OF this] show ?thesis by (simp add: created_def)
qed

theorem create_table_correct_witness:
  "load_table L0 (IdStr ''u'') (snd created) = (Inr (projr (fst created)) :: (string list) exn + _, snd created)"
  using create_table_correct [OF ref_storage_law created_run] by blast

theorem safety_properties_applied_witness:
  "map_of (ref_props (table_metadata (projr (fst created)))) ''gc.enabled'' = Some ''true''"
proof -
  have "map_of (ref_props m) = map_of d"
    if "new_table_metadata L0 sc ps so loc d = Inr m" for sc ps so loc d m
    using that by (auto simp: ref_lib_def)
  from safety_properties_applied [where props_of = "\<lambda>m. map_of (ref_props m)" and k = "''gc.enabled''",
      OF this created_run]
  show ?thesis by (simp add: SAFETY_PROPERTIES_def)
qed

definition table_t :: "ref_meta iceberg_table" where
  "table_t = projr (fst (load_table L0 (IdStr ''t'') cat))"

definition appended :: "((string list) exn + (ref_meta \<times> string)) \<times> ref_remote catalog_state" where
  "appended = commit_table L0 table_t [] [OAppend [''r3'']] cat"

theorem commit_table_correct_witness:
  "map_of (current_pointers (snd appended)) ''t'' = Some (snd (projr (fst appended)))"
proof -
  have "\<not> isl (fst appended)" by code_simp
  from run_Inr [OF this] have
    run: "commit_table L0 table_t [] [OAppend [''r3'']] cat
      = (Inr (fst (projr (fst appended)), snd (projr (fst appended))), snd appended)"
    by (simp add: appended_def)
  have "table_name_from L0 (IdTuple (table_identifier table_t)) = table_name_from L0 (IdStr ''t'')"
    by code_simp
  from commit_table_correct [OF ref_storage_law run this] have
    "map_of (current_pointers (snd appended)) (table_name_from L0 (IdStr ''t'')) = Some (snd (projr (fst appended)))"
    by simp
  then show ?thesis by (simp add: ref_lib_def)
qed

subsection \<open>Validation windows\<close>

definition table3 :: "ref_meta iceberg_table" where
  "table3 = \<lparr>table_identifier = [''t''],
     table_metadata = \<lparr>ref_rows = [''r1'', ''x'', ''y''],
       ref_snaps = [(3, [''y'']), (2, [''x'']), (1, [''r1''])], ref_log = 3, ref_props = []\<rparr>,
     table_location = ''w/m3''\<rparr>"

lemma table3_facts:
  "snapshot_by_id L0 (table_metadata table3) 1 = Some (OSnapshot 1)"
  "snapshot_by_id L0 (table_metadata table3) 3 = Some (OSnapshot 3)"
  "snapshot_by_id L0 (table_metadata table3) 7 = None"
  "as_predicate L0 (PExpr [''x'', ''r1'']) = (Inr [''x'', ''r1''] :: (string list) exn + string list)"
  "added_data_files L0 seeded table3 (OSnapshot 3) [''x'', ''r1''] (OSnapshot 1) = Entries [Some 2, Some 1]"
  by code_simp+

theorem conflicting_adds_exact_witness:
  "\<exists>ids path. conflicting_adds L0 table3 1 3 (PExpr [''x'', ''r1'']) seeded = (Inr ids :: (string list) exn + int list)
    \<and> ref_lineage (table_metadata table3) 3 1 = Some path \<and> sorted ids \<and> distinct ids
    \<and> set ids = {i \<in> set path. i \<noteq> 1 \<and> ref_adds (table_metadata table3) i [''x'', ''r1'']}"
  by (rule conflicting_adds_exact [OF ref_walk_law _ table3_facts(1,2,4,5)]) simp

subsection \<open>Declarations\<close>

definition bare_session :: ref_session where
  "bare_session = \<lparr>ref_branch = ''main'', ref_base = ''S1'', ref_attrs = [], ref_changed = False\<rparr>"

definition one_binding :: "(string, table_binding) dict" where
  "one_binding = [(''t'', \<lparr>binding_location = ''w/t''\<rparr>)]"

definition declared_once :: "((string list) exn + unit) \<times> ref_session" where
  "declared_once = declare_tables L0 one_binding bare_session"

lemma declared_run: "declare_tables L0 one_binding bare_session = (Inr () :: (string list) exn + unit, snd declared_once)"
proof -
  have "fst declared_once = Inr ()" by code_simp
  then show ?thesis by (metis declared_once_def prod.collapse)
qed

theorem declare_idempotent_witness:
  "declare_tables L0 one_binding (snd declared_once) = (Inr () :: (string list) exn + unit, snd declared_once)"
  by (rule declare_idempotent [OF ref_attrs_law declared_run])

theorem declare_binds_witness:
  "is_declared L0 (snd declared_once) = (Inr True :: (string list) exn + bool, snd declared_once)"
proof -
  have "read_bindings L0 bare_session = (Inr [] :: (string list) exn + _, bare_session)"
    by (simp add: read_bindings_def pbind_run attr_dict_def bare_session_def ref_lib_def)
  from declare_binds [OF ref_attrs_law this declared_run] show ?thesis by blast
qed

end
