(* ===== verification/Ingest.thy ===== *)
theory Ingest
  imports Guards Virtualize Hash
begin

text \<open>
  \<open>src/icechest/demo/ingest.py\<close>: publishing a batch of granules in one commit, and the last function
  of \<open>virtualize.py\<close>, which writes a granule into a transaction's session. The batch owns a
  transaction, so its state (\<open>batch\<close>) has it as a field, beside the lists the loop fills. Arrow's
  conversions and the text of an exception are parameters (\<open>batch_lib\<close>).
\<close>

subsection \<open>Writing a granule into a transaction\<close>

definition write_granule ::
    "('f :: zero, 'y) float_ops_scheme \<Rightarrow> ('s, 'x, 'g, 'f, 'z) store_lib_scheme
     \<Rightarrow> (string \<Rightarrow> 'g \<Rightarrow> 'b exn + (string, 'x) dict) \<Rightarrow> 'f row \<Rightarrow> 'g \<Rightarrow> string list \<Rightarrow> string
     \<Rightarrow> (('r, 's, 'd, 'b, 'o) transaction, 'b exn, string) pgm" where
  "write_granule F S opener row registry bands access =
     on_session (write_granule_to_store F S row registry bands access opener)"

subsection \<open>The state of a batch\<close>

record ('m, 'o, 'd, 'f, 'b) batch_lib =
  schema_as_arrow :: "'m \<Rightarrow> 'o"
  table_from_pylist :: "'f row list \<Rightarrow> 'o \<Rightarrow> string + 'd"
  sort_ascending :: "'d \<Rightarrow> string \<Rightarrow> 'd"
  exn_text :: "'b exn \<Rightarrow> string"

record batch_result =
  result_snapshot_id :: string
  result_committed :: "string list"
  result_skipped :: "(string, string) dict"

record ('r, 's, 'd, 'b, 'o, 'f) batch =
  batch_tx :: "('r, 's, 'd, 'b, 'o) transaction"
  committed :: "string list"
  skipped :: "(string, string) dict"
  kept :: "'f row list"

definition in_tx ::
    "(('r, 's, 'd, 'b, 'o) transaction, 'b exn, 'a) pgm
     \<Rightarrow> (('r, 's, 'd, 'b, 'o, 'f) batch, 'b exn, 'a) pgm" where
  "in_tx m b = (case m (batch_tx b) of (r, t) \<Rightarrow> (r, b\<lparr>batch_tx := t\<rparr>))"

subsection \<open>One granule\<close>

definition granule_exists ::
    "('s, 'x, 'g, 'f, 'z) store_lib_scheme \<Rightarrow> string \<Rightarrow> 's \<Rightarrow> 'b exn + bool" where
  "granule_exists S gid s =
     (case zarr_open_r S s gid of
        Opened \<Rightarrow> Inr True | NodeNotFound \<Rightarrow> Inr False | OpenError e \<Rightarrow> Inl (LibError e))"

definition note_skip ::
    "string \<Rightarrow> string \<Rightarrow> ('r, 's, 'd, 'b, 'o, 'f) batch \<Rightarrow> ('r, 's, 'd, 'b, 'o, 'f) batch" where
  "note_skip gid reason b =
     b\<lparr>skipped := dict_set gid
       (case map_of (skipped b) gid of
          None \<Rightarrow> reason
        | Some previous \<Rightarrow> if previous = [] then reason else previous @ ''; '' @ reason) (skipped b)\<rparr>"

definition record_skip ::
    "string \<Rightarrow> string \<Rightarrow> (('r, 's, 'd, 'b, 'o, 'f) batch, 'b exn, unit) pgm" where
  "record_skip gid reason = pmodify (note_skip gid reason)"

definition already_there ::
    "('s, 'x, 'g, 'f, 'z) store_lib_scheme \<Rightarrow> string
     \<Rightarrow> (('r, 's, 'd, 'b, 'o, 'f) batch, 'b exn, bool) pgm" where
  "already_there S gid = pbind (pget (\<lambda>b. granule_exists S gid (session (batch_tx b)))) plift"

text \<open>The handler of a failed write: what it staged is deleted, and the granule is skipped.\<close>

definition cleanup_text :: string where
  "cleanup_text = '' (cleanup also failed: ''"

definition delete_staged ::
    "('s, 'x, 'g, 'f, 'z) store_lib_scheme \<Rightarrow> string \<Rightarrow> string
     \<Rightarrow> (('r, 's, 'd, 'b, 'o, 'f) batch, 'b exn, unit) pgm" where
  "delete_staged S gid reason b =
     (case delete_dir S (session (batch_tx b)) gid of
        (r, s) \<Rightarrow> record_skip gid
            (case r of Inr _ \<Rightarrow> reason | Inl e \<Rightarrow> reason @ cleanup_text @ e @ '')'')
            (b\<lparr>batch_tx := batch_tx b\<lparr>session := s\<rparr>\<rparr>))"

definition clean_up ::
    "('s, 'x, 'g, 'f, 'z) store_lib_scheme \<Rightarrow> string \<Rightarrow> string
     \<Rightarrow> (('r, 's, 'd, 'b, 'o, 'f) batch, 'b exn, unit) pgm" where
  "clean_up S gid reason =
     pbind (already_there S gid) (\<lambda>staged_some.
     if staged_some then delete_staged S gid reason else record_skip gid reason)"

definition stage_granule ::
    "('s, 'x, 'g, 'f, 'z) store_lib_scheme \<Rightarrow> ('m, 'o, 'd, 'f, 'b, 'y) batch_lib_scheme
     \<Rightarrow> (('r, 's, 'd, 'b, 'o) transaction, 'b exn, string) pgm \<Rightarrow> string \<Rightarrow> 'f row
     \<Rightarrow> (('r, 's, 'd, 'b, 'o, 'f) batch, 'b exn, unit) pgm" where
  "stage_granule S B write gid row =
     ptry (pbind (in_tx write) (\<lambda>array_path.
           pmodify (\<lambda>b. b\<lparr>kept := kept b @ [dict_set ''array_path'' (JStr array_path) row],
                           committed := committed b @ [gid]\<rparr>)))
          (\<lambda>e. clean_up S gid (exn_text B e))"

definition repeated_text :: string where
  "repeated_text = ''already staged earlier in this batch; the first occurrence's arrays are the ones published''"

definition present_text :: "string \<Rightarrow> string" where
  "present_text gid = ''/'' @ gid @ '' is already in the store; this demo appends only, so an existing granule is left exactly as it was published''"

definition ingest_row ::
    "('s, 'x, 'g, 'f, 'z) store_lib_scheme \<Rightarrow> ('m, 'o, 'd, 'f, 'b, 'y) batch_lib_scheme
     \<Rightarrow> ('f row \<Rightarrow> (('r, 's, 'd, 'b, 'o) transaction, 'b exn, string) pgm) \<Rightarrow> 'f row
     \<Rightarrow> (('r, 's, 'd, 'b, 'o, 'f) batch, 'b exn, unit) pgm" where
  "ingest_row S B write row =
     pbind (plift (row_id row)) (\<lambda>gid.
     pbind (pget committed) (\<lambda>done_before.
     if gid \<in> set done_before then record_skip gid repeated_text
     else
       pbind (already_there S gid) (\<lambda>present.
       if present then record_skip gid (present_text gid)
       else stage_granule S B (write row) gid row)))"

subsection \<open>The batch\<close>

text \<open>From \<open>if not keep\<close> to the end of \<open>ingest_batch\<close>.\<close>

definition publish_batch ::
    "('s, 'f :: zero, 'r, 'm, 'b, 'd, 'o, 'z) iceberg_lib_scheme \<Rightarrow> ('m, 'o, 'd, 'f, 'b, 'y) batch_lib_scheme
     \<Rightarrow> hybrid_repo \<Rightarrow> nat \<Rightarrow> string
     \<Rightarrow> (('r, 's, 'd, 'b, 'o, 'f) batch, 'b exn, batch_result) pgm" where
  "publish_batch L B conf rows_given name =
     pbind (pget kept) (\<lambda>rows.
     if rows = [] then
       pthen (in_tx (pmodify (discard L)))
         (pbind (pget skipped) (\<lambda>sk. praise (BatchFailed rows_given sk)))
     else
       pbind (in_tx (repo_read L conf (Some ''main'') None None)) (\<lambda>snap.
       pbind (plift (fst (snapshot_table L name snap))) (\<lambda>t.
       pbind (plift (lib_result (table_from_pylist B rows (schema_as_arrow B (table_metadata t))))) (\<lambda>d.
       pthen (in_tx (tx_append name (sort_ascending B d HASH_COLUMN)))
      (pbind (in_tx (ptry (commit L) (\<lambda>e. pthen (pmodify (discard L)) (praise e)))) (\<lambda>i.
       pget (\<lambda>b. \<lparr>result_snapshot_id = i, result_committed = committed b,
                   result_skipped = skipped b\<rparr>)))))))"

definition batch_of :: "('r, 's, 'd, 'b, 'o) transaction \<Rightarrow> ('r, 's, 'd, 'b, 'o, 'f) batch" where
  "batch_of t = \<lparr>batch_tx = t, committed = [], skipped = [], kept = []\<rparr>"

text \<open>
  \<open>ingest_batch\<close>. The transaction is a local of the call: what is left of it afterwards is what it
  did to the world. \<open>writer\<close> is the function the caller may inject, \<open>write_granule\<close> by default.
\<close>

definition batch_message :: "string option \<Rightarrow> nat \<Rightarrow> string" where
  "batch_message message0 n =
     (let default = ''ingest '' @ dec n @ '' granules''
      in case message0 of None \<Rightarrow> default | Some m \<Rightarrow> if m = [] then default else m)"

definition ingest_batch ::
    "('s, 'f :: zero, 'r, 'm, 'b, 'd, 'o, 'z) iceberg_lib_scheme
     \<Rightarrow> ('s, 'x, 'g, 'f, 'z1) store_lib_scheme \<Rightarrow> ('m, 'o, 'd, 'f, 'b, 'z2) batch_lib_scheme
     \<Rightarrow> ('f, 'z3) stac_hash_lib_scheme \<Rightarrow> hybrid_repo \<Rightarrow> 'f arrow_table \<Rightarrow> 'g \<Rightarrow> string list \<Rightarrow> string
     \<Rightarrow> ('f row \<Rightarrow> 'g \<Rightarrow> string list \<Rightarrow> string \<Rightarrow> (('r, 's, 'd, 'b, 'o) transaction, 'b exn, string) pgm)
     \<Rightarrow> string option \<Rightarrow> string
     \<Rightarrow> ('r process, 'b exn, batch_result) pgm" where
  "ingest_batch L S B H conf rows registry bands access writer message0 name =
     pbind (plift (with_stac_hash H rows PARTITION_BITS)) (\<lambda>hashed.
     pbind (repo_transaction L conf ''main'' (batch_message message0 (num_rows hashed)) None None) (\<lambda>t p.
     case pthen (for_each (ingest_row S B (\<lambda>row. writer row registry bands access)) (table_rows hashed))
            (publish_batch L B conf (num_rows hashed) name) (batch_of t) of
       (r, b) \<Rightarrow> (r, p\<lparr>remote := remote (batch_tx b), clock := clock (batch_tx b),
                       draws := draws (batch_tx b)\<rparr>)))"

subsection \<open>What one row does to the batch\<close>

lemma note_skip_fields [simp]:
  "batch_tx (note_skip g r b) = batch_tx b" "committed (note_skip g r b) = committed b"
  "kept (note_skip g r b) = kept b" "dom (map_of (skipped (note_skip g r b))) = insert g (dom (map_of (skipped b)))"
  by (simp_all add: note_skip_def)

lemma already_there_Inr:
  "already_there S g b = (Inr present :: 'b exn + bool, b') \<longleftrightarrow>
     b' = b \<and> zarr_open_r S (session (batch_tx b)) g = (if present then Opened else NodeNotFound)"
  by (auto simp: already_there_def granule_exists_def split: open_result.splits)

lemma clean_up_cases:
  assumes "clean_up S g reason b = (Inr u :: 'b exn + unit, b')"
  obtains (nothing) "zarr_open_r S (session (batch_tx b)) g = NodeNotFound" and "b' = note_skip g reason b"
    | (deleted) r s reason' where "zarr_open_r S (session (batch_tx b)) g = Opened"
      and "delete_dir S (session (batch_tx b)) g = (r, s)"
      and "b' = note_skip g reason' (b\<lparr>batch_tx := batch_tx b\<lparr>session := s\<rparr>\<rparr>)"
      and "r = Inr () \<or> sublist cleanup_text reason'"
proof -
  from assms obtain present where there: "already_there S g b = (Inr present :: 'b exn + bool, b)"
    by (auto simp: clean_up_def elim!: pbind_InrE simp: already_there_Inr)
  show thesis
  proof (cases present)
    case False
    have "zarr_open_r S (session (batch_tx b)) g = NodeNotFound"
      using there False by (simp add: already_there_Inr)
    moreover have "b' = note_skip g reason b"
      using assms there False by (simp add: clean_up_def record_skip_def)
    ultimately show thesis by (rule nothing)
  next
    case True
    obtain r s where del: "delete_dir S (session (batch_tx b)) g = (r, s)" by fastforce
    have "zarr_open_r S (session (batch_tx b)) g = Opened"
      using there True by (simp add: already_there_Inr)
    moreover have "b' = note_skip g (case r of Inr _ \<Rightarrow> reason
          | Inl e \<Rightarrow> reason @ cleanup_text @ e @ '')'') (b\<lparr>batch_tx := batch_tx b\<lparr>session := s\<rparr>\<rparr>)"
      using assms there True del by (simp add: clean_up_def delete_staged_def record_skip_def cleanup_text_def)
    moreover have "sublist cleanup_text (reason @ cleanup_text @ e @ '')'')" for e
      by (simp add: sublist_appendI)
    ultimately show thesis using del by (intro deleted) (auto simp: cleanup_text_def split: sum.splits)
  qed
qed

lemma clean_up_books:
  assumes "clean_up S g reason b = (Inr u :: 'b exn + unit, b')"
  shows "committed b' = committed b \<and> kept b' = kept b
    \<and> dom (map_of (skipped b')) = insert g (dom (map_of (skipped b)))"
  using assms by (cases rule: clean_up_cases) simp_all

lemma stage_granule_cases:
  assumes "stage_granule S B write g row b = (Inr u :: 'b exn + unit, b')"
  obtains (staged) path t where "write (batch_tx b) = (Inr path, t)"
      and "b' = b\<lparr>batch_tx := t, kept := kept b @ [dict_set ''array_path'' (JStr path) row],
                  committed := committed b @ [g]\<rparr>"
    | (failed) e t reason where "write (batch_tx b) = (Inl e, t)"
      and "clean_up S g reason (b\<lparr>batch_tx := t\<rparr>) = (Inr () :: 'b exn + unit, b')"
proof -
  obtain r t where w: "write (batch_tx b) = (r, t)" by fastforce
  show thesis
  proof (cases r)
    case (Inl e)
    with assms w have "clean_up S g (exn_text B e) (b\<lparr>batch_tx := t\<rparr>) = (Inr (), b')"
      by (simp add: stage_granule_def ptry_def in_tx_def pbind_def)
    with w Inl show thesis by (intro failed) simp_all
  next
    case (Inr path)
    with assms w show thesis
      by (intro staged) (auto simp: stage_granule_def ptry_def in_tx_def pbind_def)
  qed
qed

lemma ingest_row_cases:
  assumes "ingest_row S B write row b = (Inr u :: 'b exn + unit, b')"
  obtains (repeated) g reason where "row_id row = (Inr g :: 'b exn + string)" and "g \<in> set (committed b)"
      and "b' = note_skip g reason b"
    | (present) g reason where "row_id row = (Inr g :: 'b exn + string)"
      and "zarr_open_r S (session (batch_tx b)) g = Opened" and "b' = note_skip g reason b"
    | (staged) g path t where "row_id row = (Inr g :: 'b exn + string)" and "g \<notin> set (committed b)"
      and "zarr_open_r S (session (batch_tx b)) g = NodeNotFound"
      and "write row (batch_tx b) = (Inr path, t)"
      and "b' = b\<lparr>batch_tx := t, kept := kept b @ [dict_set ''array_path'' (JStr path) row],
                  committed := committed b @ [g]\<rparr>"
    | (failed) g e t reason where "row_id row = (Inr g :: 'b exn + string)" and "g \<notin> set (committed b)"
      and "zarr_open_r S (session (batch_tx b)) g = NodeNotFound"
      and "write row (batch_tx b) = (Inl e, t)"
      and "clean_up S g reason (b\<lparr>batch_tx := t\<rparr>) = (Inr () :: 'b exn + unit, b')"
proof -
  from assms obtain g where g: "row_id row = (Inr g :: 'b exn + string)"
    by (auto simp: ingest_row_def elim!: pbind_InrE)
  show thesis
  proof (cases "g \<in> set (committed b)")
    case True
    with assms g have "b' = note_skip g repeated_text b" by (simp add: ingest_row_def record_skip_def)
    with g True show thesis by (rule repeated)
  next
    case False
    from assms g False obtain is_there where there: "already_there S g b = (Inr is_there :: 'b exn + bool, b)"
      by (auto simp: ingest_row_def elim!: pbind_InrE simp: already_there_Inr)
    then have open_r: "zarr_open_r S (session (batch_tx b)) g = (if is_there then Opened else NodeNotFound)"
      by (simp add: already_there_Inr)
    show thesis
    proof (cases is_there)
      case True
      have "b' = note_skip g (present_text g) b"
        using assms g False there True by (simp add: ingest_row_def record_skip_def)
      with True open_r show thesis using present [OF g] by simp
    next
      case absent: False
      have "stage_granule S B (write row) g row b = (Inr u, b')"
        using assms g False there absent by (simp add: ingest_row_def)
      then show thesis
      proof (cases rule: stage_granule_cases)
        case (staged path t)
        with absent open_r show thesis using that(3) [OF g False] by simp
      next
        case (failed e t reason)
        with absent open_r show thesis using that(4) [OF g False] by simp
      qed
    qed
  qed
qed

subsection \<open>What a writer may do\<close>

text \<open>
  Whatever a writer does, returning or raising, it does to the transaction's session, which stays
  on its branch and its base; and for an id that is one path component, only below the granule's
  own group.
\<close>

definition same_session ::
    "('s, 'f, 'r, 'z) icechunk_lib_scheme \<Rightarrow> 's \<Rightarrow> 's \<Rightarrow> bool" where
  "same_session L s s' \<longleftrightarrow> session_branch L s' = session_branch L s \<and> session_base L s' = session_base L s"

definition session_work ::
    "('s, 'f, 'r, 'z) icechunk_lib_scheme \<Rightarrow> ('r, 's, 'd, 'b, 'o) transaction
     \<Rightarrow> ('r, 's, 'd, 'b, 'o) transaction \<Rightarrow> bool" where
  "session_work L t t' \<longleftrightarrow> (\<exists>s. t' = t\<lparr>session := s\<rparr> \<and> same_session L (session t) s)"

interpretation ss: step_frame "same_session L :: 's \<Rightarrow> 's \<Rightarrow> bool"
    for L :: "('s, 'f, 'r, 'z) icechunk_lib_scheme"
  by unfold_locales (auto simp: same_session_def)

interpretation work: step_frame
    "session_work L :: ('r, 's, 'd, 'b, 'o) transaction \<Rightarrow> ('r, 's, 'd, 'b, 'o) transaction \<Rightarrow> bool"
    for L :: "('s, 'f, 'r, 'z) icechunk_lib_scheme"
proof
  fix t u v :: "('r, 's, 'd, 'b, 'o) transaction"
  show "session_work L t t"
    unfolding session_work_def by (rule exI [of _ "session t"]) (simp add: ss.refl)
  assume "session_work L t u" and "session_work L u v"
  then obtain s s' where u: "u = t\<lparr>session := s\<rparr>" "same_session L (session t) s"
    and v: "v = u\<lparr>session := s'\<rparr>" "same_session L (session u) s'"
    by (auto simp: session_work_def)
  have "same_session L s s'" using v(2) by (simp add: u(1))
  then have "same_session L (session t) s'" by (rule ss.trans [OF u(2)])
  then show "session_work L t v"
    unfolding session_work_def by (intro exI [of _ s']) (simp add: u(1) v(1))
qed

definition writer_law ::
    "('s, 'f, 'r, 'z) icechunk_lib_scheme \<Rightarrow> ('s, 'x, 'g, 'f, 'y) store_lib_scheme
     \<Rightarrow> ('f row \<Rightarrow> (('r, 's, 'd, 'b, 'o) transaction, 'b exn, string) pgm) \<Rightarrow> bool" where
  "writer_law L S write \<longleftrightarrow>
     (\<forall>row t r t' g. write row t = (r, t') \<longrightarrow> row_id row = (Inr g :: 'b exn + string) \<longrightarrow>
        session_work L t t' \<and> (plain_component g \<longrightarrow> own_granule S g (session t) (session t')))"

text \<open>Zarr work on the store of a session stays in the session.\<close>

definition store_session_law ::
    "('s, 'f, 'r, 'z) icechunk_lib_scheme \<Rightarrow> ('s, 'x, 'g, 'f, 'y) store_lib_scheme \<Rightarrow> bool" where
  "store_session_law L S \<longleftrightarrow>
     (\<forall>s p. same_session L s (snd (delete_dir S s p)) \<and> same_session L s (snd (open_group_at S s p)))
     \<and> (\<forall>s p d. same_session L s (snd (to_icechunk S s p d)))
     \<and> (\<forall>s p attrs. same_session L s (snd (update_attrs_at S s p attrs)))"

lemma store_call_session: "(\<And>s. same_session L s (snd (f s))) \<Longrightarrow> keeps (same_session L) (store_call f)"
  by (simp add: keeps_def store_call_def split_beta)

lemma write_granule_session:
  assumes "store_session_law L S"
  shows "keeps (same_session L) (write_granule_to_store F S row registry bands access opener)"
proof -
  have calls: "keeps (same_session L) (store_call (\<lambda>s. to_icechunk S s p d))"
    "keeps (same_session L) (store_call (\<lambda>s. open_group_at S s p))"
    "keeps (same_session L) (store_call (\<lambda>s. update_attrs_at S s p attrs))" for p d attrs
    using assms unfolding store_session_law_def by (blast intro: store_call_session)+
  have "keeps (same_session L) (write_level S g b ref x)" for g b ref x
    by (auto simp: write_level_def split: prod.split list.split intro!: ss.steps calls)
  then have "keeps (same_session L) (write_band F S row g ls x)" for g ls x
    by (auto simp: write_band_def split: prod.split intro!: ss.steps ss.for_each_step calls)
  then show ?thesis
    unfolding write_granule_to_store_def by (intro ss.steps ss.for_each_step)
qed

text \<open>The default writer is such a writer.\<close>

lemma write_granule_law:
  fixes opener :: "string \<Rightarrow> 'g \<Rightarrow> 'b exn + (string, 'x) dict"
    and S :: "('s, 'x, 'g, 'f :: zero, 'y) store_lib_scheme"
  assumes "write_law S" and "store_session_law L S"
  shows "writer_law L S (\<lambda>row. write_granule F S opener row registry bands access
    :: (('r, 's, 'd, 'b, 'o) transaction, 'b exn, string) pgm)"
  unfolding writer_law_def
proof (intro allI impI)
  fix row :: "'f row" and g and t t' :: "('r, 's, 'd, 'b, 'o) transaction" and r :: "'b exn + string"
  assume run: "write_granule F S opener row registry bands access t = (r, t')"
    and g: "row_id row = (Inr g :: 'b exn + string)"
  obtain s where s: "write_granule_to_store F S row registry bands access opener (session t) = (r, s)"
    and t': "t' = t\<lparr>session := s\<rparr>"
    using run by (auto simp: write_granule_def on_session_def split: prod.splits)
  have "same_session L (session t) s" by (rule keepsD [OF write_granule_session [OF assms(2)] s])
  moreover have "own_granule S g (session t) s" if "plain_component g"
    by (rule keepsD [OF write_granule_own [OF assms(1) g that] s])
  ultimately show "session_work L t t' \<and> (plain_component g \<longrightarrow> own_granule S g (session t) (session t'))"
    by (auto simp: session_work_def t')
qed

subsection \<open>The books of a batch\<close>

text \<open>
  \<open>accounts rows b\<close>: after the rows \<open>rows\<close>, the committed ids are distinct and stand, in order, for
  the rows kept, each an input row with the path of its arrays added; and every row's id is
  committed or has a reason why not.
\<close>

definition kept_as :: "'f row list \<Rightarrow> string \<Rightarrow> 'f row \<Rightarrow> bool" where
  "kept_as rows g row \<longleftrightarrow>
     (\<exists>r p. r \<in> set rows \<and> row_id r = (Inr g :: unit exn + string) \<and> row = dict_set ''array_path'' (JStr p) r)"

definition accounts :: "'f row list \<Rightarrow> ('r, 's, 'd, 'b, 'o, 'f) batch \<Rightarrow> bool" where
  "accounts rows b \<longleftrightarrow>
     distinct (committed b) \<and> list_all2 (kept_as rows) (committed b) (kept b)
     \<and> (\<forall>r \<in> set rows. \<exists>g. row_id r = (Inr g :: unit exn + string)
          \<and> (g \<in> set (committed b) \<or> g \<in> dom (map_of (skipped b))))"

lemma row_id_cong: "row_id r = (Inr g :: 'b exn + string) \<longleftrightarrow> row_id r = (Inr g :: 'c exn + string)"
  by (simp add: row_id_Inr)

lemma kept_as_more: "kept_as rows g row \<Longrightarrow> kept_as (rows @ later) g row"
  by (auto simp: kept_as_def)

lemma accounts_skip:
  assumes "accounts rows b" and "row_id row = (Inr g :: 'b exn + string)"
    and "committed b' = committed b" "kept b' = kept b"
    and "dom (map_of (skipped b')) = insert g (dom (map_of (skipped b)))"
  shows "accounts (rows @ [row]) b'"
proof -
  have "row_id row = (Inr g :: unit exn + string)" using assms(2) row_id_cong by blast
  moreover have "list_all2 (kept_as (rows @ [row])) (committed b) (kept b)"
    using assms(1) by (auto simp: accounts_def elim: list_all2_mono kept_as_more)
  ultimately show ?thesis
    using assms(1,3-5) by (auto simp: accounts_def) blast
qed

lemma ingest_row_accounts:
  assumes "ingest_row S B write row b = (Inr u :: 'b exn + unit, b')" and "accounts rows b"
  shows "accounts (rows @ [row]) b'"
  using assms(1)
proof (cases rule: ingest_row_cases)
  case (repeated g reason)
  then show ?thesis by (intro accounts_skip [OF assms(2)]) simp_all
next
  case (present g reason)
  then show ?thesis by (intro accounts_skip [OF assms(2)]) simp_all
next
  case (staged g path t)
  have "row_id row = (Inr g :: unit exn + string)" using staged(1) row_id_cong by blast
  moreover have "list_all2 (kept_as (rows @ [row])) (committed b) (kept b)"
    using assms(2) by (auto simp: accounts_def elim: list_all2_mono kept_as_more)
  moreover have "kept_as (rows @ [row]) g (dict_set ''array_path'' (JStr path) row)"
    using \<open>row_id row = (Inr g :: unit exn + string)\<close> by (auto simp: kept_as_def)
  ultimately show ?thesis
    using assms(2) staged(2) by (auto simp: accounts_def staged(5) list_all2_appendI)
next
  case (failed g e t reason)
  show ?thesis
    using clean_up_books [OF failed(5)] by (intro accounts_skip [OF assms(2) failed(1)]) simp_all
qed

lemma ingest_rows_accounts:
  "for_each (ingest_row S B write) rows b = (Inr u :: 'b exn + unit, b') \<Longrightarrow> accounts seen b \<Longrightarrow>
     accounts (seen @ rows) b'"
proof (induction rows arbitrary: b seen)
  case (Cons row rows)
  from Cons.prems(1) obtain v b1 where head: "ingest_row S B write row b = (Inr v :: 'b exn + unit, b1)"
    and tail: "for_each (ingest_row S B write) rows b1 = (Inr u :: 'b exn + unit, b')"
    by (auto elim: pthen_InrE)
  from Cons.IH [OF tail ingest_row_accounts [OF head Cons.prems(2)]] show ?case by simp
qed simp

lemma accounts_start: "accounts [] (batch_of t)"
  by (simp add: accounts_def batch_of_def)

subsection \<open>The store during a batch\<close>

text \<open>The reasons recorded for a granule say that deleting what it staged failed.\<close>

definition cleanup_failed :: "('r, 's, 'd, 'b, 'o, 'f) batch \<Rightarrow> string \<Rightarrow> bool" where
  "cleanup_failed b g = (case map_of (skipped b) g of None \<Rightarrow> False | Some reason \<Rightarrow> sublist cleanup_text reason)"

lemma note_skip_cleanup:
  "cleanup_failed b r \<Longrightarrow> cleanup_failed (note_skip g reason b) r"
  "sublist cleanup_text reason \<Longrightarrow> cleanup_failed (note_skip g reason b) g"
proof -
  have "cleanup_text \<noteq> []" by (simp add: cleanup_text_def)
  then show "cleanup_failed b r \<Longrightarrow> cleanup_failed (note_skip g reason b) r"
    "sublist cleanup_text reason \<Longrightarrow> cleanup_failed (note_skip g reason b) g"
    by (auto simp: cleanup_failed_def note_skip_def sublist_append simp del: append_Cons split: option.splits)
qed

lemma cleanup_failed_skips: "skipped b' = skipped b \<Longrightarrow> cleanup_failed b' = cleanup_failed b"
  by (simp add: cleanup_failed_def fun_eq_iff)

lemma clean_up_failed:
  assumes "clean_up S g reason b = (Inr u :: 'b exn + unit, b')" and "cleanup_failed b r"
  shows "cleanup_failed b' r"
  using assms(1)
proof (cases rule: clean_up_cases)
  case nothing
  with assms(2) show ?thesis by (simp add: note_skip_cleanup(1))
next
  case (deleted q s reason')
  have "cleanup_failed (b\<lparr>batch_tx := batch_tx b\<lparr>session := s\<rparr>\<rparr>) r"
    using assms(2) by (simp add: cleanup_failed_def)
  then show ?thesis by (simp add: deleted(3) note_skip_cleanup(1))
qed

text \<open>
  \<open>agrees s0 b\<close>, for a batch that began on the session \<open>s0\<close>: a granule that was already there is
  not committed and untouched, and a granule that is there now but was not then is committed, unless
  its reasons say that it could not be cleaned up.
\<close>

definition agrees ::
    "('s, 'x, 'g, 'f, 'z) store_lib_scheme \<Rightarrow> 's \<Rightarrow> ('r, 's, 'd, 'b, 'o, 'f) batch \<Rightarrow> string \<Rightarrow> bool" where
  "agrees S s0 b g \<longleftrightarrow>
     (if node S s0 (''/'' @ g) = None
      then node S (session (batch_tx b)) (''/'' @ g) \<noteq> None \<longrightarrow> g \<in> set (committed b) \<or> cleanup_failed b g
      else g \<notin> set (committed b)
        \<and> (\<forall>q. under (''/'' @ g) q \<longrightarrow> node S (session (batch_tx b)) q = node S s0 q))"

lemma granule_apart:
  assumes "plain_component g" and "plain_component r" and "g \<noteq> r"
    and "own_granule S r s s'" and "under (''/'' @ g) q"
  shows "node S s' q = node S s q"
proof -
  have "q \<noteq> []" using assms(5) by (auto simp: under_def prefix_def)
  moreover have "\<not> under (''/'' @ r) q"
    using assms(5) component_apart [OF assms(1-3), of "[]"] by (auto simp: under_def prefix_def)
  ultimately show ?thesis using assms(4) by (simp add: own_granule_def)
qed

lemma agrees_other:
  assumes "agrees S s0 b g" and "plain_component g" "plain_component r" "g \<noteq> r"
    and "own_granule S r (session (batch_tx b)) (session (batch_tx b'))"
    and "set (committed b) \<subseteq> set (committed b')" "set (committed b') \<subseteq> insert r (set (committed b))"
    and "cleanup_failed b g \<Longrightarrow> cleanup_failed b' g"
  shows "agrees S s0 b' g"
proof -
  have "node S (session (batch_tx b')) q = node S (session (batch_tx b)) q" if "under (''/'' @ g) q" for q
    by (rule granule_apart [OF assms(2-5) that])
  then show ?thesis using assms(1,4,6,7,8) by (auto simp: agrees_def)
qed

lemma presence_lawD:
  assumes "presence_law S"
  shows "zarr_open_r S s g = NodeNotFound \<Longrightarrow> node S s (''/'' @ g) = None"
    and "delete_dir S s g = (r, s') \<Longrightarrow> own_granule S g s s'"
    and "delete_dir S s g = (Inr (), s') \<Longrightarrow> node S s' (''/'' @ g) = None"
  using assms unfolding presence_law_def own_granule_def by (blast, blast, metis under_refl)

lemma own_granule_trans: "own_granule S g s t \<Longrightarrow> own_granule S g t u \<Longrightarrow> own_granule S g s u"
  by (simp add: own_granule_def)

text \<open>
  A failed write with its clean-up: confined to the granule, and nothing of it is left unless the
  reason recorded says so.
\<close>

lemma clean_up_store:
  assumes law: "presence_law S" and run: "clean_up S g reason b = (Inr u :: 'b exn + unit, b')"
  shows "own_granule S g (session (batch_tx b)) (session (batch_tx b'))
    \<and> (node S (session (batch_tx b')) (''/'' @ g) = None \<or> cleanup_failed b' g)"
  using run
proof (cases rule: clean_up_cases)
  case nothing
  then show ?thesis using presence_lawD(1) [OF law] by (simp add: own_granule_def)
next
  case (deleted r s reason')
  note del = presence_lawD(2,3) [OF law]
  have tx: "session (batch_tx b') = s" by (simp add: deleted(3))
  from deleted(4) have "node S s (''/'' @ g) = None \<or> cleanup_failed b' g"
  proof
    assume "r = Inr ()"
    with deleted(2) del(2) show ?thesis by blast
  next
    assume "sublist cleanup_text reason'"
    then show ?thesis by (simp add: deleted(3) note_skip_cleanup(2))
  qed
  with del(1) [OF deleted(2)] tx show ?thesis by simp
qed

text \<open>A row that worked on the granule \<open>r\<close>, absent before: it is committed, or nothing of it is left, or it could not be cleaned up.\<close>

lemma agrees_worked:
  assumes start: "agrees S s0 b g" and plain: "plain_component g" "plain_component r"
    and absent: "node S (session (batch_tx b)) (''/'' @ r) = None"
    and own: "own_granule S r (session (batch_tx b)) (session (batch_tx b'))"
    and books: "set (committed b') = insert r (set (committed b))
      \<or> committed b' = committed b \<and> (node S (session (batch_tx b')) (''/'' @ r) = None \<or> cleanup_failed b' r)"
    and later: "cleanup_failed b g \<Longrightarrow> cleanup_failed b' g"
  shows "agrees S s0 b' g"
proof (cases "g = r")
  case True
  have "node S s0 (''/'' @ r) = None"
    using start absent True by (auto simp: agrees_def split: if_splits)
  with True books show ?thesis by (auto simp: agrees_def)
next
  case False
  show ?thesis by (rule agrees_other [OF start plain False own]) (use books later in auto)
qed

lemma ingest_row_agrees:
  assumes laws: "presence_law S" "writer_law L S write"
    and run: "ingest_row S B write row b = (Inr u :: 'b exn + unit, b')"
    and plain: "row_id row = (Inr r :: 'b exn + string)" "plain_component r" "plain_component g"
    and start: "agrees S s0 b g"
  shows "agrees S s0 b' g"
  using run
proof (cases rule: ingest_row_cases)
  case (staged g' path t)
  with plain(1) have r: "g' = r" by simp
  have "own_granule S r (session (batch_tx b)) (session t)"
    using laws(2) staged(4) plain(1,2) unfolding writer_law_def by blast
  moreover have "cleanup_failed b' = cleanup_failed b" by (rule cleanup_failed_skips) (simp add: staged(5))
  ultimately show ?thesis
    by (intro agrees_worked [OF start plain(3,2)] presence_lawD(1) [OF laws(1)])
      (use staged in \<open>simp_all add: r\<close>)
next
  case (failed g' e t reason)
  with plain(1) have r: "g' = r" by simp
  have "own_granule S r (session (batch_tx b)) (session t)"
    using laws(2) failed(4) plain(1,2) unfolding writer_law_def by blast
  moreover have left: "own_granule S r (session t) (session (batch_tx b'))"
      "node S (session (batch_tx b')) (''/'' @ r) = None \<or> cleanup_failed b' r"
    using clean_up_store [OF laws(1) failed(5)] by (simp_all add: r)
  ultimately have "own_granule S r (session (batch_tx b)) (session (batch_tx b'))"
    by (blast intro: own_granule_trans)
  moreover have "committed b' = committed b" using clean_up_books [OF failed(5)] by simp
  moreover have "cleanup_failed b' g" if "cleanup_failed b g"
    by (rule clean_up_failed [OF failed(5)]) (use that in \<open>simp add: cleanup_failed_def\<close>)
  ultimately show ?thesis
    by (intro agrees_worked [OF start plain(3,2)] presence_lawD(1) [OF laws(1)])
      (use failed(3) left(2) in \<open>simp_all add: r\<close>)
qed (use start in \<open>auto simp: agrees_def note_skip_cleanup(1)\<close>)

lemma ingest_rows_agrees:
  assumes laws: "presence_law S" "writer_law L S write" and g: "plain_component g"
  shows "for_each (ingest_row S B write) rows b = (Inr u :: 'b exn + unit, b') \<Longrightarrow>
    \<forall>row \<in> set rows. \<exists>r. row_id row = (Inr r :: 'b exn + string) \<and> plain_component r \<Longrightarrow>
    agrees S s0 b g \<Longrightarrow> agrees S s0 b' g"
proof (induction rows arbitrary: b)
  case (Cons row rows)
  from Cons.prems(1) obtain v b1 where head: "ingest_row S B write row b = (Inr v :: 'b exn + unit, b1)"
    and tail: "for_each (ingest_row S B write) rows b1 = (Inr u :: 'b exn + unit, b')"
    by (auto elim: pthen_InrE)
  from Cons.prems(2) obtain r where r: "row_id row = (Inr r :: 'b exn + string)" "plain_component r" by auto
  have "agrees S s0 b1 g" by (rule ingest_row_agrees [OF laws head r g Cons.prems(3)])
  with Cons.IH [OF tail] Cons.prems(2) show ?case by simp
qed simp

text \<open>
  C17. The books. After the loop of \<open>ingest_batch\<close> the committed ids are distinct and stand, in
  order, for the rows to be appended, each an input row with the path of its arrays added; and the
  id of every input row is either committed or recorded as skipped with a reason.
\<close>

theorem batch_accounts:
  assumes "for_each (ingest_row S B write) rows (batch_of t) = (Inr u :: 'b exn + unit, b)"
  shows "accounts rows b"
  using ingest_rows_accounts [OF assms accounts_start] by simp

text \<open>
  C8. The arrays. For any granule whose id is one path component, after the loop: if it was in the store
  before the batch, it is not committed and not one of its nodes has changed; if it was not, and it is
  there now, then it is committed, or the reason recorded for skipping it says that deleting what it had
  staged failed too. So what a failed granule leaves behind is never left unreported, and nothing
  published earlier is touched.
\<close>

theorem batch_leaves_no_orphans:
  assumes "presence_law S" and "writer_law L S write"
    and "\<And>row. row \<in> set rows \<Longrightarrow> \<exists>r. row_id row = (Inr r :: 'b exn + string) \<and> plain_component r"
    and "for_each (ingest_row S B write) rows (batch_of t) = (Inr u :: 'b exn + unit, b)"
    and "plain_component g"
  shows "if node S (session t) (''/'' @ g) = None
    then node S (session (batch_tx b)) (''/'' @ g) = None \<or> g \<in> set (committed b) \<or> cleanup_failed b g
    else g \<notin> set (committed b) \<and> (\<forall>q. under (''/'' @ g) q \<longrightarrow>
      node S (session (batch_tx b)) q = node S (session t) q)"
proof -
  have "agrees S (session t) (batch_of t) g" by (simp add: agrees_def batch_of_def)
  with ingest_rows_agrees [OF assms(1,2,5,4)] assms(3) have "agrees S (session t) b g" by blast
  then show ?thesis by (auto simp: agrees_def)
qed

subsection \<open>One commit\<close>

lemma in_tx_run: "in_tx m b = (r, b') \<longleftrightarrow> (\<exists>t. m (batch_tx b) = (r, t) \<and> b' = b\<lparr>batch_tx := t\<rparr>)"
  by (auto simp: in_tx_def split: prod.splits)

text \<open>The transaction that \<open>publish_batch\<close> commits: the batch's, later, with the one append.\<close>

definition committing ::
    "('s, 'f, 'r, 'm, 'b, 'd, 'o, 'z) iceberg_lib_scheme \<Rightarrow> ('m, 'o, 'd, 'f, 'b, 'y) batch_lib_scheme
     \<Rightarrow> string \<Rightarrow> 'd \<Rightarrow> ('r, 's, 'd, 'b, 'o) transaction \<Rightarrow> ('r, 's, 'd, 'b, 'o) transaction" where
  "committing L B name d t = add_intent (AppendRows name (sort_ascending B d HASH_COLUMN)) (let_others L t)"

text \<open>Every way \<open>publish_batch\<close> can go.\<close>

lemma publish_batch_cases:
  fixes L :: "('s, 'f :: zero, 'r, 'm, 'b, 'd, 'o, 'z) iceberg_lib_scheme"
  assumes run: "publish_batch L B conf n name b = (res, b')"
  obtains (empty) "kept b = []" and "res = Inl (BatchFailed n (skipped b))"
      and "batch_tx b' = discard L (batch_tx b)"
    | (unread) e where "res = Inl e" and "batch_tx b' = let_others L (batch_tx b)"
    | (raised) e d t m where "res = Inl e" and "commit L (committing L B name d (batch_tx b)) = (Inl e, t)"
      and "batch_tx b' = discard L t" and "table_from_pylist B (kept b) (schema_as_arrow B m) = Inr d"
    | (returned) i d m t where "kept b \<noteq> []"
      and "table_from_pylist B (kept b) (schema_as_arrow B m) = Inr d"
      and "commit L (committing L B name d (batch_tx b)) = (Inr i, t)" and "batch_tx b' = t"
      and "res = Inr \<lparr>result_snapshot_id = i, result_committed = committed b, result_skipped = skipped b\<rparr>"
proof (cases "kept b = []")
  case True
  with run show thesis
    by (intro empty) (auto simp: publish_batch_def in_tx_def discard_def)
next
  case False
  obtain q t1 where rd: "repo_read L conf (Some ''main'') None None (batch_tx b)
      = (q :: 'b exn + ('r, 's) hybrid_snapshot, t1)" by fastforce
  then have t1: "t1 = let_others L (batch_tx b)" by (rule repo_read_state)
  consider (stop) e where "res = Inl e" "b' = b\<lparr>batch_tx := t1\<rparr>"
    | (go) snap m d where "q = Inr snap" "fst (snapshot_table L name snap) = (Inr m :: 'b exn + _)"
        "table_from_pylist B (kept b) (schema_as_arrow B (table_metadata m)) = Inr d"
    using run False rd
    by (cases q; cases "fst (snapshot_table L name (projr q)) :: 'b exn + 'm iceberg_table";
        cases "table_from_pylist B (kept b) (schema_as_arrow B (table_metadata
          (projr (fst (snapshot_table L name (projr q)) :: 'b exn + 'm iceberg_table))))")
      (auto simp: publish_batch_def in_tx_def)
  then show thesis
  proof cases
    case stop
    with t1 show thesis by (intro unread) simp_all
  next
    case go
    obtain c t where commit: "commit L (committing L B name d (batch_tx b)) = (c, t)" by fastforce
    have "publish_batch L B conf n name b =
        pbind (in_tx (ptry (commit L) (\<lambda>e. pthen (pmodify (discard L)) (praise e)))) (\<lambda>i.
          pget (\<lambda>b. \<lparr>result_snapshot_id = i, result_committed = committed b, result_skipped = skipped b\<rparr>))
        (b\<lparr>batch_tx := committing L B name d (batch_tx b)\<rparr>)"
      using False rd t1 go by (simp add: publish_batch_def in_tx_def tx_append_def committing_def)
    with run commit go(3) False show thesis
      by (cases c) (auto simp: in_tx_def ptry_def pbind_def intro: raised returned)
  qed
qed

text \<open>Until it publishes, a batch works on its session only.\<close>

definition batch_work ::
    "('s, 'f, 'r, 'z) icechunk_lib_scheme \<Rightarrow> ('r, 's, 'd, 'b, 'o, 'h) batch
     \<Rightarrow> ('r, 's, 'd, 'b, 'o, 'h) batch \<Rightarrow> bool" where
  "batch_work L b b' \<longleftrightarrow> session_work L (batch_tx b) (batch_tx b')"

interpretation bw: step_frame
    "batch_work L :: ('r, 's, 'd, 'b, 'o, 'h) batch \<Rightarrow> ('r, 's, 'd, 'b, 'o, 'h) batch \<Rightarrow> bool"
    for L :: "('s, 'f, 'r, 'z) icechunk_lib_scheme"
proof
  fix t u v :: "('r, 's, 'd, 'b, 'o, 'h) batch"
  show "batch_work L t t" unfolding batch_work_def by (rule work.refl)
  show "batch_work L t u \<Longrightarrow> batch_work L u v \<Longrightarrow> batch_work L t v"
    unfolding batch_work_def by (rule work.trans)
qed

lemma batch_work_same: "batch_tx b' = batch_tx b \<Longrightarrow> batch_work L b b'"
  by (simp add: batch_work_def work.refl)

lemma already_there_work: "keeps (batch_work L) (already_there S g)"
  unfolding already_there_def by (intro bw.steps)

lemma record_skip_work: "keeps (batch_work L) (record_skip g reason)"
  unfolding record_skip_def by (intro bw.modify_step batch_work_same) simp

lemma clean_up_work:
  assumes "store_session_law L S"
  shows "keeps (batch_work L) (clean_up S g reason :: (('r, 's, 'd, 'b, 'o, 'f) batch, 'b exn, unit) pgm)"
proof -
  have "keeps (batch_work L) (delete_staged S g reason :: (('r, 's, 'd, 'b, 'o, 'f) batch, 'b exn, unit) pgm)"
  proof (rule keepsI)
    fix b b' :: "('r, 's, 'd, 'b, 'o, 'f) batch" and r :: "'b exn + unit"
    assume run: "delete_staged S g reason b = (r, b')"
    obtain q s where del: "delete_dir S (session (batch_tx b)) g = (q, s)" by fastforce
    have "same_session L (session (batch_tx b)) (snd (delete_dir S (session (batch_tx b)) g))"
      using assms unfolding store_session_law_def by blast
    then have "same_session L (session (batch_tx b)) s" by (simp add: del)
    moreover have "batch_tx b' = batch_tx b\<lparr>session := s\<rparr>"
      using run del by (auto simp: record_skip_def delete_staged_def)
    ultimately show "batch_work L b b'"
      unfolding batch_work_def session_work_def by blast
  qed
  then show ?thesis
    unfolding clean_up_def by (intro bw.steps already_there_work record_skip_work)
qed

lemma ingest_row_work:
  assumes law: "writer_law L S write" and "store_session_law L S"
  shows "keeps (batch_work L) (ingest_row S B write row :: (('r, 's, 'd, 'b, 'o, 'f) batch, 'b exn, unit) pgm)"
proof (cases "row_id row :: 'b exn + string")
  case (Inl e)
  have "ingest_row S B write row = (praise e :: (('r, 's, 'd, 'b, 'o, 'f) batch, 'b exn, unit) pgm)"
    by (rule ext) (simp add: ingest_row_def Inl)
  then show ?thesis by (simp add: bw.pure_step)
next
  case (Inr g)
  have "keeps (batch_work L) (in_tx (write row) :: (('r, 's, 'd, 'b, 'o, 'f) batch, 'b exn, string) pgm)"
  proof (rule keepsI)
    fix b r b'
    assume "in_tx (write row) b = (r, b' :: ('r, 's, 'd, 'b, 'o, 'f) batch)"
    then obtain t where "write row (batch_tx b) = (r, t)" and b': "b' = b\<lparr>batch_tx := t\<rparr>"
      unfolding in_tx_run by blast
    then have "session_work L (batch_tx b) t"
      using law Inr unfolding writer_law_def by blast
    then show "batch_work L b b'" by (simp add: batch_work_def b')
  qed
  then have "keeps (batch_work L) (stage_granule S B (write row) g row
      :: (('r, 's, 'd, 'b, 'o, 'f) batch, 'b exn, unit) pgm)"
    unfolding stage_granule_def
    by (intro bw.steps clean_up_work assms(2)) (simp_all add: batch_work_same)
  then show ?thesis
    unfolding ingest_row_def Inr pbind_plift_Inr
    by (intro bw.steps record_skip_work already_there_work)
qed

lemma ingest_rows_work:
  fixes b b' :: "('r, 's, 'd, 'b, 'o, 'f) batch"
  assumes "writer_law L S write" and "store_session_law L S"
    and "for_each (ingest_row S B write) rows b = (r :: 'b exn + unit, b')"
  shows "session_work L (batch_tx b) (batch_tx b')"
  using keepsD [OF bw.for_each_step [OF ingest_row_work [OF assms(1,2)]] assms(3)]
  by (simp add: batch_work_def)

lemma session_work_fields:
  fixes t t' :: "('r, 's, 'd, 'b, 'o) transaction"
  assumes "session_work L t t'"
  shows "remote t' = remote t" "branch t' = branch t" "intents t' = intents t"
    "session_branch L (session t') = session_branch L (session t)"
  using assms by (auto simp: session_work_def same_session_def)

lemma committing_fields [simp]:
  "remote (committing L B name d t) = remote (let_others L t)"
  "branch (committing L B name d t) = branch t" "session (committing L B name d t) = session t"
  "intents (committing L B name d t) = intents t @ [AppendRows name (sort_ascending B d HASH_COLUMN)]"
  by (simp_all add: committing_def add_intent_def let_others_def)

text \<open>How a call of \<open>ingest_batch\<close> goes: it stops before publishing, or it runs \<open>publish_batch\<close>.\<close>

lemma ingest_batch_cases:
  fixes L :: "('s, 'f :: zero, 'r, 'm, 'b, 'd, 'o, 'z) iceberg_lib_scheme"
    and res :: "'b exn + batch_result"
  assumes laws: "world_laws L" "writer_law L S (\<lambda>row. writer row registry bands access)" "store_session_law L S"
    and run: "ingest_batch L S B H conf rows registry bands access writer msg name p = (res, p')"
  obtains (stopped) e where "res = Inl e" and "unpublished L (remote p) (remote p')"
      and "remote p' = remote p \<or> remote p' = remote (let_others L p)"
    | (published_by) hashed b b' t p1 where "with_stac_hash H rows PARTITION_BITS = (Inr hashed :: 'b exn + _)"
      and "for_each (ingest_row S B (\<lambda>row. writer row registry bands access)) (table_rows hashed) (batch_of t)
             = (Inr () :: 'b exn + unit, b)"
      and "publish_batch L B conf (num_rows hashed) name b = (res, b')"
      and "unpublished L (remote p) (remote (batch_tx b))" and "remote p' = remote (batch_tx b')"
      and "branch (batch_tx b) = ''main''" and "session_branch L (session (batch_tx b)) = ''main''"
      and "intents (batch_tx b) = []" and "session_work L t (batch_tx b)"
      and "tx_init L conf ''main'' (batch_message msg (num_rows hashed)) DEFAULT_MAX_RETRIES None p
             = (Inr t :: 'b exn + ('r, 's, 'd, 'b, 'o) transaction, p1)"
proof (cases "with_stac_hash H rows PARTITION_BITS :: 'b exn + 'f arrow_table")
  case (Inl e)
  with run show thesis by (intro stopped [of e]) (auto simp: ingest_batch_def)
next
  case hashed: (Inr hashed)
  obtain q p1 where init: "tx_init L conf ''main'' (batch_message msg (num_rows hashed)) DEFAULT_MAX_RETRIES None p
      = (q :: 'b exn + ('r, 's, 'd, 'b, 'o) transaction, p1)" by fastforce
  note quiet = tx_init_quiet [OF laws(1) init]
  show thesis
  proof (cases q)
    case (Inl e)
    with run hashed init quiet tx_init_state(1) [OF init] show thesis
      by (intro stopped [of e]) (auto simp: ingest_batch_def repo_transaction_def)
  next
    case (Inr t)
    obtain r1 b where loop: "for_each (ingest_row S B (\<lambda>row. writer row registry bands access)) (table_rows hashed)
        (batch_of t) = (r1 :: 'b exn + unit, b)" by fastforce
    have work: "session_work L t (batch_tx b)"
      using ingest_rows_work [OF laws(2,3) loop] by (simp add: batch_of_def)
    note fields = session_work_fields [OF work]
    have quiet_b: "unpublished L (remote p) (remote (batch_tx b))" and "remote (batch_tx b) = remote (let_others L p)"
      using quiet Inr tx_init_state [OF init] by (simp_all add: fields(1))
    have go: "ingest_batch L S B H conf rows registry bands access writer msg name p =
        (case pthen (for_each (ingest_row S B (\<lambda>row. writer row registry bands access)) (table_rows hashed))
            (publish_batch L B conf (num_rows hashed) name) (batch_of t) of
          (r, b) \<Rightarrow> (r, p1\<lparr>remote := remote (batch_tx b), clock := clock (batch_tx b), draws := draws (batch_tx b)\<rparr>))"
      using hashed init Inr by (simp add: ingest_batch_def repo_transaction_def)
    show thesis
    proof (cases r1)
      case (Inl e)
      with run go loop have "res = Inl e" "remote p' = remote (batch_tx b)" by auto
      with quiet_b \<open>remote (batch_tx b) = remote (let_others L p)\<close> show thesis using stopped by simp
    next
      case u: (Inr u)
      obtain b' where "publish_batch L B conf (num_rows hashed) name b = (res, b')"
        and "remote p' = remote (batch_tx b')"
        using run go loop u by (auto split: prod.splits)
      moreover have "branch (batch_tx b) = ''main''" "session_branch L (session (batch_tx b)) = ''main''"
        "intents (batch_tx b) = []"
        using quiet Inr by (simp_all add: fields)
      ultimately show thesis using published_by hashed loop u quiet_b work init Inr by simp
    qed
  qed
qed

text \<open>
  C4. All or nothing. A call of \<open>ingest_batch\<close> that returns moved the branch \<open>main\<close> exactly once, to
  the snapshot it names, which holds the arrays and the rows together; a call that raises, for
  whatever reason and however far it got, moved no branch, tag or snapshot at all.
\<close>

theorem ingest_batch_atomic:
  fixes L :: "('s, 'f :: zero, 'r, 'm, 'b, 'd, 'o, 'z) iceberg_lib_scheme"
  assumes laws: "world_laws L" "writer_law L S (\<lambda>row. writer row registry bands access)" "store_session_law L S"
    and run: "ingest_batch L S B H conf rows registry bands access writer msg name p = (res :: 'b exn + _, p')"
  shows "case res of
      Inl e \<Rightarrow> unpublished L (remote p) (remote p')
    | Inr out \<Rightarrow> \<exists>r ptrs. unpublished L (remote p) r
        \<and> published L ''main'' (result_snapshot_id out) ptrs r (remote p')"
  using laws run
proof (cases rule: ingest_batch_cases)
  case (published_by hashed b b' t)
  have later: "unpublished L (remote p) (remote (let_others L (batch_tx b)))"
    using published_by(4) unpublished_others [of L "remote (batch_tx b)" "clock (batch_tx b)"]
    by (simp add: let_others_def)
  from published_by(3) show ?thesis
  proof (cases rule: publish_batch_cases)
    case empty
    with published_by show ?thesis by (simp add: discard_def)
  next
    case (unread e)
    with published_by(5) later show ?thesis by simp
  next
    case (raised e d t')
    with commit_raised [OF laws(1) raised(2)] published_by(5) later show ?thesis
      by (auto simp: discard_def)
  next
    case (returned i d m t')
    have "session_branch L (session (committing L B name d (batch_tx b)))
        = branch (committing L B name d (batch_tx b))"
      using published_by(6,7) by simp
    from commit_returned [OF laws(1) returned(3) this] obtain r where
      "unpublished L (remote (let_others L (batch_tx b))) r"
      "published L ''main'' i (current_pointers t') r (remote t')"
      using published_by(6) by auto
    then have "unpublished L (remote p) r" using later by (meson rtranclp_trans)
    with \<open>published L ''main'' i (current_pointers t') r (remote t')\<close> returned(4,5) published_by(5)
    show ?thesis by auto
  qed
qed simp

text \<open>
  C9. A batch is one transaction with one append. What a successful \<open>ingest_batch\<close> commits is a
  transaction on \<open>main\<close> whose only intent appends, sorted by the hash, the table made of the rows
  kept; those are, in order, the rows of the ids it reports as committed, which are distinct, and
  every row of the batch is committed or skipped with a reason.
\<close>

theorem ingest_batch_appends:
  fixes L :: "('s, 'f :: zero, 'r, 'm, 'b, 'd, 'o, 'z) iceberg_lib_scheme"
  assumes laws: "world_laws L" "writer_law L S (\<lambda>row. writer row registry bands access)" "store_session_law L S"
    and run: "ingest_batch L S B H conf rows registry bands access writer msg name p = (Inr out :: 'b exn + _, p')"
  shows "\<exists>hashed batch d m tx tx'. with_stac_hash H rows PARTITION_BITS = (Inr hashed :: 'b exn + _)
    \<and> accounts (table_rows hashed) batch \<and> kept batch \<noteq> []
    \<and> result_committed out = committed batch \<and> result_skipped out = skipped batch
    \<and> table_from_pylist B (kept batch) (schema_as_arrow B m) = Inr d
    \<and> branch tx = ''main'' \<and> intents tx = [AppendRows name (sort_ascending B d HASH_COLUMN)]
    \<and> commit L tx = (Inr (result_snapshot_id out), tx' :: ('r, 's, 'd, 'b, 'o) transaction)
    \<and> remote p' = remote tx' \<and> batch_tx batch = tx'"
  using laws run
proof (cases rule: ingest_batch_cases)
  case (published_by hashed b b' t)
  from published_by(3) show ?thesis
  proof (cases rule: publish_batch_cases)
    case (returned i d m t')
    have "accounts (table_rows hashed) b"
      using ingest_rows_accounts [OF published_by(2) accounts_start] by simp
    then have books: "accounts (table_rows hashed) (b\<lparr>batch_tx := t'\<rparr>)" by (simp add: accounts_def)
    have "intents (committing L B name d (batch_tx b)) = [AppendRows name (sort_ascending B d HASH_COLUMN)]"
      using published_by(8) by simp
    then show ?thesis
      using published_by(1,5,6) returned books
      by (intro exI [of _ hashed] exI [of _ "b\<lparr>batch_tx := t'\<rparr>"] exI [of _ d] exI [of _ m]
          exI [of _ "committing L B name d (batch_tx b)"] exI [of _ t']) simp
  qed simp_all
qed simp

end
