(* ===== verification/Ingest_Rows.thy ===== *)
theory Ingest_Rows
  imports Ingest
begin

text \<open>
  A batch and the table together: the transaction that \<open>ingest_batch\<close> commits meets the conditions of
  the commit's row-level specification, so that what a batch does to the granules table can be said
  in rows, when no rival lands inside a recovery.
\<close>

text \<open>Array work, and another read of the branch, leave a transaction at the version it was opened on.\<close>

lemma session_work_synced:
  fixes t t' :: "('r, 's, 'd, 'b, 'o) transaction"
  assumes "session_work L t t'" and "synced L t"
  shows "synced L t'" and "staged t' = staged t" and "clock t' = clock t"
  using assms by (auto simp: session_work_def same_session_def synced_def)

lemma committing_synced:
  fixes t :: "('r, 's, 'd, 'b, 'o) transaction"
  assumes "world_laws L" and "synced L t"
  shows "synced L (committing L B name d t)"
proof -
  have "keeps_history L (remote t) (remote (let_others L t))"
    using assms(1) by (simp add: world_laws_def others_law_def let_others_def)
  with assms(2) show ?thesis
    by (auto simp: synced_def committing_def add_intent_def let_others_def intro: pointers_at_keeps)
qed

text \<open>The transaction that a batch commits is in sync, with nothing staged, two calls after its opening.\<close>

lemma committing_ready:
  fixes t t' :: "('r, 's, 'd, 'b, 'o) transaction"
  assumes laws: "world_laws L" and init: "tx_init L conf ''main'' msg n None p = (Inr t :: 'b exn + _, p1)"
    and work: "session_work L t t'"
  shows "synced L (committing L B name d t')" and "staged (committing L B name d t') = []"
    and "clock (committing L B name d t') = clock p + 2" and "branch (committing L B name d t') = ''main''"
    and "intents (committing L B name d t') = [AppendRows name (sort_ascending B d HASH_COLUMN)]"
proof -
  have law: "session_law L" using laws by (simp add: world_laws_def)
  note opened = tx_init_synced [OF law init]
  note worked = session_work_synced [OF work opened(1)]
  show "synced L (committing L B name d t')" by (rule committing_synced [OF laws worked(1)])
  show "staged (committing L B name d t') = []"
    using opened worked by (simp add: committing_def add_intent_def let_others_def)
  have "clock t = Suc (clock p)" using tx_init_state [OF init] by (simp add: let_others_def)
  then show "clock (committing L B name d t') = clock p + 2"
    using worked by (simp add: committing_def add_intent_def let_others_def)
  show "branch (committing L B name d t') = ''main''"
    "intents (committing L B name d t') = [AppendRows name (sort_ascending B d HASH_COLUMN)]"
    using opened session_work_fields [OF work] by simp_all
qed

text \<open>A batch that returns: what it staged, and what its commit made of the tip it took effect on.\<close>

lemma ingest_batch_adds:
  fixes L :: "('s, 'f :: zero, 'r, 'm, 'b, 'd, 'o, 'z) iceberg_lib_scheme"
  assumes laws: "world_laws L" "writer_law L S (\<lambda>row. writer row registry bands access)" "store_session_law L S"
    and rows_law: "rows_law L rows_of dat sat" and name: "plain_name L name"
    and others: "\<And>n r. store_ok L r \<Longrightarrow> store_ok L (others L n r)" and start: "store_ok L (remote p)"
    and pause: "no_writer_between L ''main'' (clock p + 2)"
    and run: "ingest_batch L S B H conf rows registry bands access writer msg name p = (Inr out :: 'b exn + _, p')"
  shows "\<exists>hashed batch d m r j R. with_stac_hash H rows PARTITION_BITS = (Inr hashed :: 'b exn + _)
    \<and> accounts (table_rows hashed) (batch :: ('r, 's, 'd, 'b, 'o, 'f) batch)
    \<and> result_committed out = committed batch \<and> kept batch \<noteq> []
    \<and> table_from_pylist B (kept batch) (schema_as_arrow B m) = Inr d
    \<and> unpublished L (remote p) r \<and> lookup_branch L r ''main'' = Inr j
    \<and> snapshot_rows L rows_of r j name = Some R
    \<and> snapshot_rows L rows_of (remote p') (result_snapshot_id out)
        = (snapshot_rows L rows_of r j)(name \<mapsto> R + dat (sort_ascending B d HASH_COLUMN))
    \<and> lookup_branch L (remote p') ''main'' = Inr (result_snapshot_id out)"
  using laws run
proof (cases rule: ingest_batch_cases)
  case (published_by hashed b b' t p1)
  from published_by(3) show ?thesis
  proof (cases rule: publish_batch_cases)
    case (returned i d m t')
    let ?tx = "committing L B name d (batch_tx b)"
    note ready = committing_ready [OF laws(1) published_by(10,9), of B name d]
    have later: "unpublished L (remote p) (remote ?tx)"
      using published_by(4) unpublished_others [of L "remote (batch_tx b)" "clock (batch_tx b)"]
      by (simp add: let_others_def)
    have ok: "store_ok L (remote ?tx)" by (rule unpublished_store_ok [OF others start later])
    note intents = ready(5)
    obtain r j where r: "unpublished L (remote ?tx) r" "lookup_branch L r ''main'' = Inr j"
      and append: "row_run dat sat (intents ?tx) (snapshot_rows L rows_of r j) = Some (snapshot_rows L rows_of (remote t') i)"
      and tip: "lookup_branch L (remote t') ''main'' = Inr i"
      using commit_rows [OF laws(1) rows_law others ok ready(1,2) _ _ returned(3)] pause name published_by(8)
      unfolding ready(3,4) by auto
    obtain R where "snapshot_rows L rows_of r j name = Some R"
      and "snapshot_rows L rows_of (remote t') i
        = (snapshot_rows L rows_of r j)(name \<mapsto> R + dat (sort_ascending B d HASH_COLUMN))"
      using append unfolding intents by (cases "snapshot_rows L rows_of r j name") auto
    moreover have "accounts (table_rows hashed) b"
      using ingest_rows_accounts [OF published_by(2) accounts_start] by simp
    moreover have "unpublished L (remote p) r" using later r(1) by (rule rtranclp_trans)
    ultimately show ?thesis
      using published_by(1,5) returned r(2) tip
      by (intro exI [of _ hashed] exI [of _ b] exI [of _ d] exI [of _ m] exI [of _ r] exI [of _ j] exI [of _ R]) simp
  qed simp_all
qed simp

text \<open>
  C5. What a batch adds. If every pointer resolves, the other writers keep it so and none lands inside a
  recovery, between its read of the tip and its rebase (\<open>no_writer_between\<close>), then a call of \<open>ingest_batch\<close> that returns has moved \<open>main\<close> from a
  snapshot \<open>j\<close>, the tip when it took effect, to the snapshot it names, whose tables are those of
  \<open>j\<close> with exactly one change: the granules table has gained the rows of the Arrow table built from
  the rows kept, which are those of the committed ids. So after however many such conflicts, no row of
  another writer is lost and none of the batch's is added twice.
\<close>

theorem ingest_batch_rows:
  fixes L :: "('s, 'f :: zero, 'r, 'm, 'b, 'd, 'o, 'z) iceberg_lib_scheme"
  assumes laws: "world_laws L" "writer_law L S (\<lambda>row. writer row registry bands access)" "store_session_law L S"
    and rows_law: "rows_law L rows_of dat sat" and name: "plain_name L name"
    and others: "\<And>n r. store_ok L r \<Longrightarrow> store_ok L (others L n r)" and start: "store_ok L (remote p)"
    and pause: "no_writer_between L ''main'' (clock p + 2)"
    and run: "ingest_batch L S B H conf rows registry bands access writer msg name p = (Inr out :: 'b exn + _, p')"
  shows "\<exists>hashed batch d m r j R. with_stac_hash H rows PARTITION_BITS = (Inr hashed :: 'b exn + _)
    \<and> accounts (table_rows hashed) (batch :: ('r, 's, 'd, 'b, 'o, 'f) batch)
    \<and> result_committed out = committed batch
    \<and> table_from_pylist B (kept batch) (schema_as_arrow B m) = Inr d
    \<and> unpublished L (remote p) r \<and> lookup_branch L r ''main'' = Inr j
    \<and> snapshot_rows L rows_of r j name = Some R
    \<and> snapshot_rows L rows_of (remote p') (result_snapshot_id out)
        = (snapshot_rows L rows_of r j)(name \<mapsto> R + dat (sort_ascending B d HASH_COLUMN))
    \<and> lookup_branch L (remote p') ''main'' = Inr (result_snapshot_id out)"
  using ingest_batch_adds [OF laws rows_law name others start pause run] by blast

end
