(* ===== verification/Paired.thy ===== *)
theory Paired
  imports Ingest_Rows Nodes
begin

text \<open>
  A batch keeps the promise of the package: \<open>ingest_batch\<close>, however it ends, leaves no row in any
  snapshot that names arrays the snapshot does not hold, if the other writers leave none and none of
  them lands inside a recovery. The loop's part of the argument is \<open>linked\<close>; the commit's part is
  \<open>commit_sound\<close>.
\<close>

subsection \<open>What the rows kept name\<close>

text \<open>A writer that returns for the granule \<open>g\<close> returns its path, and there is a node there.\<close>

definition link_law ::
    "('s, 'x, 'g, 'f, 'y) store_lib_scheme
     \<Rightarrow> ('f row \<Rightarrow> (('r, 's, 'd, 'b, 'o) transaction, 'b exn, string) pgm) \<Rightarrow> bool" where
  "link_law S write \<longleftrightarrow>
     (\<forall>row t path t' g. write row t = (Inr path, t') \<longrightarrow> row_id row = (Inr g :: 'b exn + string)
        \<longrightarrow> plain_component g \<longrightarrow> path = ''/'' @ g \<and> node S (session t') path \<noteq> None)"

text \<open>
  The default writer does: it opens the group of at least one band, and Zarr creates the groups above
  a group it creates, and takes none of those above away again (\<open>tree_law\<close>).
\<close>

definition tree_law :: "('s, 'x, 'g, 'f, 'y) store_lib_scheme \<Rightarrow> bool" where
  "tree_law S \<longleftrightarrow>
     (\<forall>s p d r s' q. to_icechunk S s p d = (r, s') \<longrightarrow> under q p \<longrightarrow> node S s q \<noteq> None \<longrightarrow> node S s' q \<noteq> None)
     \<and> (\<forall>s p r s' q. open_group_at S s p = (r, s') \<longrightarrow> under q p \<longrightarrow> r = Inr () \<or> node S s q \<noteq> None \<longrightarrow>
          node S s' q \<noteq> None)
     \<and> (\<forall>s p attrs r s' q. update_attrs_at S s p attrs = (r, s') \<longrightarrow> under q p \<longrightarrow> node S s q \<noteq> None \<longrightarrow>
          node S s' q \<noteq> None)"

definition still_there ::
    "('s, 'x, 'g, 'f, 'y) store_lib_scheme \<Rightarrow> string \<Rightarrow> 's \<Rightarrow> 's \<Rightarrow> bool" where
  "still_there S q s s' \<longleftrightarrow> (node S s q \<noteq> None \<longrightarrow> node S s' q \<noteq> None)"

interpretation there: step_frame "still_there S q :: 's \<Rightarrow> 's \<Rightarrow> bool"
    for S :: "('s, 'x, 'g, 'f, 'y) store_lib_scheme" and q
  by unfold_locales (simp_all add: still_there_def)

lemma tree_law_calls:
  assumes "tree_law S" and "under q p"
  shows "keeps (still_there S q) (store_call (\<lambda>s. to_icechunk S s p d))"
    and "keeps (still_there S q) (store_call (\<lambda>s. open_group_at S s p))"
    and "keeps (still_there S q) (store_call (\<lambda>s. update_attrs_at S s p attrs))"
  using assms unfolding tree_law_def keeps_def still_there_def store_call_def
  by (auto split: prod.splits)

lemma write_band_tree:
  assumes "tree_law S" and band: "\<And>b. under q (band_group g b)"
  shows "keeps (still_there S q) (write_band F S row g ls x)"
    and "write_band F S row g ls x s = (Inr u :: 'b exn + unit, s') \<Longrightarrow> node S s' q \<noteq> None"
proof -
  have lvl: "under q (level_group g b l)" for b l by (rule under_trans [OF band level_group_under])
  have level: "keeps (still_there S q) (write_level S g b ref y)" for b ref y
    by (auto simp: write_level_def split: prod.split list.split intro!: there.steps tree_law_calls [OF assms(1) lvl])
  show "keeps (still_there S q) (write_band F S row g ls x)"
    by (auto simp: write_band_def split: prod.split intro!: there.steps there.for_each_step level tree_law_calls [OF assms(1) band])
  assume "write_band F S row g ls x s = (Inr u :: 'b exn + unit, s')"
  then obtain s1 s2 as where opened: "open_group_at S s1 (band_group g (fst x)) = (Inr (), s2)"
    and updated: "update_attrs_at S s2 (band_group g (fst x)) as = (Inr (), s')"
    by (auto simp: write_band_def store_call_def split: prod.splits elim!: pbind_InrE pthen_InrE dest!: lib_result_InrD)
  note calls = assms(1) [unfolded tree_law_def]
  have "node S s2 q \<noteq> None" by (rule calls [THEN conjunct2, THEN conjunct1, rule_format, OF opened band]) simp
  then show "node S s' q \<noteq> None" by (rule calls [THEN conjunct2, THEN conjunct2, rule_format, OF updated band])
qed

lemma write_granule_links:
  fixes opener :: "string \<Rightarrow> 'g \<Rightarrow> 'b exn + (string, 'x) dict"
    and S :: "('s, 'x, 'g, 'f :: zero, 'y) store_lib_scheme"
  assumes "pyramid_law opener" and tree: "tree_law S"
  shows "link_law S (\<lambda>row. write_granule F S opener row registry bands access
    :: (('r, 's, 'd, 'b, 'o) transaction, 'b exn, string) pgm)"
  unfolding link_law_def
proof (intro allI impI)
  fix row :: "'f row" and t t' :: "('r, 's, 'd, 'b, 'o) transaction" and path g
  assume run: "write_granule F S opener row registry bands access t = (Inr path, t')"
    and g: "row_id row = (Inr g :: 'b exn + string)"
  from run have "write_granule_to_store F S row registry bands access opener (session t) = (Inr path, session t')"
    by (auto simp: write_granule_def on_session_def split: prod.splits)
  then obtain arrays u where arrays: "virtual_granule F S row registry bands access opener = Inr arrays"
    and path: "path = ''/'' @ g"
    and loop: "for_each (write_band F S row g (band_levels arrays)) (datasets arrays) (session t)
      = (Inr u :: 'b exn + unit, session t')"
    using g by (auto simp: write_granule_to_store_def elim!: pbind_InrE pthen_InrE)
  obtain urls where urls: "asset_urls row bands access = (Inr urls :: 'b exn + _)"
    and "dom (map_of (datasets arrays)) = dom (map_of urls)"
    by (rule virtual_granule_Inr [OF assms(1) arrays])
  with virtual_granule_urls [OF arrays urls] obtain x xs where ds: "datasets arrays = x # xs"
    by (cases "datasets arrays") (auto simp: dom_map_of_conv_image_fst)
  from loop obtain v s1 where first: "write_band F S row g (band_levels arrays) x (session t) = (Inr v :: 'b exn + unit, s1)"
    and rest: "for_each (write_band F S row g (band_levels arrays)) xs s1 = (Inr u :: 'b exn + unit, session t')"
    by (auto simp: ds elim!: pthen_InrE)
  have "keeps (still_there S (''/'' @ g)) (for_each (write_band F S row g (band_levels arrays)) xs :: ('s, 'b exn, unit) pgm)"
    by (intro there.for_each_step write_band_tree(1) [OF tree band_group_under(1)])
  from keepsD [OF this rest] write_band_tree(2) [OF tree band_group_under(1) first]
  show "path = ''/'' @ g \<and> node S (session t') path \<noteq> None" by (simp add: path still_there_def)
qed

text \<open>
  For a batch that began on the session \<open>s0\<close>: the granules that were there are there, and each row kept
  names one that was not there and is now.
\<close>

definition names_new ::
    "('s, 'x, 'g, 'f, 'y) store_lib_scheme \<Rightarrow> 's \<Rightarrow> 's \<Rightarrow> 'f row \<Rightarrow> bool" where
  "names_new S s0 s row \<longleftrightarrow>
     (\<exists>g. plain_component g \<and> cell row ''array_path'' = JStr (''/'' @ g)
        \<and> node S s0 (''/'' @ g) = None \<and> node S s (''/'' @ g) \<noteq> None)"

definition linked ::
    "('s, 'x, 'g, 'f, 'y) store_lib_scheme \<Rightarrow> 's \<Rightarrow> ('r, 's, 'd, 'b, 'o, 'f) batch \<Rightarrow> bool" where
  "linked S s0 b \<longleftrightarrow>
     (\<forall>g. plain_component g \<longrightarrow> node S s0 (''/'' @ g) \<noteq> None \<longrightarrow> node S (session (batch_tx b)) (''/'' @ g) \<noteq> None)
     \<and> (\<forall>row \<in> set (kept b). names_new S s0 (session (batch_tx b)) row)"

lemma linked_start: "linked S (session t) (batch_of t)"
  by (simp add: linked_def batch_of_def)

lemma linked_same: "linked S s0 b \<Longrightarrow> batch_tx b' = batch_tx b \<Longrightarrow> kept b' = kept b \<Longrightarrow> linked S s0 b'"
  by (simp add: linked_def)

text \<open>Work on a granule that was absent disturbs none that is present.\<close>

lemma present_apart:
  assumes "own_granule S r s s'" and "plain_component r" "plain_component g"
    and "node S s (''/'' @ r) = None" and "node S s (''/'' @ g) \<noteq> None"
  shows "node S s' (''/'' @ g) \<noteq> None"
proof -
  have "g \<noteq> r" using assms(4,5) by blast
  from granule_apart [OF assms(3,2) this assms(1) under_refl] assms(5) show ?thesis by simp
qed

lemma linked_worked:
  assumes "linked S s0 b" and own: "own_granule S r (session (batch_tx b)) (session (batch_tx b'))"
    and r: "plain_component r" and absent: "node S (session (batch_tx b)) (''/'' @ r) = None"
    and kept: "\<And>row. row \<in> set (kept b') \<Longrightarrow>
      row \<in> set (kept b) \<or> cell row ''array_path'' = JStr (''/'' @ r) \<and> node S (session (batch_tx b')) (''/'' @ r) \<noteq> None"
  shows "linked S s0 b'"
  unfolding linked_def
proof (intro conjI allI impI ballI)
  fix g assume "plain_component g" "node S s0 (''/'' @ g) \<noteq> None"
  with assms(1) show "node S (session (batch_tx b')) (''/'' @ g) \<noteq> None"
    by (intro present_apart [OF own r _ absent]) (simp_all add: linked_def)
next
  fix row assume row: "row \<in> set (kept b')"
  have gone: "node S s0 (''/'' @ r) = None"
  proof (rule ccontr)
    assume "node S s0 (''/'' @ r) \<noteq> None"
    with assms(1) r absent show False unfolding linked_def by blast
  qed
  from kept [OF row] show "names_new S s0 (session (batch_tx b')) row"
  proof
    assume "row \<in> set (kept b)"
    with assms(1) obtain g where g: "plain_component g" "cell row ''array_path'' = JStr (''/'' @ g)"
      "node S s0 (''/'' @ g) = None" "node S (session (batch_tx b)) (''/'' @ g) \<noteq> None"
      unfolding linked_def names_new_def by blast
    from present_apart [OF own r g(1) absent g(4)] g show ?thesis unfolding names_new_def by blast
  qed (use r gone in \<open>auto simp: names_new_def\<close>)
qed

lemma ingest_row_linked:
  assumes laws: "presence_law S" "writer_law L S write" "link_law S write"
    and run: "ingest_row S B write row b = (Inr u :: 'b exn + unit, b')"
    and r: "row_id row = (Inr r :: 'b exn + string)" "plain_component r" and start: "linked S s0 b"
  shows "linked S s0 b'"
  using run
proof (cases rule: ingest_row_cases)
  case (staged g path t)
  with r(1) have g: "g = r" by simp
  have own: "own_granule S r (session (batch_tx b)) (session t)"
    using laws(2) staged(4) r unfolding writer_law_def by blast
  have "path = ''/'' @ r \<and> node S (session t) path \<noteq> None"
    using laws(3) staged(4) r unfolding link_law_def by blast
  then show ?thesis
    by (intro linked_worked [OF start _ r(2) presence_lawD(1) [OF laws(1)]])
      (use staged own in \<open>auto simp: g\<close>)
next
  case (failed g e t reason)
  with r(1) have g: "g = r" by simp
  have "own_granule S r (session (batch_tx b)) (session t)"
    using laws(2) failed(4) r unfolding writer_law_def by blast
  moreover have "own_granule S r (session t) (session (batch_tx b'))"
    using failed(5)
    by (cases rule: clean_up_cases) (auto simp: g own_granule_def dest: presence_lawD(2) [OF laws(1)])
  ultimately have "own_granule S r (session (batch_tx b)) (session (batch_tx b'))"
    by (rule own_granule_trans)
  then show ?thesis
    by (intro linked_worked [OF start _ r(2) presence_lawD(1) [OF laws(1)]])
      (use failed(3) clean_up_books [OF failed(5)] in \<open>simp_all add: g\<close>)
qed (use start in \<open>auto intro: linked_same\<close>)

lemma ingest_rows_linked:
  assumes laws: "presence_law S" "writer_law L S write" "link_law S write"
  shows "for_each (ingest_row S B write) rows b = (Inr u :: 'b exn + unit, b') \<Longrightarrow>
    \<forall>row \<in> set rows. \<exists>r. row_id row = (Inr r :: 'b exn + string) \<and> plain_component r \<Longrightarrow>
    linked S s0 b \<Longrightarrow> linked S s0 b'"
proof (induction rows arbitrary: b)
  case (Cons row rows)
  from Cons.prems(1) obtain v b1 where head: "ingest_row S B write row b = (Inr v :: 'b exn + unit, b1)"
    and tail: "for_each (ingest_row S B write) rows b1 = (Inr u :: 'b exn + unit, b')"
    by (auto elim: pthen_InrE)
  from Cons.prems(2) obtain r where r: "row_id row = (Inr r :: 'b exn + string)" "plain_component r" by auto
  have "linked S s0 b1" by (rule ingest_row_linked [OF laws head r Cons.prems(3)])
  with Cons.IH [OF tail] Cons.prems(2) show ?case by simp
qed simp

subsection \<open>The batch\<close>

text \<open>
  Arrow. The table built from a list of rows and sorted has no rows but theirs: whatever path a row of
  it names (none, where the schema has no such column), a row of the list has.
\<close>

definition arrow_law ::
    "('m, 'o, 'd, 'f, 'b, 'y) batch_lib_scheme \<Rightarrow> ('d \<Rightarrow> 'a multiset) \<Rightarrow> ('a \<Rightarrow> string option) \<Rightarrow> bool" where
  "arrow_law B dat path_of \<longleftrightarrow>
     (\<forall>rows schema d x p. table_from_pylist B rows schema = Inr d
        \<longrightarrow> x \<in># dat (sort_ascending B d HASH_COLUMN) \<longrightarrow> path_of x = Some p
        \<longrightarrow> (\<exists>row \<in> set rows. cell row ''array_path'' = JStr p))"

lemma arrow_lawD:
  "arrow_law B dat path_of \<Longrightarrow> table_from_pylist B rows schema = Inr d \<Longrightarrow>
     x \<in># dat (sort_ascending B d HASH_COLUMN) \<Longrightarrow> path_of x = Some p \<Longrightarrow>
     \<exists>row \<in> set rows. cell row ''array_path'' = JStr p"
  unfolding arrow_law_def by blast

text \<open>Hashing keeps the ids.\<close>

lemma append_column_ids:
  assumes "append_column t c vs = (Inr t' :: 'b exn + _)" and "c \<noteq> ''id''" and "row' \<in> set (table_rows t')"
  shows "\<exists>row \<in> set (table_rows t). map_of row' ''id'' = map_of row ''id''"
  using assms by (auto simp: append_column_Inr dest: set_zip_leftD)

lemma with_stac_hash_ids:
  assumes "with_stac_hash H t pb = (Inr t' :: 'b exn + _)" and "row' \<in> set (table_rows t')"
  shows "\<exists>row \<in> set (table_rows t). map_of row' ''id'' = map_of row ''id''"
proof -
  from assms(1) obtain hs blocks t1 where first: "append_column t HASH_COLUMN hs = (Inr t1 :: 'b exn + _)"
    and second: "append_column t1 HASH_BLOCK_COLUMN blocks = (Inr t' :: 'b exn + _)"
    by (auto simp: with_stac_hash_def rbind_Inr_iff split: if_splits)
  have names: "HASH_COLUMN \<noteq> ''id''" "HASH_BLOCK_COLUMN \<noteq> ''id''"
    by (simp_all add: HASH_COLUMN_def HASH_BLOCK_COLUMN_def)
  from append_column_ids [OF second names(2) assms(2)] append_column_ids [OF first names(1)]
  show ?thesis by fastforce
qed

text \<open>What the transaction that is committed carries: the granules that the rows kept name.\<close>

definition named_granules :: "('r, 's, 'd, 'b, 'o, 'f) batch \<Rightarrow> string set" where
  "named_granules b = {p. \<exists>row \<in> set (kept b). cell row ''array_path'' = JStr p}"

lemma batch_carries:
  fixes b :: "('r, 's, 'd, 'b, 'o, 'f) batch" and t :: "('r, 's, 'd, 'b, 'o) transaction"
  assumes laws: "nodes_law L S" "neighbours_law L S rows_of path_of tbl"
    and opened: "writable_session L (remote t) ''main'' = Inr (session t)"
    and work: "session_work L t (batch_tx b)" and linked: "linked S (session t) b"
    and sync: "synced L (batch_tx b)"
  shows "carries L S (named_granules b) (committing L B name d (batch_tx b))"
proof -
  let ?s = "session (batch_tx b)"
  have same: "remote (batch_tx b) = remote t" "session_base L ?s = session_base L (session t)"
    using work by (auto simp: session_work_def same_session_def)
  have start: "node S (session t) p \<noteq> None \<longleftrightarrow> holds_node L S (remote t) (session_base L ?s) p" for p
    unfolding same by (rule nodes_law_opened [OF laws(1) opened])
  have "carries L S (named_granules b) (batch_tx b)"
    unfolding carries_def same(1) start [symmetric]
  proof (intro conjI allI impI ballI)
    fix p assume "granule_path p" "node S (session t) p \<noteq> None"
    with linked show "node S ?s p \<noteq> None" unfolding linked_def granule_path_def by blast
  next
    fix p assume "p \<in> named_granules b"
    with linked have "\<exists>g. plain_component g \<and> p = ''/'' @ g \<and> node S (session t) p = None \<and> node S ?s p \<noteq> None"
      by (fastforce simp: named_granules_def linked_def names_new_def)
    then show "granule_path p" "node S ?s p \<noteq> None" "\<not> node S (session t) p \<noteq> None"
      by (auto simp: granule_path_def)
  qed
  moreover have "unmoved L S (batch_tx b) (committing L B name d (batch_tx b))"
    using neighboursD(1) [OF laws(2)] by (simp add: unmoved_def let_others_def)
  ultimately show ?thesis by (rule carries_unmoved [OF _ sync])
qed

text \<open>However the batch ends.\<close>

lemma ingest_batch_sound:
  fixes L :: "('s, 'f :: zero, 'r, 'm, 'b, 'd, 'o, 'z) iceberg_lib_scheme"
  assumes laws: "world_laws L" "writer_law L S (\<lambda>row. writer row registry bands access)" "store_session_law L S"
    and arrays: "presence_law S" "link_law S (\<lambda>row. writer row registry bands access)" "nodes_law L S"
    and tables: "rows_law L rows_of dat sat" "arrow_law B dat path_of" "plain_name L name"
    and ids: "\<And>row. row \<in> set (table_rows rows) \<Longrightarrow> \<exists>g. row_id row = (Inr g :: 'b exn + string) \<and> plain_component g"
    and others: "neighbours_law L S rows_of path_of name" "no_writer_between L ''main'' (clock p + 2)"
    and start: "sound L S rows_of path_of name (remote p)"
    and run: "ingest_batch L S B H conf rows registry bands access writer msg name p = (res :: 'b exn + _, p')"
  shows "sound L S rows_of path_of name (remote p')"
  using laws run
proof (cases rule: ingest_batch_cases)
  case (stopped e)
  with start show ?thesis by (auto simp: let_others_def neighboursD(3) [OF others(1)])
next
  case (published_by hashed b b' t p1)
  note init = tx_init_state [OF published_by(10)]
  have rem: "remote (batch_tx b) = remote (let_others L p)"
    using init session_work_fields(1) [OF published_by(9)] by simp
  then have now: "sound L S rows_of path_of name (remote (batch_tx b))"
    using neighboursD(3) [OF others(1) start] by (simp add: let_others_def)
  then have later: "sound L S rows_of path_of name (remote (let_others L (batch_tx b)))"
    using neighboursD(3) [OF others(1)] by (simp add: let_others_def)
  have hashed_ids: "\<forall>row \<in> set (table_rows hashed). \<exists>r. row_id row = (Inr r :: 'b exn + string) \<and> plain_component r"
    using with_stac_hash_ids [OF published_by(1)] ids by (fastforce simp: row_id_Inr)
  have linked: "linked S (session t) b"
    by (rule ingest_rows_linked [OF arrays(1) laws(2) arrays(2) published_by(2) hashed_ids linked_start])
  have law: "session_law L" using laws(1) by (simp add: world_laws_def)
  have sync: "synced L (batch_tx b)"
    using session_work_synced(1) [OF published_by(9)] tx_init_synced(1) [OF law published_by(10)] by blast
  have opened: "writable_session L (remote t) ''main'' = Inr (session t)" using init(2) by simp
  have commit: "sound L S rows_of path_of name (remote u)"
    if "table_from_pylist B (kept b) schema = Inr d" and "commit L (committing L B name d (batch_tx b)) = (c, u)"
    for schema d c u
  proof -
    let ?tx = "committing L B name d (batch_tx b)"
    note ready = committing_ready [OF laws(1) published_by(10,9), of B name d]
    have "carries L S (named_granules b) ?tx"
      by (rule batch_carries [OF arrays(3) others(1) opened published_by(9) linked sync])
    moreover have "adds_only dat sat path_of name (named_granules b) (intents ?tx)"
      unfolding ready(5) using arrow_lawD [OF tables(2) that(1)]
      by (intro append_adds_only) (auto simp: named_granules_def)
    moreover have "no_writer_between L (branch ?tx) (clock ?tx)" using others(2) by (simp only: ready)
    ultimately show ?thesis
      using later tables(3) ready(5)
      by (intro commit_sound [OF laws(1) arrays(3) others(1) tables(1) ready(1,2) _ _ _ _ _ that(2)]) simp_all
  qed
  from published_by(3) show ?thesis
  proof (cases rule: publish_batch_cases)
    case empty
    with now published_by(5) show ?thesis by (simp add: discard_def)
  next
    case (unread e)
    with later published_by(5) show ?thesis by simp
  next
    case (raised e d t')
    with commit [OF raised(4,2)] published_by(5) show ?thesis by (simp add: discard_def)
  next
    case (returned i d m t')
    with commit [OF returned(2,3)] published_by(5) show ?thesis by simp
  qed
qed

text \<open>
  C2. No dangling row. Let every row of the table, in every snapshot, that names an array path name
  a granule that this snapshot holds; let the ids of the batch be one path component each, let the
  other writers keep the promise too (\<open>neighbours_law\<close>), and let none of them land inside a recovery,
  between its read of the tip and its rebase (\<open>no_writer_between\<close>: there a rival can be overwritten,
  see \<open>recovery_race_loses_update\<close>). Then after any call of \<open>ingest_batch\<close>, whether it returns or raises,
  after granules that failed and conflicts that were recovered from, that is still so: the rows of a
  batch and the arrays they name are published together or not at all, and no published granule
  disappears.
\<close>

theorem ingest_batch_paired:
  fixes L :: "('s, 'f :: zero, 'r, 'm, 'b, 'd, 'o, 'z) iceberg_lib_scheme"
  assumes laws: "world_laws L" "writer_law L S (\<lambda>row. writer row registry bands access)" "store_session_law L S"
    and arrays: "presence_law S" "link_law S (\<lambda>row. writer row registry bands access)" "nodes_law L S"
    and tables: "rows_law L rows_of dat sat" "arrow_law B dat path_of" "plain_name L name"
    and ids: "\<And>row. row \<in> set (table_rows rows) \<Longrightarrow> \<exists>g. row_id row = (Inr g :: 'b exn + string) \<and> plain_component g"
    and others: "neighbours_law L S rows_of path_of name" "no_writer_between L ''main'' (clock p + 2)"
    and start: "sound L S rows_of path_of name (remote p)"
    and run: "ingest_batch L S B H conf rows registry bands access writer msg name p = (res :: 'b exn + _, p')"
  shows "sound L S rows_of path_of name (remote p')"
  by (rule ingest_batch_sound [OF laws arrays tables ids others start run])

end
