(* ===== verification/Source.thy ===== *)
theory Source
  imports Arrow
begin

text \<open>
  \<open>src/icechest/demo/source.py\<close>: selecting granule records from the archive. PyIceberg's
  expression classes, the static table and its scan are parameters (\<open>archive_lib\<close>); \<open>'b\<close> is a
  \<open>BooleanExpression\<close>, \<open>'t\<close> a \<open>StaticTable\<close>. \<open>scan_law\<close> is what PyIceberg documents of them:
  what each expression means for a row, and that a scan returns at most \<open>limit\<close> rows of the table,
  all satisfying the filter.
\<close>

subsection \<open>The libraries\<close>

datatype 'f literal = LStr string | LNum 'f

record ('f, 'b, 't) archive_lib =
  And_expr :: "'b \<Rightarrow> 'b \<Rightarrow> 'b"
  GreaterThanOrEqual :: "string \<Rightarrow> 'f literal \<Rightarrow> 'b"
  LessThan :: "string \<Rightarrow> 'f literal \<Rightarrow> 'b"
  LessThanOrEqual :: "string \<Rightarrow> 'f literal \<Rightarrow> 'b"
  NotNull :: "string \<Rightarrow> 'b"
  StartsWith :: "string \<Rightarrow> string \<Rightarrow> 'b"
  static_table :: "string \<Rightarrow> (string, string) dict \<Rightarrow> string + 't"
  scan :: "'t \<Rightarrow> 'b \<Rightarrow> int \<Rightarrow> string + 'f arrow_table"
  table_content :: "'t \<Rightarrow> 'f row list"
  expr_holds :: "'b \<Rightarrow> 'f row \<Rightarrow> bool"
  at_least :: "'f row \<Rightarrow> string \<Rightarrow> 'f literal \<Rightarrow> bool"
  less_than :: "'f row \<Rightarrow> string \<Rightarrow> 'f literal \<Rightarrow> bool"
  at_most :: "'f row \<Rightarrow> string \<Rightarrow> 'f literal \<Rightarrow> bool"

definition expr_law :: "('f, 'b, 't, 'z) archive_lib_scheme \<Rightarrow> bool" where
  "expr_law A \<longleftrightarrow>
     (\<forall>p q row. expr_holds A (And_expr A p q) row \<longleftrightarrow> expr_holds A p row \<and> expr_holds A q row)
     \<and> (\<forall>c v row. expr_holds A (GreaterThanOrEqual A c v) row \<longleftrightarrow> at_least A row c v)
     \<and> (\<forall>c v row. expr_holds A (LessThan A c v) row \<longleftrightarrow> less_than A row c v)
     \<and> (\<forall>c v row. expr_holds A (LessThanOrEqual A c v) row \<longleftrightarrow> at_most A row c v)
     \<and> (\<forall>c row. expr_holds A (NotNull A c) row \<longleftrightarrow> cell row c \<noteq> JNull)
     \<and> (\<forall>c s row. expr_holds A (StartsWith A c s) row \<longleftrightarrow>
          (\<exists>v. cell row c = JStr v \<and> prefix s v))"

definition scan_law :: "('f, 'b, 't, 'z) archive_lib_scheme \<Rightarrow> bool" where
  "scan_law A \<longleftrightarrow>
     (\<forall>t p n rows. scan A t p n = Inr rows \<longrightarrow>
        set (table_rows rows) \<subseteq> {row \<in> set (table_content A t). expr_holds A p row}
        \<and> int (num_rows rows) \<le> max 0 n)"

subsection \<open>The archive\<close>

definition ARCHIVE_ROOT :: string where
  "ARCHIVE_ROOT = ''s3://nasa-maap-data-store/file-staging/nasa-map/hls-stac-geoparquet-archive''"

definition DATETIME_FLOOR :: string where
  "DATETIME_FLOOR = ''2026-01-01T00:00:00+00:00''"

definition archive_metadata_url :: "string \<Rightarrow> string \<Rightarrow> string" where
  "archive_metadata_url collection version =
     ARCHIVE_ROOT @ ''/'' @ version @ ''/'' @ collection @ ''/iceberg/metadata/latest.metadata.json''"

definition open_archive ::
    "('f, 'b, 't, 'z) archive_lib_scheme \<Rightarrow> string \<Rightarrow> string \<Rightarrow> string \<Rightarrow> 'e exn + 't" where
  "open_archive A collection version region =
     lib_result (static_table A (archive_metadata_url collection version) [(''s3.region'', region)])"

subsection \<open>The filter\<close>

definition granule_filter ::
    "('f, 'b, 't, 'z) archive_lib_scheme \<Rightarrow> ('f \<times> 'f \<times> 'f \<times> 'f) option \<Rightarrow> string option
     \<Rightarrow> (string \<times> string) option \<Rightarrow> bool \<Rightarrow> string \<Rightarrow> 'b" where
  "granule_filter A bbox tile datetime require_proj_transform datetime_floor =
     (let first = GreaterThanOrEqual A ''datetime'' (LStr datetime_floor);
          terms = (if require_proj_transform then [NotNull A ''proj:transform''] else [])
            @ (case datetime of None \<Rightarrow> [] | Some (start, end) \<Rightarrow>
                 [GreaterThanOrEqual A ''datetime'' (LStr start), LessThan A ''datetime'' (LStr end)])
            @ (case bbox of None \<Rightarrow> [] | Some (west, south, east, north) \<Rightarrow>
                 [GreaterThanOrEqual A ''bbox.xmax'' (LNum west), LessThanOrEqual A ''bbox.xmin'' (LNum east),
                  GreaterThanOrEqual A ''bbox.ymax'' (LNum south), LessThanOrEqual A ''bbox.ymin'' (LNum north)])
            @ (case tile of None \<Rightarrow> [] | Some t \<Rightarrow> [StartsWith A ''id'' (''HLS.L30.'' @ t @ ''.'')])
      in foldl (And_expr A) first terms)"

definition drop_null_proj_transform :: "'f arrow_table \<Rightarrow> 'e exn + 'f arrow_table" where
  "drop_null_proj_transform rows =
     (if ''proj:transform'' \<in> set (column_names rows)
      then Inr (filter_rows (\<lambda>row. cell row ''proj:transform'' \<noteq> JNull) rows)
      else Inl (KeyError ''proj:transform'' []))"

definition select_granules ::
    "('f, 'b, 't, 'z) archive_lib_scheme \<Rightarrow> 't \<Rightarrow> ('f \<times> 'f \<times> 'f \<times> 'f) option \<Rightarrow> string option
     \<Rightarrow> (string \<times> string) option \<Rightarrow> int \<Rightarrow> string \<Rightarrow> 'e exn + 'f arrow_table" where
  "select_granules A table bbox tile datetime limit datetime_floor =
     rbind (lib_result (scan A table (granule_filter A bbox tile datetime False datetime_floor) limit))
       drop_null_proj_transform"

subsection \<open>What the filter means\<close>

text \<open>The selection criterion, as the arguments of \<open>select_granules\<close> state it.\<close>

definition selected ::
    "('f, 'b, 't, 'z) archive_lib_scheme \<Rightarrow> ('f \<times> 'f \<times> 'f \<times> 'f) option \<Rightarrow> string option
     \<Rightarrow> (string \<times> string) option \<Rightarrow> string \<Rightarrow> 'f row \<Rightarrow> bool" where
  "selected A bbox tile datetime floor row \<longleftrightarrow>
     at_least A row ''datetime'' (LStr floor)
     \<and> (case datetime of None \<Rightarrow> True | Some (start, end) \<Rightarrow>
          at_least A row ''datetime'' (LStr start) \<and> less_than A row ''datetime'' (LStr end))
     \<and> (case bbox of None \<Rightarrow> True | Some (west, south, east, north) \<Rightarrow>
          at_least A row ''bbox.xmax'' (LNum west) \<and> at_most A row ''bbox.xmin'' (LNum east)
          \<and> at_least A row ''bbox.ymax'' (LNum south) \<and> at_most A row ''bbox.ymin'' (LNum north))
     \<and> (case tile of None \<Rightarrow> True | Some t \<Rightarrow>
          (\<exists>v. cell row ''id'' = JStr v \<and> prefix (''HLS.L30.'' @ t @ ''.'') v))"

lemma fold_And:
  assumes "expr_law A"
  shows "expr_holds A (foldl (And_expr A) p ps) row \<longleftrightarrow> expr_holds A p row \<and> (\<forall>q \<in> set ps. expr_holds A q row)"
  using assms by (induction ps arbitrary: p) (auto simp: expr_law_def)

lemma granule_filter_holds:
  assumes "expr_law A"
  shows "expr_holds A (granule_filter A bbox tile datetime req floor) row \<longleftrightarrow>
    selected A bbox tile datetime floor row \<and> (req \<longrightarrow> cell row ''proj:transform'' \<noteq> JNull)"
  using assms
  by (cases bbox; cases tile; cases datetime)
    (auto simp: granule_filter_def Let_def fold_And selected_def expr_law_def)

lemma select_granules_rows:
  assumes "expr_law A" and "scan_law A"
    and "select_granules A t bbox tile datetime limit floor = (Inr rows :: 'e exn + 'f arrow_table)"
  shows "int (num_rows rows) \<le> max 0 limit
    \<and> set (table_rows rows) \<subseteq> {row \<in> set (table_content A t).
        selected A bbox tile datetime floor row
        \<and> expr_holds A (granule_filter A bbox tile datetime True floor) row}"
proof -
  obtain scanned where scanned: "scan A t (granule_filter A bbox tile datetime False floor) limit = Inr scanned"
    and rows: "drop_null_proj_transform scanned = (Inr rows :: 'e exn + _)"
    using assms(3) by (auto simp: select_granules_def rbind_Inr_iff dest!: lib_result_InrD)
  have law: "set (table_rows scanned) \<subseteq> {row \<in> set (table_content A t).
      expr_holds A (granule_filter A bbox tile datetime False floor) row}"
    "int (num_rows scanned) \<le> max 0 limit"
    using assms(2) scanned unfolding scan_law_def by blast+
  have kept: "table_rows rows = filter (\<lambda>row. cell row ''proj:transform'' \<noteq> JNull) (table_rows scanned)"
    using rows by (auto simp: drop_null_proj_transform_def filter_rows_def split: if_splits)
  have "num_rows rows \<le> num_rows scanned" by (simp add: num_rows_def kept)
  with law kept show ?thesis by (auto simp: granule_filter_holds [OF assms(1)])
qed

text \<open>
  C37. What \<open>select_granules\<close> returns: at most \<open>limit\<close> rows, each a row of the archive past the
  date floor (whatever range the caller gives), inside the range, the box and the tile asked for,
  and with a \<open>proj:transform\<close>, exactly as if that condition had been part of the pushed-down filter.
\<close>

theorem select_granules_correct:
  assumes "expr_law A" and "scan_law A"
    and "select_granules A t bbox tile datetime limit floor = (Inr rows :: 'e exn + 'f arrow_table)"
  shows "int (num_rows rows) \<le> max 0 limit
    \<and> set (table_rows rows) \<subseteq> {row \<in> set (table_content A t).
        selected A bbox tile datetime floor row
        \<and> expr_holds A (granule_filter A bbox tile datetime True floor) row}"
  by (rule select_granules_rows [OF assms])

end
