(* ===== verification/Demo_Witnesses.thy ===== *)
theory Demo_Witnesses
  imports Witnesses Paired Store Source
begin

text \<open>
  The theorems about the demo applied to concrete inputs: one granule record, small instances of
  the libraries (a Zarr store that is a function from paths to nodes, a scan that filters a list,
  a hasher that gives one constant code), and the reference parameters for the transactions.
\<close>

subsection \<open>A granule record\<close>

definition b04_key :: "string \<Rightarrow> string" where
  "b04_key gid = gid @ ''/B04.tif''"

definition b04_href :: "string \<Rightarrow> string" where
  "b04_href gid = https_url (b04_key gid)"

definition granule :: "string \<Rightarrow> int row" where
  "granule gid =
     [(''id'', JStr gid), (''datetime'', JStr ''2026-02-01''),
      (''bbox'', JObj [(''xmin'', JFloat 2), (''xmax'', JFloat 4), (''ymin'', JFloat 6), (''ymax'', JFloat 8)]),
      (''proj:epsg'', JInt 32610), (''proj:shape'', JList [JInt 4, JInt 3]),
      (''proj:transform'', JList [JInt 30, JInt 0, JInt 0, JInt 0, JInt (- 30), JInt 120]),
      (''assets'', JObj [(''B04'', JObj [(''href'', JStr (b04_href gid))])])]"

definition ints :: "int float_ops" where
  "ints = \<lparr>float_add = (+), float_mul = (*), float_div = (div), float_of_int = id, int_of_float = Inr\<rparr>"

lemma b04_truthy [simp]: "b04_href gid \<noteq> []"
  by (simp add: b04_href_def https_url_def LPDAAC_HTTPS_ASSET_PREFIX_def LPDAAC_HTTPS_PREFIX_def)

lemma granule_assets [simp]:
  "assets_of (granule gid) = Inr [(''B04'', JObj [(''href'', JStr (b04_href gid))])]"
  by (simp add: assets_of_def granule_def)

lemma granule_href [simp]: "band_href [(''B04'', JObj [(''href'', JStr (b04_href gid))])] ''B04'' = Inr (Some (JStr (b04_href gid)))"
  by (simp add: band_href_def)

lemma granule_id [simp]: "row_id (granule gid) = Inr gid"
  by (simp add: row_id_def item_def granule_def)

lemma granule_urls: "asset_urls (granule gid) [''B04''] ''s3''
    = (Inr [(''B04'', LPDAAC_S3_PREFIX @ b04_key gid)] :: 'b exn + (string, string) dict)"
  by (simp add: asset_urls_def ACCESS_MODES_def band_url_def) (simp add: b04_href_def to_s3_url_def)

theorem asset_urls_correct_witness:
  "map_of [(''B04'', LPDAAC_S3_PREFIX @ b04_key ''g'')] ''B04'' = Some (read_url ''s3'' (b04_key ''g''))"
  using asset_urls_correct [OF granule_urls, of "''g''" "''B04''"]
  by (simp add: str_href_def) (simp add: b04_href_def key_of_href_def)

subsection \<open>Headers\<close>

theorem parse_ifds_build_tiff_witness:
  "parse_ifds (build_tiff [(3660, 3660), (1830, 1830)]) = (Some (Inr [(3660, 3660), (1830, 1830)]) :: (unit exn + _) option)"
  by (rule parse_ifds_build_tiff) simp_all

subsection \<open>References and credentials\<close>

lemma container_s3: "virtual_chunk_container ''s3'' None
    = (Inr \<lparr>url_prefix = LPDAAC_S3_PREFIX, container_store = S3Store LPDAAC_REGION,
            container_name = CONTAINER_NAME\<rparr> :: 'b exn + container)"
  by (simp add: virtual_chunk_container_def ACCESS_MODES_def)

lemma vcc_b04: "to_vcc_url (b04_href gid) = (Inr (''vcc://'' @ CONTAINER_NAME @ ''/'' @ b04_key gid) :: 'b exn + string)"
  by (simp add: to_vcc_url_def b04_href_def)

theorem vcc_reference_resolves_witness:
  "\<exists>k. ''vcc://'' @ CONTAINER_NAME @ ''/'' @ b04_key ''g'' = ''vcc://'' @ CONTAINER_NAME @ ''/'' @ k
    \<and> b04_href ''g'' = https_url k \<and> LPDAAC_S3_PREFIX @ k = read_url ''s3'' k"
  using vcc_reference_resolves [OF vcc_b04 container_s3] by simp

definition logged_in :: "nat auth_lib" where
  "logged_in = \<lparr>login_token = (\<lambda>w. (Inr ''tok'', Suc w)),
     get_bucket_credentials = (\<lambda>w p. (Inr \<lparr>access_key_id = ''k'', secret_access_key = ''s'',
        session_token = ''t'', expires_at = ''e''\<rparr>, w))\<rparr>"

definition at_start :: "nat auth" where
  "at_start = \<lparr>auth_world = 0, token_cache = None\<rparr>"

theorem registry_matches_container_witness:
  "map fst (container_credentials ''https'') = [LPDAAC_HTTPS_ASSET_PREFIX]"
proof -
  let ?c = "\<lparr>url_prefix = LPDAAC_HTTPS_ASSET_PREFIX, container_store = HttpStore (bearer ''tok''),
    container_name = CONTAINER_NAME\<rparr>"
  have "virtual_chunk_container ''https'' (Some ''tok'') = (Inr ?c :: unit exn + container)"
    by (simp add: virtual_chunk_container_def ACCESS_MODES_def)
  moreover have "object_store_registry logged_in ''https'' None at_start
      = (Inr [(LPDAAC_HTTPS_ASSET_PREFIX, HttpObjectStore (rstrip_slash LPDAAC_HTTPS_ASSET_PREFIX) (bearer ''tok''))]
          :: unit exn + registry, \<lparr>auth_world = 1, token_cache = Some ''tok''\<rparr>)"
    by (simp add: object_store_registry_def earthdata_token_def logged_in_def at_start_def)
  ultimately show ?thesis using registry_matches_container by fastforce
qed

subsection \<open>The granules table\<close>

definition plain_schemas :: "(string nested_field list, string) schema_lib" where
  "plain_schemas = \<lparr>mk_schema = id, schema_fields = id,
     highest_field_id = (\<lambda>fs. foldr (\<lambda>f. max (field_id f)) fs 0),
     mk_sort_order = (\<lambda>fs. []), mk_partition_spec = (\<lambda>fs. [])\<rparr>"

definition archive_schema :: "string nested_field list" where
  "archive_schema =
     [\<lparr>field_id = 1, field_name = ''id'', field_type_of = StringType, field_required = True\<rparr>,
      \<lparr>field_id = 2, field_name = ''bbox'', field_type_of = OtherType ''struct'', field_required = False\<rparr>]"

lemma foldr_max_bound: "x \<in> set xs \<Longrightarrow> (g x :: int) \<le> foldr (\<lambda>y. max (g y)) xs a"
  by (induction xs) auto

lemma plain_schema_law: "schema_law plain_schemas"
  by (simp add: schema_law_def plain_schemas_def foldr_max_bound)

definition granules_fields :: "string nested_field list" where
  "granules_fields = projr (granules_schema plain_schemas archive_schema :: unit exn + _)"

lemma granules_run: "granules_schema plain_schemas archive_schema = (Inr granules_fields :: unit exn + _)"
  by (simp add: granules_fields_def granules_schema_def plain_schemas_def archive_schema_def ARRAY_PATH_FIELD_ID_def)

theorem granules_schema_fields_witness:
  "distinct (map field_id (schema_fields plain_schemas granules_fields))"
  using granules_schema_fields [OF plain_schema_law granules_run]
  by (simp add: plain_schemas_def archive_schema_def)

subsection \<open>Hashes\<close>

definition constant_hash :: "int stac_hash_lib" where
  "constant_hash = float_ops.extend ints
     \<lparr>new_hasher = (\<lambda>from until ts xs ys. Inr (map (\<lambda>_. 2 ^ 62 + 5) ts))\<rparr>"

lemma constant_hash_law: "hasher_law constant_hash"
  by (simp add: hasher_law_def hasher_def constant_hash_def float_ops.defs)

definition granules :: "string list \<Rightarrow> int arrow_table" where
  "granules gids =
     \<lparr>column_names = [''id'', ''datetime'', ''bbox'', ''proj:epsg'', ''proj:shape'', ''proj:transform'', ''assets''],
      table_rows = map granule gids\<rparr>"

definition hashed :: "int arrow_table" where
  "hashed = projr (with_stac_hash constant_hash (granules [''g1'']) PARTITION_BITS :: unit exn + int arrow_table)"

lemma hashed_run: "with_stac_hash constant_hash (granules [''g1'']) PARTITION_BITS = (Inr hashed :: unit exn + int arrow_table)"
proof -
  have "\<not> isl (with_stac_hash constant_hash (granules [''g1'']) PARTITION_BITS :: unit exn + int arrow_table)"
    by code_simp
  then show ?thesis by (simp add: hashed_def)
qed

theorem with_stac_hash_columns_witness:
  "list_all2 (\<lambda>row row'. \<exists>h. 0 \<le> h \<and> h < 2 ^ 63
      \<and> 0 \<le> block_of (nat PARTITION_BITS) h \<and> block_of (nat PARTITION_BITS) h < 2 ^ nat PARTITION_BITS
      \<and> map_of row' = (map_of row)(HASH_COLUMN \<mapsto> JInt h, HASH_BLOCK_COLUMN \<mapsto> JInt (block_of (nat PARTITION_BITS) h)))
    (table_rows (granules [''g1''])) (table_rows hashed)"
  by (rule with_stac_hash_columns [OF hashed_run constant_hash_law])

subsection \<open>The archive\<close>

text \<open>Expressions as predicates on rows; a scan takes the first rows that satisfy one.\<close>

definition row_less :: "int row \<Rightarrow> string \<Rightarrow> int literal \<Rightarrow> bool" where
  "row_less row c v =
     (case (v, cell row c) of
        (LStr s, JStr t) \<Rightarrow> ord_class.lexordp (map (of_char :: char \<Rightarrow> nat) t) (map of_char s)
      | (LNum x, JInt i) \<Rightarrow> i < x
      | _ \<Rightarrow> False)"

definition row_at_least :: "int row \<Rightarrow> string \<Rightarrow> int literal \<Rightarrow> bool" where
  "row_at_least row c v = (cell row c \<noteq> JNull \<and> \<not> row_less row c v)"

definition row_at_most :: "int row \<Rightarrow> string \<Rightarrow> int literal \<Rightarrow> bool" where
  "row_at_most row c v = (row_less row c v
     \<or> (case (v, cell row c) of (LStr s, JStr t) \<Rightarrow> s = t | (LNum x, JInt i) \<Rightarrow> i = x | _ \<Rightarrow> False))"

definition row_starts :: "string \<Rightarrow> string \<Rightarrow> int row \<Rightarrow> bool" where
  "row_starts c s row = (case cell row c of JStr v \<Rightarrow> prefix s v | _ \<Rightarrow> False)"

definition listed :: "(int, int row \<Rightarrow> bool, int row list) archive_lib" where
  "listed =
     \<lparr>And_expr = (\<lambda>p q row. p row \<and> q row),
      GreaterThanOrEqual = (\<lambda>c v row. row_at_least row c v), LessThan = (\<lambda>c v row. row_less row c v),
      LessThanOrEqual = (\<lambda>c v row. row_at_most row c v), NotNull = (\<lambda>c row. cell row c \<noteq> JNull),
      StartsWith = row_starts, static_table = (\<lambda>url props. Inl ''unreachable''),
      scan = (\<lambda>t p n. Inr \<lparr>column_names = [''id'', ''proj:transform''], table_rows = take (nat n) (filter p t)\<rparr>),
      table_content = id, expr_holds = (\<lambda>p. p), at_least = row_at_least, less_than = row_less,
      at_most = row_at_most\<rparr>"

lemma listed_laws: "expr_law listed" "scan_law listed"
  by (auto simp: expr_law_def scan_law_def listed_def num_rows_def row_starts_def dest!: in_set_takeD split: json.split)

definition archived :: "int row list" where
  "archived = map granule [''HLS.L30.T10.a'', ''HLS.L30.T11.b'', ''HLS.L30.T10.c'']"

definition chosen :: "int arrow_table" where
  "chosen = projr (select_granules listed archived None (Some ''T10'') None 1 DATETIME_FLOOR :: unit exn + int arrow_table)"

theorem select_granules_correct_witness:
  "int (num_rows chosen) \<le> 1"
proof -
  have "select_granules listed archived None (Some ''T10'') None 1 DATETIME_FLOOR = (Inr chosen :: unit exn + int arrow_table)"
    by (simp add: chosen_def select_granules_def drop_null_proj_transform_def listed_def)
  from select_granules_correct [OF listed_laws this] show ?thesis by simp
qed

subsection \<open>A Zarr store\<close>

text \<open>
  The nodes of a session's store, kept beside its root attributes: an object for a group, a string
  (the chunks' location) for an array. Writing creates the missing groups on the way.
\<close>

definition ref_node :: "ref_session \<Rightarrow> string \<Rightarrow> int znode option" where
  "ref_node s p =
     (if p = [] then Some (Group [])
      else case map_of (ref_attrs s) p of
             Some (JObj a) \<Rightarrow> Some (Group a) | Some (JStr c) \<Rightarrow> Some (Array c) | _ \<Rightarrow> None)"

definition set_node :: "string \<Rightarrow> int json \<Rightarrow> ref_session \<Rightarrow> ref_session" where
  "set_node p v s = s\<lparr>ref_attrs := dict_set p v (ref_attrs s), ref_changed := True\<rparr>"

definition path_prefixes :: "string \<Rightarrow> string list" where
  "path_prefixes p = filter (\<lambda>q. under q p) (map (\<lambda>i. take i p) [1..<Suc (length p)])"

definition require_group :: "string \<Rightarrow> ref_session \<Rightarrow> ref_session" where
  "require_group q s = (if ref_node s q = None then set_node q (JObj []) s else s)"

definition require_groups :: "string \<Rightarrow> ref_session \<Rightarrow> ref_session" where
  "require_groups p = fold require_group (path_prefixes p)"

type_synonym ref_data = "string list \<times> string"

definition write_arrays :: "string \<Rightarrow> ref_data \<Rightarrow> ref_session \<Rightarrow> ref_session" where
  "write_arrays p d = fold (\<lambda>v. set_node (p @ ''/'' @ v) (JStr (snd d))) (fst d)"

definition ref_store :: "(ref_session, ref_data, unit, int) store_lib" where
  "ref_store =
     \<lparr>open_virtual_datatree = (\<lambda>url g n mode. Inl ''unreachable''),
      resolve_url = (\<lambda>g url. Inr (g, url)),
      get_range = (\<lambda>g path i n. Inl ''unreachable''),
      data_vars = fst,
      dim_sizes = (\<lambda>d. [(''y'', 4), (''x'', 3)]),
      rename_variable = (\<lambda>d v w. Inr (map (\<lambda>x. if x = v then w else x) (fst d), snd d)),
      rename_paths = (\<lambda>d c. (fst d, c)),
      to_icechunk = (\<lambda>s p d. (Inr (), write_arrays p d (require_groups p s))),
      open_group_at = (\<lambda>s p. case ref_node s p of
           Some (Array c) \<Rightarrow> (Inl ''contains an array'', s) | _ \<Rightarrow> (Inr (), require_groups p s)),
      update_attrs_at = (\<lambda>s p attrs. case (p, ref_node s p) of
           (_ # _, Some (Group a)) \<Rightarrow> (Inr (), set_node p (JObj (dict_merge a attrs)) s)
         | _ \<Rightarrow> (Inl ''no group'', s)),
      zarr_open_r = (\<lambda>s g. if ref_node s (''/'' @ g) = None then NodeNotFound else Opened),
      delete_dir = (\<lambda>s g. (Inr (), s\<lparr>ref_attrs := filter (\<lambda>(k, v). \<not> under (''/'' @ g) k) (ref_attrs s),
           ref_changed := True\<rparr>)),
      node = ref_node,
      chunk_path = snd\<rparr>"

lemma ref_node_set [simp]:
  "p \<noteq> [] \<Longrightarrow> ref_node (set_node p (JObj a) s) = (ref_node s)(p \<mapsto> Group a)"
  "p \<noteq> [] \<Longrightarrow> ref_node (set_node p (JStr c) s) = (ref_node s)(p \<mapsto> Array c)"
  by (rule ext, simp add: ref_node_def set_node_def update_conv')+

lemma ref_node_root [simp]: "ref_node s [] = Some (Group [])"
  by (simp add: ref_node_def)

lemma ref_node_require:
  "ref_node (require_group q s) = (if ref_node s q = None then (ref_node s)(q \<mapsto> Group []) else ref_node s)"
  by (cases "q = []") (simp_all add: require_group_def)

lemma require_groups_nodes:
  "ref_node (fold require_group qs s) q
     = (if q \<in> set qs \<and> ref_node s q = None then Some (Group []) else ref_node s q)"
  by (induction qs arbitrary: s) (auto simp: ref_node_require)

lemma ref_node_groups:
  "ref_node (require_groups p s) q
     = (if q \<in> set (path_prefixes p) \<and> ref_node s q = None then Some (Group []) else ref_node s q)"
  by (simp add: require_groups_def require_groups_nodes)

lemma path_prefixes_under: "q \<in> set (path_prefixes p) \<Longrightarrow> under q p"
  by (auto simp: path_prefixes_def)

lemma path_prefixes_self: "p \<noteq> [] \<Longrightarrow> p \<in> set (path_prefixes p)"
  by (cases p) (auto simp: path_prefixes_def image_iff intro!: bexI [of _ "length p"])

lemma ref_node_arrays:
  "ref_node (fold (\<lambda>v. set_node (p @ CHR ''/'' # v) (JStr c)) vs s) q
     = (if q \<in> (\<lambda>v. p @ CHR ''/'' # v) ` set vs then Some (Array c) else ref_node s q)"
  by (induction vs arbitrary: s) auto

lemma under_antisym: "under p q \<Longrightarrow> under q p \<Longrightarrow> p = q"
  by (auto simp: under_def prefix_def)

lemma under_slash: "under p (p @ CHR ''/'' # v)"
  using under_append [of p v] by simp

lemma ref_icechunk_law:
  assumes "to_icechunk ref_store s p d = (r, s')"
  shows "touches_only ref_store p s s' \<and> (r = Inr () \<longrightarrow> (\<forall>v \<in> set (data_vars ref_store d).
    node ref_store s' (p @ ''/'' @ v) = Some (Array (chunk_path ref_store d))))"
proof -
  have "s' = write_arrays p d (require_groups p s)" using assms by (simp add: ref_store_def)
  then show ?thesis
    by (auto simp: touches_only_def ref_store_def write_arrays_def under_slash ref_node_arrays ref_node_groups touched_def
        dest: path_prefixes_under)
qed

lemma ref_group_law:
  assumes "open_group_at ref_store s p = (r, s')"
  shows "touches_only ref_store p s s' \<and> (r = Inr () \<longrightarrow> (\<exists>a. node ref_store s' p = Some (Group a))
    \<and> (\<forall>q. q \<noteq> p \<longrightarrow> under p q \<longrightarrow> node ref_store s' q = node ref_store s q))"
proof (cases "\<exists>c. ref_node s p = Some (Array c)")
  case True
  with assms show ?thesis by (auto simp: touches_only_def ref_store_def)
next
  case False
  then have r: "r = Inr ()" and s': "s' = require_groups p s"
    using assms by (auto simp: ref_store_def split: option.splits znode.splits)
  have "\<exists>a. ref_node s' p = Some (Group a)"
  proof (cases "ref_node s p")
    case None
    then have "p \<noteq> []" by auto
    with None show ?thesis by (simp add: s' ref_node_groups path_prefixes_self)
  next
    case (Some n)
    with False show ?thesis by (cases n) (simp_all add: s' ref_node_groups)
  qed
  moreover have "touches_only ref_store p s s'"
    by (auto simp: touches_only_def touched_def ref_store_def s' ref_node_groups dest: path_prefixes_under)
  moreover have "ref_node s' q = ref_node s q" if "q \<noteq> p" "under p q" for q
    using that path_prefixes_under [of q p] under_antisym [of p q] by (auto simp: s' ref_node_groups)
  ultimately show ?thesis using r by (simp add: ref_store_def)
qed

lemma ref_update_law:
  assumes "update_attrs_at ref_store s p attrs = (r, s')"
  shows "touches_only ref_store p s s' \<and> (r = Inr () \<longrightarrow> (\<forall>a. node ref_store s p = Some (Group a) \<longrightarrow>
    node ref_store s' = (node ref_store s)(p \<mapsto> Group (dict_merge a attrs))))"
  using assms
  by (auto simp: touches_only_def touched_def ref_store_def split: list.splits option.splits znode.splits)

lemma ref_write_law: "write_law ref_store"
  unfolding write_law_def using ref_icechunk_law ref_group_law ref_update_law by blast

lemma ref_dataset_law: "dataset_law ref_store"
  by (auto simp: dataset_law_def ref_store_def)

lemma map_of_kept: "map_of (filter (\<lambda>(k, v). P k) d) q = (if P q then map_of d q else None)"
  by (induction d) auto

lemma ref_presence_law: "presence_law ref_store"
  by (auto simp: presence_law_def ref_store_def ref_node_def map_of_kept)

subsection \<open>Writing a granule\<close>

text \<open>Two levels for every file; the second level of the granule \<open>bad\<close> has two variables.\<close>

definition ref_opener :: "string \<Rightarrow> unit \<Rightarrow> (string list) exn + (string, ref_data) dict" where
  "ref_opener url registry =
     Inr [(''0'', ([''data''], url)),
          (''1'', (if url = LPDAAC_S3_PREFIX @ b04_key ''bad'' then [''a'', ''b''] else [''data''], url))]"

lemma two_levels: "map dec [0..<2] = [''0'', ''1'']" "undec ''0'' = Some 0" "undec ''1'' = Some 1"
  by code_simp+

lemma ref_pyramid_law: "pyramid_law ref_opener"
  using two_levels(1) by (auto simp: pyramid_law_def ref_opener_def numeral_2_eq_2)

definition g1_arrays :: "ref_data granule_arrays" where
  "g1_arrays = \<lparr>datasets = [(''B04'',
       [(0, ([''data''], LPDAAC_S3_PREFIX @ b04_key ''g1'')), (1, ([''data''], LPDAAC_S3_PREFIX @ b04_key ''g1''))])],
     band_levels = [(''B04'', 2)], grid_shape = (4, 3)\<rparr>"

lemma g1_virtual: "virtual_granule ints ref_store (granule ''g1'') () [''B04''] ''s3'' ref_opener = Inr g1_arrays"
  unfolding virtual_granule_def granule_urls
  by (simp add: ref_opener_def b04_key_def two_levels level0_shape_def ref_store_def expected_shape_def
      item_def granule_def py_index_def py_int_def g1_arrays_def)

lemma g1_reference: "band_reference (granule g) ''B04''
    = (Inr (''vcc://'' @ CONTAINER_NAME @ ''/'' @ b04_key g) :: 'b exn + string)"
  by (simp add: band_reference_def item_def py_item_def granule_def vcc_b04)

lemma g1_band_attrs: "\<exists>attrs. band_attrs ints (granule g) 2 ''B04'' = (Inr attrs :: 'b exn + _)"
  by (simp add: band_attrs_def item_def granule_def granule_attrs_def py_index_def py_prefix_def
      py_int_def py_float_def list_index_def)

definition no_array :: "ref_session \<Rightarrow> string \<Rightarrow> bool" where
  "no_array s q \<longleftrightarrow> (\<nexists>c. ref_node s q = Some (Array c))"

lemma ref_store_fields:
  "data_vars ref_store d = fst d" "rename_paths ref_store d c = (fst d, c)" "node ref_store = ref_node"
  "rename_variable ref_store d v w = Inr (map (\<lambda>x. if x = v then w else x) (fst d), snd d)"
  "to_icechunk ref_store s p d = (Inr (), write_arrays p d (require_groups p s))"
  by (simp_all add: ref_store_def)

lemma under_length: "under q p \<Longrightarrow> length q \<le> length p"
  by (auto simp: under_def prefix_def)

lemma write_level_goes:
  assumes "no_array s (band_group g b)"
  shows "\<exists>s'. write_level ref_store g b ref (l, ([v], c)) s = (Inr () :: 'b exn + unit, s') \<and> no_array s' (band_group g b)"
proof -
  let ?p = "level_group g b l" and ?q = "band_group g b"
  have q: "under ?q ?p" by (rule level_group_under)
  have "length ?q \<le> length ?p" by (rule under_length [OF q(1)])
  then have "?q \<noteq> ?p @ CHR ''/'' # b" by (metis length_append length_Cons add_Suc_right not_less_eq_eq le_add1)
  moreover have "no_array (require_groups ?p s) ?q"
    using assms unfolding no_array_def ref_node_groups by simp
  ultimately have "no_array (set_node (?p @ CHR ''/'' # b) (JStr ref) (require_groups ?p s)) ?q"
    unfolding no_array_def by simp
  then show ?thesis
    by (simp add: write_level_def store_call_def ref_store_fields write_arrays_def)
qed

lemma write_levels_go:
  "no_array s (band_group g b) \<Longrightarrow> \<exists>s'. for_each (write_level ref_store g b ref) (map (\<lambda>(l, c). (l, ([v], c))) ls) s
     = (Inr () :: 'b exn + unit, s') \<and> no_array s' (band_group g b)"
proof (induction ls arbitrary: s)
  case (Cons x ls)
  obtain l c where x: "x = (l, c)" by fastforce
  from write_level_goes [OF Cons.prems, of ref l v c] obtain s1 where
    "write_level ref_store g b ref (l, ([v], c)) s = (Inr () :: 'b exn + unit, s1)" "no_array s1 (band_group g b)"
    by blast
  with Cons.IH [of s1] show ?case by (auto simp: x)
qed simp

lemma open_group_goes: "no_array s p \<Longrightarrow> \<exists>s' a. open_group_at ref_store s p = (Inr (), s') \<and> ref_node s' p = Some (Group a)"
proof -
  assume "no_array s p"
  then have run: "open_group_at ref_store s p = (Inr (), require_groups p s)"
    by (auto simp: no_array_def ref_store_def split: option.split znode.split)
  from ref_group_law [OF this] show ?thesis by (auto simp: run ref_store_fields)
qed

lemma update_attrs_goes:
  "p \<noteq> [] \<Longrightarrow> ref_node s p = Some (Group a) \<Longrightarrow> \<exists>s'. update_attrs_at ref_store s p attrs = (Inr (), s')"
  by (cases p) (simp_all add: ref_store_def)

lemma g1_written:
  assumes "no_array s (band_group ''g1'' ''B04'')"
  obtains s' where "write_granule_to_store ints ref_store (granule ''g1'') () [''B04''] ''s3'' ref_opener s
    = (Inr ''/g1'', s')"
proof -
  let ?q = "band_group ''g1'' ''B04''" and ?u = "LPDAAC_S3_PREFIX @ b04_key ''g1''"
    and ?ref = "''vcc://'' @ CONTAINER_NAME @ ''/'' @ b04_key ''g1''"
  obtain attrs where attrs: "band_attrs ints (granule ''g1'') 2 ''B04'' = (Inr attrs :: (string list) exn + _)"
    using g1_band_attrs by blast
  from write_levels_go [OF assms, of ?ref "''data''" "[(0, ?u), (1, ?u)]"]
  obtain s2 where levels: "for_each (write_level ref_store ''g1'' ''B04'' ?ref) [(0, ([''data''], ?u)), (1, ([''data''], ?u))] s
      = (Inr () :: (string list) exn + unit, s2)" and "no_array s2 ?q" by auto
  then obtain s3 a where opened: "open_group_at ref_store s2 ?q = (Inr (), s3)" and "ref_node s3 ?q = Some (Group a)"
    using open_group_goes by blast
  moreover have "?q \<noteq> []" by (simp add: band_group_def)
  ultimately obtain s4 where updated: "update_attrs_at ref_store s3 ?q attrs = (Inr (), s4)"
    using update_attrs_goes by blast
  have "sort_key fst [(0 :: nat, ([''data''], ?u)), (1, ([''data''], ?u))] = [(0, ([''data''], ?u)), (1, ([''data''], ?u))]"
    by simp
  then have "write_band ints ref_store (granule ''g1'') ''g1'' [(''B04'', 2)]
      (''B04'', [(0, ([''data''], ?u)), (1, ([''data''], ?u))]) s = (Inr () :: (string list) exn + unit, s4)"
    using levels opened updated
    by (simp only: write_band_def prod.case g1_reference pbind_plift_Inr)
      (simp add: store_call_def attrs)
  then show thesis
    by (intro that [of s4]) (simp add: write_granule_to_store_def g1_virtual g1_arrays_def)
qed

definition empty_store :: ref_session where
  "empty_store = \<lparr>ref_branch = ''main'', ref_base = ''S1'', ref_attrs = [], ref_changed = False\<rparr>"

definition g1_store :: ref_session where
  "g1_store = snd (write_granule_to_store ints ref_store (granule ''g1'') () [''B04''] ''s3'' ref_opener empty_store)"

theorem written_pyramid_resolves_witness:
  "\<exists>attrs. node ref_store g1_store (band_group ''g1'' ''B04'') = Some (Group attrs) \<and> declared_layout attrs \<noteq> []"
proof -
  have "no_array empty_store (band_group ''g1'' ''B04'')"
    by (simp add: no_array_def empty_store_def ref_node_def band_group_def)
  then obtain s' where "write_granule_to_store ints ref_store (granule ''g1'') () [''B04''] ''s3'' ref_opener empty_store
      = (Inr ''/g1'', s')" by (rule g1_written)
  then have run: "write_granule_to_store ints ref_store (granule ''g1'') () [''B04''] ''s3'' ref_opener empty_store
      = (Inr ''/g1'', g1_store)" by (simp add: g1_store_def)
  from written_pyramid_resolves [OF ref_write_law ref_dataset_law ref_pyramid_law _ granule_urls _ run]
  show ?thesis by (auto simp: plain_component_def)
qed

subsection \<open>A batch\<close>

text \<open>
  The store already holds the granule \<open>g0\<close> and the table its row; the writer stages one array per granule and then fails for
  the granule \<open>bad\<close>. The batch names \<open>g1\<close> twice.
\<close>

definition stocked :: ref_remote where
  "stocked = seeded\<lparr>
     ref_snapshots := dict_set ''S1''
       (Some (commit_metadata [(''t'', ''w/m1'')]), [(''/g0'', JObj [])]) (ref_snapshots seeded),
     ref_files := [(''w/m1'',
       \<lparr>ref_rows = [''r1'', ''/g0''], ref_snaps = [(1, [''r1'', ''/g0''])], ref_log = 1, ref_props = []\<rparr>)]\<rparr>"

definition small_row :: "string \<Rightarrow> int row" where
  "small_row gid =
     [(''id'', JStr gid), (''datetime'', JStr ''d''),
      (''bbox'', JObj [(''xmin'', JFloat 2), (''xmax'', JFloat 4), (''ymin'', JFloat 6), (''ymax'', JFloat 8)])]"

definition small_rows :: "int arrow_table" where
  "small_rows = \<lparr>column_names = [''id'', ''datetime'', ''bbox''],
     table_rows = map small_row [''g1'', ''g1'', ''bad'', ''g0'', ''g2'']\<rparr>"

definition stage_array :: "int row \<Rightarrow> (ref_session, (string list) exn, string) pgm" where
  "stage_array row s =
     (case row_id row of
        Inl e \<Rightarrow> (Inl e, s)
      | Inr g \<Rightarrow> (case to_icechunk ref_store s (''/'' @ g) ([''B04''], ''u'') of
            (r, s') \<Rightarrow> (if g = ''bad'' then Inl (GranuleError g) else Inr (''/'' @ g), s')))"

definition small_writer ::
    "int row \<Rightarrow> unit \<Rightarrow> string list \<Rightarrow> string \<Rightarrow> (ref_tx, (string list) exn, string) pgm" where
  "small_writer row registry bands access = on_session (stage_array row)"

text \<open>An Arrow table is the list of the array paths of its rows, empty for a row that has none.\<close>

definition path_batch :: "(ref_meta, ref_obj, string list, int, string list) batch_lib" where
  "path_batch = \<lparr>schema_as_arrow = (\<lambda>m. OPlain ''schema''),
     table_from_pylist = (\<lambda>rows schema. Inr (map (\<lambda>row. case cell row ''array_path'' of JStr p \<Rightarrow> p | _ \<Rightarrow> []) rows)),
     sort_ascending = (\<lambda>d c. d), exn_text = (\<lambda>e. ''failed'')\<rparr>"

lemma ref_session_kept:
  "ref_branch (require_groups p s) = ref_branch s" "ref_base (require_groups p s) = ref_base s"
  "ref_branch (write_arrays p d s) = ref_branch s" "ref_base (write_arrays p d s) = ref_base s"
proof -
  have "ref_branch (fold require_group qs s) = ref_branch s \<and> ref_base (fold require_group qs s) = ref_base s" for qs
    by (induction qs arbitrary: s) (simp_all add: require_group_def set_node_def)
  then show "ref_branch (require_groups p s) = ref_branch s" "ref_base (require_groups p s) = ref_base s"
    by (simp_all add: require_groups_def)
  have "ref_branch (fold (\<lambda>v. set_node (p @ ''/'' @ v) (JStr c)) vs s) = ref_branch s
      \<and> ref_base (fold (\<lambda>v. set_node (p @ ''/'' @ v) (JStr c)) vs s) = ref_base s" for vs c
    by (induction vs arbitrary: s) (simp_all add: set_node_def)
  then show "ref_branch (write_arrays p d s) = ref_branch s" "ref_base (write_arrays p d s) = ref_base s"
    by (simp_all add: write_arrays_def)
qed

lemma ref_store_session: "store_session_law L0 ref_store"
proof -
  have fields: "session_branch L0 = ref_branch" "session_base L0 = ref_base" by (simp_all add: ref_lib_def)
  show ?thesis
    unfolding store_session_law_def same_session_def fields
    by (auto simp: ref_store_def ref_session_kept set_node_def split: option.split znode.split list.split)
qed

lemma small_writer_law: "writer_law L0 ref_store (\<lambda>row. small_writer row () [''B04''] ''s3'')"
  unfolding writer_law_def
proof (intro allI impI)
  fix row g and t t' :: ref_tx and r
  assume run: "small_writer row () [''B04''] ''s3'' t = (r, t')"
    and g: "row_id row = (Inr g :: (string list) exn + string)"
  let ?s = "write_arrays (''/'' @ g) ([''B04''], ''u'') (require_groups (''/'' @ g) (session t))"
  have staged_at: "to_icechunk ref_store (session t) (''/'' @ g) ([''B04''], ''u'') = (Inr (), ?s)"
    by (simp add: ref_store_fields)
  have t': "t' = t\<lparr>session := ?s\<rparr>"
    using run g by (auto simp: small_writer_def on_session_def stage_array_def ref_store_fields)
  have "same_session L0 (session t) ?s"
    by (simp add: same_session_def ref_lib_def ref_session_kept)
  moreover have "own_granule ref_store g (session t) ?s" if "plain_component g"
    unfolding own_granule_part
    by (rule own_partI [where p = "''/'' @ g", OF that]) (use ref_icechunk_law [OF staged_at] in simp_all)
  ultimately show "session_work L0 t t' \<and> (plain_component g \<longrightarrow> own_granule ref_store g (session t) (session t'))"
    by (auto simp: session_work_def t')
qed

definition batch_run :: "((string list) exn + batch_result) \<times> ref_remote process" where
  "batch_run = ingest_batch L0 ref_store path_batch constant_hash conf0 small_rows () [''B04''] ''s3''
     small_writer None ''t'' (process_at stocked 0)"

lemma batch_returns:
  "case fst batch_run of
     Inl e \<Rightarrow> False
   | Inr out \<Rightarrow> result_snapshot_id out = ''S2'' \<and> result_committed out = [''g1'', ''g2'']
       \<and> map fst (result_skipped out) = [''g1'', ''bad'', ''g0'']"
  by code_simp

abbreviation batch_out :: batch_result where
  "batch_out \<equiv> projr (fst batch_run)"

lemma batch_run_Inr:
  "ingest_batch L0 ref_store path_batch constant_hash conf0 small_rows () [''B04''] ''s3''
     small_writer None ''t'' (process_at stocked 0) = (Inr batch_out, snd batch_run)"
proof -
  have "\<not> isl (fst batch_run)" using batch_returns by (cases "fst batch_run") simp_all
  from run_Inr [OF this] show ?thesis by (simp add: batch_run_def)
qed

lemma batch_out_fields:
  "result_snapshot_id batch_out = ''S2''" "result_committed batch_out = [''g1'', ''g2'']"
  using batch_returns by (cases "fst batch_run"; simp)+

theorem ingest_batch_atomic_witness:
  "\<exists>r ptrs. unpublished L0 stocked r \<and> published L0 ''main'' ''S2'' ptrs r (remote (snd batch_run))"
  using ingest_batch_atomic [OF ref_alone_laws small_writer_law ref_store_session batch_run_Inr]
  by (simp add: batch_out_fields process_at_def)

theorem ingest_batch_appends_witness:
  "\<exists>d tx tx'. branch tx = ''main'' \<and> intents tx = [AppendRows ''t'' (sort_ascending path_batch d HASH_COLUMN)]
    \<and> commit L0 tx = (Inr ''S2'' :: (string list) exn + string, tx' :: ref_tx)
    \<and> remote (snd batch_run) = remote tx'"
  using ingest_batch_appends [OF ref_alone_laws small_writer_law ref_store_session batch_run_Inr]
  unfolding batch_out_fields by blast

lemma stocked_store: "store_ok L0 stocked"
  by (auto simp: store_ok_def pointers_at_def ref_lib_def stocked_def seeded_def ref_lookup_def
      split: sum.splits option.splits if_splits)

text \<open>The table had \<open>r1\<close> and the row of \<open>g0\<close>.\<close>

theorem ingest_batch_rows_witness:
  "\<exists>r j R d. lookup_branch L0 r ''main'' = Inr j \<and> unpublished L0 stocked r
    \<and> snapshot_rows L0 (\<lambda>m. mset (ref_rows m)) (remote (snd batch_run)) ''S2''
        = (snapshot_rows L0 (\<lambda>m. mset (ref_rows m)) r j)(''t'' \<mapsto> R + mset d)"
proof -
  have "store_ok L0 (others L0 n r)" if "store_ok L0 r" for n r
    using that by (simp add: ref_lib_def alone_def)
  moreover have "store_ok L0 (remote (process_at stocked 0))"
    using stocked_store by (simp add: process_at_def)
  moreover have "no_writer_between L0 ''main'' (clock (process_at stocked 0) + 2)"
    by (simp add: no_writer_between_def ref_lib_def alone_def)
  ultimately show ?thesis
    using ingest_batch_rows [OF ref_alone_laws small_writer_law ref_store_session ref_rows_law ref_plain_name _ _ _ batch_run_Inr]
    unfolding batch_out_fields by (auto simp: process_at_def)
qed

text \<open>The nodes of the reference repository.\<close>

lemma ref_lib_calls:
  "session_commit (ref_lib oth) = ref_commit" "session_rebase (ref_lib oth) = ref_rebase"
  "session_base (ref_lib oth) = ref_base"
  by (simp_all add: ref_lib_def)

lemma ref_node_is: "ref_node s p \<noteq> None \<longleftrightarrow> p = [] \<or> ref_is_node (ref_attrs s) p"
  by (auto simp: ref_node_def ref_is_node_def split: option.splits json.splits)

lemma ref_holds: "holds_node (ref_lib oth) ref_store r i p \<longleftrightarrow>
    (\<exists>md attrs. map_of (ref_snapshots r) i = Some (md, attrs) \<and> (p = [] \<or> ref_is_node attrs p))"
  unfolding holds_node_def ref_store_fields ref_node_is
  by (auto simp: ref_lib_def split: option.splits)

lemma ref_keeps_nodes:
  "(\<And>i v. map_of (ref_snapshots r) i = Some v \<Longrightarrow> map_of (ref_snapshots r') i = Some v) \<Longrightarrow>
     keeps_nodes (ref_lib oth) ref_store r r'"
  by (auto simp: keeps_nodes_def fun_eq_iff ref_holds) (auto simp: ref_lib_def ref_lookup_Inr)

lemma ref_merge_map: "map_of (ref_merge base mine tip) k =
    (if map_of base k \<noteq> map_of mine k
     then (case map_of mine k of None \<Rightarrow> if map_of base k = None then map_of tip k else None | v \<Rightarrow> v)
     else map_of tip k)"
  unfolding ref_merge_def map_of_dict_merge
  by (auto simp: map_add_def map_of_kept split: option.splits)

lemma ref_clashD: "\<not> ref_clash base mine tip \<Longrightarrow> ref_is_node tip k \<Longrightarrow> \<not> ref_is_node base k \<Longrightarrow>
    map_of base k = map_of mine k"
proof -
  assume "\<not> ref_clash base mine tip" "ref_is_node tip k" "\<not> ref_is_node base k"
  moreover from this(2) obtain v where "(k, v) \<in> set tip"
    by (auto simp: ref_is_node_def dest: map_of_SomeD split: option.splits)
  ultimately show ?thesis by (auto simp: ref_clash_def list_ex_iff)
qed

lemma ref_session_nodes: "session_nodes_law (ref_lib oth) ref_store"
proof -
  have "node ref_store s p \<noteq> None \<longleftrightarrow> holds_node (ref_lib oth) ref_store r (session_base (ref_lib oth) s) p"
    if "writable_session (ref_lib oth) r b = Inr s" for r b s p
    using that unfolding ref_holds ref_store_fields ref_node_is ref_lib_calls
    by (auto simp: ref_lib_def split: option.splits)
  moreover have "keeps_nodes (ref_lib oth) ref_store r r' \<and> (case res of
       Committed i \<Rightarrow> \<forall>p. holds_node (ref_lib oth) ref_store r' i p \<longleftrightarrow> node ref_store s p \<noteq> None
     | _ \<Rightarrow> node ref_store s' = node ref_store s)"
    if "session_commit (ref_lib oth) r s msg md ae = (res, r', s')" for r s msg md ae res r' s'
    using that unfolding ref_holds ref_store_fields ref_node_is ref_lib_calls
    by (auto simp: ref_commit_def Let_def split: if_splits intro!: ref_keeps_nodes)
  ultimately show ?thesis unfolding session_nodes_law_def by blast
qed

lemma ref_rebase_nodes: "rebase_nodes_law (ref_lib oth) ref_store"
  unfolding rebase_nodes_law_def
proof (intro allI impI)
  fix r s s' p
  assume "session_rebase (ref_lib oth) r s = (Inr (), s')"
  then obtain i mb base mt tip where at: "map_of (ref_snapshots r) (ref_base s) = Some (mb, base)"
      "map_of (ref_snapshots r) i = Some (mt, tip)"
    and clear: "\<not> ref_clash base (ref_attrs s) tip"
    and s': "s' = s\<lparr>ref_base := i, ref_attrs := ref_merge base (ref_attrs s) tip\<rparr>"
    by (auto simp: ref_lib_calls ref_rebase_def split: option.splits if_splits)
  note clear = ref_clashD [OF clear, of p]
  show "(node ref_store s p \<noteq> None \<and> \<not> holds_node (ref_lib oth) ref_store r (session_base (ref_lib oth) s) p \<longrightarrow>
           node ref_store s' p \<noteq> None \<and> \<not> holds_node (ref_lib oth) ref_store r (session_base (ref_lib oth) s') p)
        \<and> (holds_node (ref_lib oth) ref_store r (session_base (ref_lib oth) s') p
             \<and> (holds_node (ref_lib oth) ref_store r (session_base (ref_lib oth) s) p \<longrightarrow> node ref_store s p \<noteq> None) \<longrightarrow>
           node ref_store s' p \<noteq> None)"
    unfolding ref_holds ref_store_fields ref_node_is ref_lib_calls s'
    using clear at by (auto simp: ref_is_node_def ref_merge_map split: option.splits)
qed

lemma ref_nodes_law: "nodes_law (ref_lib oth) ref_store"
proof -
  have "keeps_nodes (ref_lib oth) ref_store r r'" if "write_metadata (ref_lib oth) r l m = Inr r'" for r l m r'
    using that by (intro ref_keeps_nodes) (auto simp: ref_lib_def split: option.splits)
  moreover have "keeps_nodes (ref_lib oth) ref_store r r'" if "data_write (ref_lib oth) r r'" for r r'
    using that by (intro ref_keeps_nodes) (auto simp: data_write_def ref_lib_def split: if_splits)
  ultimately show ?thesis
    unfolding nodes_law_def using ref_session_nodes ref_rebase_nodes by blast
qed

text \<open>A row of the table is its array path, or a name that is no path.\<close>

definition row_path :: "string \<Rightarrow> string option" where
  "row_path x = (if prefix ''/'' x then Some x else None)"

lemma small_writer_links: "link_law ref_store (\<lambda>row. small_writer row () [''B04''] ''s3'')"
  unfolding link_law_def
proof (intro allI impI)
  fix row g path and t t' :: ref_tx
  assume run: "small_writer row () [''B04''] ''s3'' t = (Inr path, t')"
    and g: "row_id row = (Inr g :: (string list) exn + string)"
  then have "path = ''/'' @ g"
    and "session t' = write_arrays (''/'' @ g) ([''B04''], ''u'') (require_groups (''/'' @ g) (session t))"
    by (auto simp: small_writer_def on_session_def stage_array_def ref_store_fields split: if_splits)
  moreover have "CHR ''/'' # g \<in> set (path_prefixes (CHR ''/'' # g))" by (rule path_prefixes_self) simp
  ultimately show "path = ''/'' @ g \<and> node ref_store (session t') path \<noteq> None"
    by (simp add: ref_store_fields write_arrays_def ref_node_groups)
qed

lemma path_batch_law: "arrow_law path_batch mset row_path"
  by (auto simp: arrow_law_def path_batch_def row_path_def split: json.splits if_splits)

lemma stocked_sound: "sound L0 ref_store (\<lambda>m. mset (ref_rows m)) row_path ''t'' stocked"
proof -
  have "granule_path p \<and> holds_node L0 ref_store stocked i p"
    if "snapshot_rows L0 (\<lambda>m. mset (ref_rows m)) stocked i ''t'' = Some R" "x \<in># R" "row_path x = Some p" for i R x p
  proof -
    have "i = ''S1'' \<and> R = {#''r1'', ''/g0''#}"
      using that(1)
      by (auto simp: snapshot_rows_def pointers_at_def Rows.table_rows_def ref_lib_def stocked_def seeded_def ref_lookup_def
          ref_find_def projr_option_def split: option.splits if_splits sum.splits)
    moreover from this that(2,3) have "p = ''/'' @ ''g0''" by (auto simp: row_path_def split: if_splits)
    moreover have "plain_component ''g0''" by (simp add: plain_component_def)
    ultimately show ?thesis
      unfolding granule_path_def ref_holds by (auto simp: stocked_def seeded_def ref_is_node_def)
  qed
  then have "paired L0 ref_store (\<lambda>m. mset (ref_rows m)) row_path ''t'' stocked" by (rule pairedI)
  then show ?thesis using stocked_store by (simp add: sound_def)
qed

lemma small_ids:
  assumes "row \<in> set (table_rows small_rows)"
  shows "\<exists>r. row_id row = (Inr r :: 'b exn + string) \<and> plain_component r"
  using assms by (auto simp: small_rows_def small_row_def row_id_def item_def plain_component_def)

theorem ingest_batch_paired_witness:
  "sound L0 ref_store (\<lambda>m. mset (ref_rows m)) row_path ''t'' (remote (snd batch_run))"
proof -
  have "neighbours_law L0 ref_store (\<lambda>m. mset (ref_rows m)) row_path ''t''"
    by (simp add: neighbours_law_def ref_lib_def alone_def)
  moreover have "no_writer_between L0 ''main'' (clock (process_at stocked 0) + 2)"
    by (simp add: no_writer_between_def ref_lib_def alone_def)
  moreover have "sound L0 ref_store (\<lambda>m. mset (ref_rows m)) row_path ''t'' (remote (process_at stocked 0))"
    using stocked_sound by (simp add: process_at_def)
  ultimately show ?thesis
    using ingest_batch_paired [OF ref_alone_laws small_writer_law ref_store_session ref_presence_law small_writer_links
        ref_nodes_law ref_rows_law path_batch_law ref_plain_name small_ids _ _ _ batch_run_Inr]
    by blast
qed

subsection \<open>The loop\<close>

definition batch_open :: ref_tx where
  "batch_open = projr (fst (open_in alone stocked 0))"

definition looped :: "((string list) exn + unit) \<times> (ref_remote, ref_session, string list, string list, ref_obj, int) batch" where
  "looped = for_each (ingest_row ref_store path_batch (\<lambda>row. small_writer row () [''B04''] ''s3''))
     (table_rows small_rows) (batch_of batch_open)"

lemma looped_facts:
  "fst looped = Inr ()" "committed (snd looped) = [''g1'', ''g2'']"
  "map (\<lambda>g. ref_node (session batch_open) (''/'' @ g) = None) [''g0'', ''g1'', ''bad''] = [False, True, True]"
  by code_simp+

text \<open>What \<open>bad\<close> had staged could be deleted.\<close>

lemma bad_cleaned: "\<not> cleanup_failed (snd looped) ''bad''"
  by code_simp

lemma looped_run:
  "for_each (ingest_row ref_store path_batch (\<lambda>row. small_writer row () [''B04''] ''s3''))
     (table_rows small_rows) (batch_of batch_open) = (Inr (), snd looped)"
  using looped_facts(1) by (metis looped_def prod.collapse)

theorem batch_accounts_witness: "accounts (table_rows small_rows) (snd looped)"
  by (rule batch_accounts [OF looped_run])

text \<open>The failed granule left nothing, the published one is untouched, the staged one is there.\<close>

theorem batch_leaves_no_orphans_witness:
  "node ref_store (session (batch_tx (snd looped))) ''/bad'' = None
    \<and> node ref_store (session (batch_tx (snd looped))) ''/g0'' = node ref_store (session batch_open) ''/g0''"
proof -
  note law = batch_leaves_no_orphans [OF ref_presence_law small_writer_law small_ids looped_run]
  have "plain_component ''bad''" "plain_component ''g0''" by (simp_all add: plain_component_def)
  note bad = law [OF _ this(1)] and g0 = law [OF _ this(2)]
  have "node ref_store (session (batch_tx (snd looped))) ''/bad'' = None"
    using bad looped_facts(2,3) bad_cleaned by (simp add: ref_store_fields)
  moreover have "under ''/g0'' ''/g0''" by (rule under_refl)
  then have "node ref_store (session (batch_tx (snd looped))) ''/g0'' = node ref_store (session batch_open) ''/g0''"
    using g0 looped_facts(3) by (auto simp: ref_store_fields)
  ultimately show ?thesis ..
qed

subsection \<open>Ensuring the table\<close>

definition some_schema :: "(ref_obj, string) schema_lib" where
  "some_schema = \<lparr>mk_schema = (\<lambda>fs. OPlain ''schema''), schema_fields = (\<lambda>o'. []), highest_field_id = (\<lambda>o'. 0),
     mk_sort_order = (\<lambda>fs. OPlain ''order''), mk_partition_spec = (\<lambda>fs. OPlain ''spec'')\<rparr>"

definition ensured :: "((string list) exn + unit) \<times> ref_remote process" where
  "ensured = ensure_table L0 some_schema conf0 (OPlain ''source'') ''u'' (process_at seeded 0)"

lemma ensured_facts: "fst ensured = Inr ()" "lookup_branch L0 (remote (snd ensured)) ''main'' = Inr ''S2''"
  by code_simp+

theorem ensure_table_effect_witness:
  "\<exists>r i ptrs. ''u'' \<in> dom (map_of ptrs) \<and> unpublished L0 seeded r
    \<and> published L0 ''main'' i ptrs r (remote (snd ensured))"
proof -
  have run: "ensure_table L0 some_schema conf0 (OPlain ''source'') ''u'' (process_at seeded 0) = (Inr (), snd ensured)"
    using ensured_facts(1) by (metis ensured_def prod.collapse)
  have "snd ensured \<noteq> let_others L0 (process_at seeded 0)"
    using ensured_facts(2) by (auto simp: process_at_def) (simp add: ref_lib_def seeded_def)
  with ensure_table_effect [OF ref_alone_laws ref_zarr_law ref_plain_name run] show ?thesis
    by (simp add: process_at_def)
qed

end
