(* ===== verification/Concurrent_Writers.thy ===== *)
theory Concurrent_Writers
  imports Lone Paired
begin

text \<open>
  \<open>examples/concurrent_writers.py\<close>: two writers of one process, each with a transaction of its own,
  interleaved; then a delete that is replayed, and a tag. Each transaction is a value that the
  script holds on to while the world moves on (\<open>on_tx\<close>). The array calls of Zarr, pyarrow's table,
  PyIceberg's scan and two calls on the Icechunk repository are parameters (\<open>example_lib\<close>); what the
  script prints is its result (\<open>report\<close>).
\<close>

subsection \<open>The libraries\<close>

record ('s, 'r, 'm, 'd, 'o, 'v) example_lib =
  create_array :: "'s \<Rightarrow> string \<Rightarrow> nat \<Rightarrow> nat \<Rightarrow> (string + unit) \<times> 's"
  assign_slice :: "'s \<Rightarrow> string \<Rightarrow> nat \<Rightarrow> nat \<Rightarrow> 'v list \<Rightarrow> (string + unit) \<times> 's"
  array_item :: "'s \<Rightarrow> string \<Rightarrow> nat \<Rightarrow> string + 'v"
  float32 :: "nat \<Rightarrow> 'v"
  pa_schema :: "(string \<times> string \<times> bool) list \<Rightarrow> 'o"
  pa_table :: "(string, string list) dict \<Rightarrow> 'o \<Rightarrow> 'd"
  scan_arrow :: "'r \<Rightarrow> 'm iceberg_table \<Rightarrow> string + 'd"
  string_column :: "'d \<Rightarrow> string \<Rightarrow> string list"
  arrow_rows :: "'d \<Rightarrow> nat"
  unpartitioned :: 'o
  unsorted :: 'o
  create_tag :: "'r \<Rightarrow> string \<Rightarrow> string \<Rightarrow> string + 'r"
  ancestry :: "'r \<Rightarrow> string \<Rightarrow> string + (string \<times> string \<times> commit_meta option) list"

subsection \<open>Transactions as values\<close>

text \<open>A call of a method of the transaction \<open>t\<close> in the world as it is now.\<close>

definition at_world :: "'r process \<Rightarrow> ('r, 's, 'd, 'b, 'o) transaction \<Rightarrow> ('r, 's, 'd, 'b, 'o) transaction" where
  "at_world p t = t\<lparr>remote := remote p, clock := clock p, draws := draws p\<rparr>"

definition on_tx ::
    "(('r, 's, 'd, 'b, 'o) transaction, 'b exn, 'a) pgm \<Rightarrow> ('r, 's, 'd, 'b, 'o) transaction
     \<Rightarrow> ('r process, 'b exn, 'a \<times> ('r, 's, 'd, 'b, 'o) transaction) pgm" where
  "on_tx m t p =
     (case m (at_world p t) of
        (r, t') \<Rightarrow> (map_sum id (\<lambda>x. (x, t')) r, p\<lparr>remote := remote t', clock := clock t', draws := draws t'\<rparr>))"

subsection \<open>The script\<close>

definition GRANULES :: "('s, 'r, 'm, 'd, 'o, 'v, 'z) example_lib_scheme \<Rightarrow> 'o" where
  "GRANULES X = pa_schema X
     [(''granule_id'', ''string'', False), (''datetime'', ''timestamp[ms]'', False),
      (''array_slice'', ''string'', False)]"

text \<open>\<open>row\<close>; the day stands for its timestamp.\<close>

definition row_table ::
    "('s, 'r, 'm, 'd, 'o, 'v, 'z) example_lib_scheme \<Rightarrow> string \<Rightarrow> string \<Rightarrow> string \<Rightarrow> 'd" where
  "row_table X granule_id day array_slice =
     pa_table X [(''granule_id'', [granule_id]), (''datetime'', [day]), (''array_slice'', [array_slice])] (GRANULES X)"

definition seed ::
    "('s, 'f :: zero, 'r, 'm, 'b, 'd, 'o, 'z) iceberg_lib_scheme
     \<Rightarrow> ('s, 'r, 'm, 'd, 'o, 'v, 'y) example_lib_scheme \<Rightarrow> hybrid_repo \<Rightarrow> ('r process, 'b exn, unit) pgm" where
  "seed L X conf =
     in_new_transaction L conf ''main'' ''seed''
       (pthen (tx_group L)
       (pthen (on_session (store_call (\<lambda>s. create_array X s ''reflectance'' 400 10)))
       (tx_create_table L ''granules'' (GRANULES X) None None (unpartitioned X) (unsorted X))))"

text \<open>\<open>tx.group["reflectance"][a:b] = np.full(b - a, v)\<close>, then \<open>tx.append("granules", row(...))\<close>.\<close>

definition ingest ::
    "('s, 'f :: zero, 'r, 'm, 'b, 'd, 'o, 'z) iceberg_lib_scheme
     \<Rightarrow> ('s, 'r, 'm, 'd, 'o, 'v, 'y) example_lib_scheme \<Rightarrow> nat \<Rightarrow> nat \<Rightarrow> nat \<Rightarrow> 'd
     \<Rightarrow> (('r, 's, 'd, 'b, 'o) transaction, 'b exn, unit) pgm" where
  "ingest L X a b v d =
     pthen (tx_group L)
    (pthen (on_session (store_call (\<lambda>s. assign_slice X s ''reflectance'' a b (replicate (b - a) (float32 X v)))))
    (tx_append ''granules'' d))"

definition two_writers ::
    "('s, 'f :: zero, 'r, 'm, 'b, 'd, 'o, 'z) iceberg_lib_scheme
     \<Rightarrow> ('s, 'r, 'm, 'd, 'o, 'v, 'y) example_lib_scheme \<Rightarrow> hybrid_repo
     \<Rightarrow> ('r process, 'b exn, string \<times> string) pgm" where
  "two_writers L X conf =
     pbind (repo_transaction L conf ''main'' ''ben ingests G-100'' None None) (\<lambda>ben.
     pbind (repo_transaction L conf ''main'' ''anna ingests G-200'' None None) (\<lambda>anna.
     pbind (on_tx (ingest L X 0 10 1 (row_table X ''G-100'' ''2026-03-01'' ''0:10'')) ben) (\<lambda>(_, ben).
     pbind (on_tx (ingest L X 200 210 2 (row_table X ''G-200'' ''2026-03-02'' ''200:210'')) anna) (\<lambda>(_, anna).
     pbind (on_tx (commit L) ben) (\<lambda>(ben_snapshot, ben).
     pbind (on_tx (commit L) anna) (\<lambda>(anna_snapshot, anna).
     pret (ben_snapshot, anna_snapshot)))))))"

definition retract_predicate :: "'b predicate" where
  "retract_predicate = PText (''granule_id == '' @ [CHR 0x27] @ ''G-100'' @ [CHR 0x27])"

definition retract ::
    "('s, 'f :: zero, 'r, 'm, 'b, 'd, 'o, 'z) iceberg_lib_scheme
     \<Rightarrow> ('s, 'r, 'm, 'd, 'o, 'v, 'y) example_lib_scheme \<Rightarrow> hybrid_repo \<Rightarrow> ('r process, 'b exn, string) pgm" where
  "retract L X conf =
     pbind (repo_transaction L conf ''main'' ''retract G-100'' None None) (\<lambda>t.
     pbind (on_tx (tx_delete L ''granules'' retract_predicate) t) (\<lambda>(_, t).
     pbind (in_new_transaction L conf ''main'' ''concurrent unrelated ingest''
       (ingest L X 100 110 5 (row_table X ''G-400'' ''2026-03-04'' ''100:110''))) (\<lambda>_.
     pbind (on_tx (commit L) t) (\<lambda>(i, t). pret i))))"

definition call_create_tag ::
    "('s, 'r, 'm, 'd, 'o, 'v, 'y) example_lib_scheme \<Rightarrow> string \<Rightarrow> string \<Rightarrow> ('r process, 'b exn, unit) pgm" where
  "call_create_tag X tag i p =
     (case create_tag X (remote p) tag i of
        Inl e \<Rightarrow> (Inl (LibError e), p) | Inr r \<Rightarrow> (Inr (), p\<lparr>remote := r\<rparr>))"

definition release ::
    "('s, 'f :: zero, 'r, 'm, 'b, 'd, 'o, 'z) iceberg_lib_scheme
     \<Rightarrow> ('s, 'r, 'm, 'd, 'o, 'v, 'y) example_lib_scheme \<Rightarrow> hybrid_repo \<Rightarrow> string
     \<Rightarrow> ('r process, 'b exn, unit) pgm" where
  "release L X conf anna_snapshot =
     pthen (call_create_tag X ''release-1'' anna_snapshot)
       (in_new_transaction L conf ''main'' ''later ingest''
         (ingest L X 300 310 9 (row_table X ''G-300'' ''2026-03-03'' ''300:310'')))"

subsection \<open>What the script reads and prints\<close>

text \<open>\<open>snap.table("granules").scan().to_arrow()\<close>, \<open>snap.group["reflectance"][i]\<close> and \<open>Path(p).name\<close>.\<close>

definition scanned ::
    "('s, 'f :: zero, 'r, 'm, 'b, 'd, 'o, 'z) iceberg_lib_scheme
     \<Rightarrow> ('s, 'r, 'm, 'd, 'o, 'v, 'y) example_lib_scheme \<Rightarrow> ('r, 's) hybrid_snapshot \<Rightarrow> 'b exn + 'd" where
  "scanned L X snap =
     rbind (fst (snapshot_table L ''granules'' snap)) (\<lambda>t. lib_result (scan_arrow X (remote snap) t))"

definition pixel ::
    "('s, 'f :: zero, 'r, 'm, 'b, 'd, 'o, 'z) iceberg_lib_scheme
     \<Rightarrow> ('s, 'r, 'm, 'd, 'o, 'v, 'y) example_lib_scheme \<Rightarrow> ('r, 's) hybrid_snapshot \<Rightarrow> nat \<Rightarrow> 'b exn + 'v" where
  "pixel L X snap i =
     rbind (fst (snapshot_group L snap)) (\<lambda>g. lib_result (array_item X g ''reflectance'' i))"

definition path_name :: "string \<Rightarrow> string" where
  "path_name p = rev (takeWhile (\<lambda>c. c \<noteq> CHR ''/'') (rev p))"

definition history_line :: "string \<times> string \<times> commit_meta option \<Rightarrow> 'b exn + string \<times> string \<times> string" where
  "history_line = (\<lambda>(i, msg, md).
     rbind (case map_of (case md of None \<Rightarrow> [] | Some d \<Rightarrow> d) POINTER_KEY of
              None \<Rightarrow> Inr None
            | Some (PointerMap m) \<Rightarrow> Inr (map_of m ''granules'')
            | Some _ \<Rightarrow> Inl AttributeError) (\<lambda>ptr.
     Inr (take 10 i, take 28 msg @ replicate (28 - length msg) (CHR '' ''), case ptr of None \<Rightarrow> ''-'' | Some l \<Rightarrow> if l = [] then ''-'' else path_name l)))"

record 'v report =
  seeded_bindings :: "(string, table_binding) dict"
  ben_commit :: string
  anna_commit :: string
  both_rows :: "string list"
  both_pixels :: "'v \<times> 'v"
  both_pointer :: string
  remaining_rows :: "string list"
  pinned :: "nat \<times> 'v"
  latest :: "nat \<times> 'v"
  history :: "(string \<times> string \<times> string) list"

text \<open>\<open>main\<close>, in the world of a repository \<open>conf\<close> that \<open>HybridRepo.create\<close> has made.\<close>

definition script ::
    "('s, 'f :: zero, 'r, 'm, 'b, 'd, 'o, 'z) iceberg_lib_scheme
     \<Rightarrow> ('s, 'r, 'm, 'd, 'o, 'v, 'y) example_lib_scheme \<Rightarrow> hybrid_repo \<Rightarrow> ('r process, 'b exn, 'v report) pgm" where
  "script L X conf =
     pthen (seed L X conf)
    (pbind (repo_read L conf (Some ''main'') None None) (\<lambda>snap.
     pbind (plift (fst (snapshot_bindings L snap))) (\<lambda>bindings.
     pbind (two_writers L X conf) (\<lambda>(ben, anna).
     pbind (repo_read L conf (Some ''main'') None None) (\<lambda>tip.
     pbind (plift (scanned L X tip)) (\<lambda>rows.
     pbind (plift (pixel L X tip 0)) (\<lambda>p0.
     pbind (plift (pixel L X tip 200)) (\<lambda>p200.
     pbind (plift (rbind (fst (snapshot_pointers L tip)) (\<lambda>m.
       case map_of m ''granules'' of None \<Rightarrow> Inl (KeyError ''granules'' []) | Some l \<Rightarrow> Inr (path_name l)))) (\<lambda>ptr.
     pbind (retract L X conf) (\<lambda>_.
     pbind (repo_read L conf (Some ''main'') None None) (\<lambda>after.
     pbind (plift (scanned L X after)) (\<lambda>remaining.
     pthen (release L X conf anna)
    (pbind (repo_read L conf None (Some ''release-1'') None) (\<lambda>pin.
     pbind (repo_read L conf (Some ''main'') None None) (\<lambda>last.
     pbind (plift (scanned L X pin)) (\<lambda>pin_rows.
     pbind (plift (pixel L X pin 300)) (\<lambda>pin300.
     pbind (plift (scanned L X last)) (\<lambda>last_rows.
     pbind (plift (pixel L X last 300)) (\<lambda>last300.
     pbind (pget remote) (\<lambda>r.
     pbind (plift (rbind (lib_result (ancestry X r ''main'')) (rmap history_line))) (\<lambda>lines.
     pret \<lparr>seeded_bindings = bindings, ben_commit = ben, anna_commit = anna,
           both_rows = sort (string_column X rows ''granule_id''), both_pixels = (p0, p200), both_pointer = ptr,
           remaining_rows = sort (string_column X remaining ''granule_id''),
           pinned = (arrow_rows X pin_rows, pin300), latest = (arrow_rows X last_rows, last300),
           history = lines\<rparr>)))))))))))))))))))))"

subsection \<open>What the libraries promise\<close>

text \<open>
  Array calls stay in the session; a tag moves nothing
  else; a table of one id column has those ids; a scan finds the table's rows; the predicate matches
  the rows of the one granule. \<open>gid\<close> is the granule id of a row.
\<close>

definition array_law ::
    "('s, 'f, 'r, 'z) icechunk_lib_scheme \<Rightarrow> ('s, 'r, 'm, 'd, 'o, 'v, 'y) example_lib_scheme \<Rightarrow> bool" where
  "array_law L X \<longleftrightarrow>
     (\<forall>s n shape chunks. same_session L s (snd (create_array X s n shape chunks)))
     \<and> (\<forall>s n a b vs. same_session L s (snd (assign_slice X s n a b vs)))"

definition tag_law ::
    "('s, 'f, 'r, 'm, 'b, 'd, 'o, 'z) iceberg_lib_scheme
     \<Rightarrow> ('s, 'r, 'm, 'd, 'o, 'v, 'y) example_lib_scheme \<Rightarrow> bool" where
  "tag_law L X \<longleftrightarrow>
     (\<forall>r t i r'. create_tag X r t i = Inr r' \<longrightarrow>
        lookup_tag L r' = (lookup_tag L r)(t := Inr i) \<and> lookup_branch L r' = lookup_branch L r
        \<and> lookup_snapshot L r' = lookup_snapshot L r \<and> read_metadata L r' = read_metadata L r)"

definition table_law ::
    "('s, 'r, 'm, 'd, 'o, 'v, 'y) example_lib_scheme \<Rightarrow> ('m \<Rightarrow> 'a multiset) \<Rightarrow> ('d \<Rightarrow> 'a multiset)
     \<Rightarrow> ('b predicate \<Rightarrow> 'a \<Rightarrow> bool) \<Rightarrow> ('a \<Rightarrow> string) \<Rightarrow> bool" where
  "table_law X rows_of dat sat gid \<longleftrightarrow>
     (\<forall>columns schema ids. map_of columns ''granule_id'' = Some ids \<longrightarrow>
        image_mset gid (dat (pa_table X columns schema)) = mset ids)
     \<and> (\<forall>r t d. scan_arrow X r t = Inr d \<longrightarrow>
        mset (string_column X d ''granule_id'') = image_mset gid (rows_of (table_metadata t))
        \<and> arrow_rows X d = size (rows_of (table_metadata t)))
     \<and> (\<forall>x. sat retract_predicate x \<longleftrightarrow> gid x = ''G-100'')"

lemma row_table_ids: "table_law X rows_of dat sat gid \<Longrightarrow> image_mset gid (dat (row_table X g d s)) = {#g#}"
  by (simp add: table_law_def row_table_def)

subsection \<open>The tip, and transactions that are ready to commit\<close>

text \<open>\<open>tip_ids\<close>: the branch points at \<open>i\<close>, whose granules table has the ids \<open>M\<close>.\<close>

definition tip_ids ::
    "('s, 'f, 'r, 'm, 'b, 'd, 'o, 'z) iceberg_lib_scheme \<Rightarrow> ('m \<Rightarrow> 'a multiset) \<Rightarrow> ('a \<Rightarrow> string) \<Rightarrow> 'r
     \<Rightarrow> string \<Rightarrow> string multiset \<Rightarrow> bool" where
  "tip_ids L rows_of gid r i M \<longleftrightarrow>
     (\<exists>c R. tip_shows L rows_of r i c \<and> c ''granules'' = Some R \<and> image_mset gid R = M)"

lemma ready_at:
  assumes "ready L is t" and "keeps_history L (remote t) (remote p)"
  shows "ready L is (at_world p t)"
proof -
  have "pointers_at L (remote p) (session_base L (session t)) = Some (pointers t)"
    using pointers_at_keeps [OF assms(2)] assms(1) by (simp add: ready_def synced_def)
  with assms(1) show ?thesis by (simp add: ready_def synced_def at_world_def)
qed

lemma on_tx_Inr:
  "on_tx m t p = (Inr y, p') \<longleftrightarrow> (\<exists>x t'. y = (x, t') \<and> m (at_world p t) = (Inr x, t')
     \<and> p' = p\<lparr>remote := remote t', clock := clock t', draws := draws t'\<rparr>)"
proof -
  obtain r t' where "m (at_world p t) = (r, t')" by fastforce
  then show ?thesis by (cases r) (auto simp: on_tx_def)
qed

text \<open>The same in ids, for the three kinds of transaction the script commits.\<close>

lemma commit_append_ids:
  fixes t t' :: "('r, 's, 'd, 'b, 'o) transaction"
  assumes laws: "world_laws L" "lone L" "rows_law L rows_of dat sat" and plain: "plain_name L ''granules''"
    and t: "ready L [AppendRows ''granules'' d] t" and tip: "tip_ids L rows_of gid (remote t) j M"
    and run: "commit L t = (Inr i, t')"
  shows "tip_ids L rows_of gid (remote t') i (M + image_mset gid (dat d))" and "builds_on L (remote t) (remote t')"
proof -
  from tip obtain c R where c: "tip_shows L rows_of (remote t) j c" "c ''granules'' = Some R" "image_mset gid R = M"
    unfolding tip_ids_def by blast
  have "plain_name L (intent_name x)" if "x \<in> set [AppendRows ''granules'' d]" for x using plain that by simp
  note step = commit_tip [OF laws this t c(1) run]
  show "tip_ids L rows_of gid (remote t') i (M + image_mset gid (dat d))"
    using step(1) c(2,3) by (auto simp: tip_ids_def)
  show "builds_on L (remote t) (remote t')" by (rule step(2))
qed

lemma commit_delete_ids:
  fixes t t' :: "('r, 's, 'd, 'b, 'o) transaction"
  assumes laws: "world_laws L" "lone L" "rows_law L rows_of dat sat" and plain: "plain_name L ''granules''"
    and sat: "\<And>x. sat q x \<longleftrightarrow> gid x = g"
    and t: "ready L [DeleteRows ''granules'' q] t" and tip: "tip_ids L rows_of gid (remote t) j M"
    and run: "commit L t = (Inr i, t')"
  shows "tip_ids L rows_of gid (remote t') i (filter_mset (\<lambda>h. h \<noteq> g) M)" and "builds_on L (remote t) (remote t')"
proof -
  from tip obtain c R where c: "tip_shows L rows_of (remote t) j c" "c ''granules'' = Some R" "image_mset gid R = M"
    unfolding tip_ids_def by blast
  have "plain_name L (intent_name x)" if "x \<in> set [DeleteRows ''granules'' q]" for x using plain that by simp
  note step = commit_tip [OF laws this t c(1) run]
  have "image_mset gid (filter_mset (\<lambda>x. gid x \<noteq> g) R) = filter_mset (\<lambda>h. h \<noteq> g) M"
    unfolding c(3) [symmetric] by (induction R) simp_all
  then show "tip_ids L rows_of gid (remote t') i (filter_mset (\<lambda>h. h \<noteq> g) M)"
    using step(1) c(2) by (auto simp: tip_ids_def sat)
  show "builds_on L (remote t) (remote t')" by (rule step(2))
qed

lemma commit_create_ids:
  fixes t t' :: "('r, 's, 'd, 'b, 'o) transaction"
  assumes laws: "world_laws L" "lone L" "rows_law L rows_of dat sat" and plain: "plain_name L ''granules''"
    and t: "ready L [CreateTable ''granules'' sc loc pr ps so] t"
    and tip: "tip_shows L rows_of (remote t) j c" "c ''granules'' = None"
    and run: "commit L t = (Inr i, t')"
  shows "tip_ids L rows_of gid (remote t') i {#}"
proof -
  have "plain_name L (intent_name x)" if "x \<in> set [CreateTable ''granules'' sc loc pr ps so]" for x using plain that by simp
  note step = commit_tip(1) [OF laws this t tip(1) run]
  then show ?thesis using tip(2) by (auto simp: tip_ids_def)
qed

lemma array_step:
  fixes L :: "('s, 'f, 'r, 'm, 'b, 'd, 'o, 'z) iceberg_lib_scheme"
  assumes "\<And>s. same_session L s (snd (f s))"
  shows "keeps (stage_frame_of L) (on_session (store_call f) :: (('r, 's, 'd, 'b, 'o) transaction, 'b exn, 'a) pgm)"
proof (rule on_session_frame)
  fix s s' r
  assume "store_call f s = (r :: 'b exn + 'a, s')"
  with store_call_session [of L f, OF assms] have "same_session L s s'" by (rule keepsD)
  then show "session_branch L s' = session_branch L s \<and> session_base L s' = session_base L s"
    by (simp add: same_session_def)
qed

lemma on_session_intents: "on_session m t = (r, t') \<Longrightarrow> intents t' = intents t"
  by (auto simp: on_session_def split: prod.splits)

lemma ingest_stages:
  fixes L :: "('s, 'f :: zero, 'r, 'm, 'b, 'd, 'o, 'z) iceberg_lib_scheme"
  assumes "zarr_law L" and "array_law L X"
  shows "stages_intents L (\<lambda>is. is = [AppendRows ''granules'' d]) (ingest L X a b v d)"
proof -
  have "keeps (stage_frame_of L) (ingest L X a b v d)"
    unfolding ingest_def using assms
    by (intro staging.steps tx_group_frame array_step tx_append_frame) (auto simp: array_law_def)
  then show ?thesis
    by (auto simp: stages_intents_def ingest_def tx_group_def tx_append_def add_intent_def
        elim!: pthen_InrE dest!: on_session_intents)
qed

lemma seed_stages:
  fixes L :: "('s, 'f :: zero, 'r, 'm, 'b, 'd, 'o, 'z) iceberg_lib_scheme"
  assumes "zarr_law L" and "array_law L X"
  shows "stages_intents L (\<lambda>is. \<exists>sc loc pr ps so. is = [CreateTable ''granules'' sc loc pr ps so])
    (pthen (tx_group L) (pthen (on_session (store_call (\<lambda>s. create_array X s n m k)))
      (tx_create_table L ''granules'' sc None None ps so)))"
proof -
  have "keeps (stage_frame_of L) (pthen (tx_group L) (pthen (on_session (store_call (\<lambda>s. create_array X s n m k)))
      (tx_create_table L ''granules'' sc None None ps so)))"
    using assms
    by (intro staging.steps tx_group_frame array_step tx_create_table_frame) (auto simp: array_law_def)
  then show ?thesis
    by (auto simp: stages_intents_def tx_group_def tx_create_table_def add_intent_def
        elim!: pthen_InrE pbind_InrE dest!: on_session_intents)
qed

subsection \<open>The steps of the script\<close>

text \<open>An ingest in a block of its own, and one staged on a transaction opened earlier.\<close>

lemma block_ingest:
  fixes L :: "('s, 'f :: zero, 'r, 'm, 'b, 'd, 'o, 'z) iceberg_lib_scheme"
  assumes laws: "world_laws L" "lone L" "rows_law L rows_of dat sat" "zarr_law L" "array_law L X"
    and plain: "plain_name L ''granules''" and tip: "tip_ids L rows_of gid (remote p) j M"
    and run: "in_new_transaction L conf ''main'' msg (ingest L X a b v d) p = (Inr u :: 'b exn + unit, p')"
  shows "\<exists>i. tip_ids L rows_of gid (remote p') i (M + image_mset gid (dat d))" and "builds_on L (remote p) (remote p')"
proof -
  obtain t i t' where t: "ready L [AppendRows ''granules'' d] t" "remote t = remote p"
    and commit: "commit L t = (Inr i :: 'b exn + string, t' :: ('r, 's, 'd, 'b, 'o) transaction)" and p': "remote p' = remote t'"
    by (rule block_commits [OF laws(1,2) ingest_stages [OF laws(4,5)] run]) blast
  note step = commit_append_ids [OF laws(1-3) plain t(1) _ commit, unfolded t(2), OF tip]
  then show "\<exists>i. tip_ids L rows_of gid (remote p') i (M + image_mset gid (dat d))" "builds_on L (remote p) (remote p')"
    unfolding p' by blast+
qed

lemma staged_on:
  fixes L :: "('s, 'f, 'r, 'm, 'b, 'd, 'o, 'z) iceberg_lib_scheme"
    and t t' :: "('r, 's, 'd, 'b, 'o) transaction"
  assumes body: "stages_intents L (\<lambda>is. is = js) body" and t: "ready L [] t" and at: "keeps_history L (remote t) (remote p)"
    and run: "on_tx body t p = (Inr ((), t'), p')"
  shows "ready L js t'" and "remote t' = remote p" and "remote p' = remote p"
proof -
  from run have go: "body (at_world p t) = (Inr (), t')" and p': "remote p' = remote t'" by (auto simp: on_tx_Inr)
  note s = stages_ready [OF body ready_at [OF t at] go]
  show "ready L js t'" "remote t' = remote p" "remote p' = remote p"
    using s by (simp_all add: p' at_world_def)
qed

lemma committed_on:
  fixes t t' :: "('r, 's, 'd, 'b, 'o) transaction"
  assumes t: "ready L is t" and at: "keeps_history L (remote t) (remote p)"
    and run: "on_tx (commit L) t p = (Inr (i, t'), p')"
  shows "ready L is (at_world p t)" and "remote (at_world p t) = remote p"
    and "commit L (at_world p t) = (Inr i, t')" and "remote p' = remote t'"
  using run by (auto simp: on_tx_Inr at_world_def intro: ready_at [OF t at, unfolded at_world_def])

lemma two_writers_ids:
  fixes L :: "('s, 'f :: zero, 'r, 'm, 'b, 'd, 'o, 'z) iceberg_lib_scheme"
  assumes laws: "world_laws L" "lone L" "rows_law L rows_of dat sat" "zarr_law L" "array_law L X"
    and table: "table_law X rows_of dat sat gid"
    and plain: "plain_name L ''granules''" and tip: "tip_ids L rows_of gid (remote p) j M"
    and run: "two_writers L X conf p = (Inr (ben_snapshot, anna_snapshot) :: 'b exn + _, p')"
  shows "tip_ids L rows_of gid (remote p') anna_snapshot (M + {#''G-100''#} + {#''G-200''#})"
    and "builds_on L (remote p) (remote p')"
proof -
  let ?d = "\<lambda>g day s. row_table X g day s"
  obtain ben0 anna0 ben1 anna1 ben2 anna2 :: "('r, 's, 'd, 'b, 'o) transaction" and p1 p2 p3 p4 p5 where
    ben: "repo_transaction L conf ''main'' ''ben ingests G-100'' None None p = (Inr ben0 :: 'b exn + _, p1)"
    and anna: "repo_transaction L conf ''main'' ''anna ingests G-200'' None None p1 = (Inr anna0 :: 'b exn + _, p2)"
    and ben_works: "on_tx (ingest L X 0 10 1 (?d ''G-100'' ''2026-03-01'' ''0:10'')) ben0 p2
        = (Inr ((), ben1) :: 'b exn + _, p3)"
    and anna_works: "on_tx (ingest L X 200 210 2 (?d ''G-200'' ''2026-03-02'' ''200:210'')) anna0 p3
        = (Inr ((), anna1) :: 'b exn + _, p4)"
    and ben_commits: "on_tx (commit L) ben1 p4 = (Inr (ben_snapshot, ben2), p5)"
    and anna_commits: "on_tx (commit L) anna1 p5 = (Inr (anna_snapshot, anna2), p')"
    using run unfolding two_writers_def by (auto elim!: pbind_InrE)
  note b0 = opened_ready [OF laws(1,2) ben] and a0 = opened_ready [OF laws(1,2) anna]
  note stages = ingest_stages [OF laws(4,5)]
  note b1 = staged_on [OF stages b0(1) _ ben_works, unfolded a0(3) b0, simplified]
  note a1 = staged_on [OF stages a0(1) _ anna_works, unfolded b1 a0(2) b0, simplified]
  note b2 = committed_on [OF b1(1) _ ben_commits, unfolded a1 b1(2), simplified]
  have first: "tip_ids L rows_of gid (remote p5) ben_snapshot (M + {#''G-100''#})" "builds_on L (remote p) (remote p5)"
    using commit_append_ids [OF laws(1-3) plain b2(1) _ b2(3), unfolded b2(2), OF tip]
    by (simp_all add: b2(4) row_table_ids [OF table])
  then have "keeps_history L (remote anna1) (remote p5)" by (simp add: a1(2) builds_on_def)
  note a2 = committed_on [OF a1(1) this anna_commits]
  have "tip_ids L rows_of gid (remote p') anna_snapshot (M + {#''G-100''#} + {#''G-200''#})" "builds_on L (remote p5) (remote p')"
    using commit_append_ids [OF laws(1-3) plain a2(1) _ a2(3), unfolded a2(2), OF first(1)]
    by (simp_all add: a2(4) row_table_ids [OF table])
  with first(2) show "tip_ids L rows_of gid (remote p') anna_snapshot (M + {#''G-100''#} + {#''G-200''#})"
    "builds_on L (remote p) (remote p')" by (auto intro: builds_on_trans)
qed

lemma delete_stages: "stages_intents L (\<lambda>is. is = [DeleteRows n q]) (tx_delete L n q)"
proof -
  have "intents t' = intents t" if "capture_base_snapshot L n t = (Inr u, t')" for t u t'
    using that by (cases rule: capture_cases) simp_all
  then show ?thesis
    using tx_delete_frame [of L n q]
    by (auto simp: stages_intents_def tx_delete_def add_intent_def elim!: pthen_InrE)
qed

lemma retract_ids:
  fixes L :: "('s, 'f :: zero, 'r, 'm, 'b, 'd, 'o, 'z) iceberg_lib_scheme"
  assumes laws: "world_laws L" "lone L" "rows_law L rows_of dat sat" "zarr_law L" "array_law L X"
    and table: "table_law X rows_of dat sat gid"
    and plain: "plain_name L ''granules''" and tip: "tip_ids L rows_of gid (remote p) j M"
    and run: "retract L X conf p = (Inr i :: 'b exn + _, p')"
  shows "tip_ids L rows_of gid (remote p') i (filter_mset (\<lambda>g. g \<noteq> ''G-100'') (M + {#''G-400''#}))"
    and "builds_on L (remote p) (remote p')"
proof -
  obtain t0 t1 t2 :: "('r, 's, 'd, 'b, 'o) transaction" and p1 p2 p3 u where
    opened: "repo_transaction L conf ''main'' ''retract G-100'' None None p = (Inr t0 :: 'b exn + _, p1)"
    and deletes: "on_tx (tx_delete L ''granules'' retract_predicate) t0 p1 = (Inr ((), t1) :: 'b exn + _, p2)"
    and other: "in_new_transaction L conf ''main'' ''concurrent unrelated ingest''
        (ingest L X 100 110 5 (row_table X ''G-400'' ''2026-03-04'' ''100:110'')) p2 = (Inr u :: 'b exn + unit, p3)"
    and commits: "on_tx (commit L) t1 p3 = (Inr (i, t2), p')"
    using run unfolding retract_def by (auto elim!: pbind_InrE)
  note t0 = opened_ready [OF laws(1,2) opened]
  note t1 = staged_on [OF delete_stages t0(1) _ deletes, unfolded t0, simplified]
  obtain k where between: "tip_ids L rows_of gid (remote p3) k (M + {#''G-400''#})" "builds_on L (remote p) (remote p3)"
    using block_ingest [OF laws plain _ other, unfolded t1, OF tip] by (auto simp: row_table_ids [OF table])
  then have "keeps_history L (remote t1) (remote p3)" by (simp add: t1(2) builds_on_def)
  note t2 = committed_on [OF t1(1) this commits]
  have match: "sat retract_predicate x \<longleftrightarrow> gid x = ''G-100''" for x using table unfolding table_law_def by blast
  note step = commit_delete_ids [OF laws(1-3) plain match t2(1) _ t2(3), unfolded t2(2), OF between(1)]
  show "tip_ids L rows_of gid (remote p') i (filter_mset (\<lambda>g. g \<noteq> ''G-100'') (M + {#''G-400''#}))"
    unfolding t2(4) by (rule step(1))
  show "builds_on L (remote p) (remote p')"
    unfolding t2(4) by (rule builds_on_trans [OF between(2) step(2)])
qed

text \<open>A tag moves no branch and no snapshot.\<close>

lemma tag_moves:
  assumes "tag_law L X" and run: "call_create_tag X t i p = (Inr u :: 'b exn + unit, p')"
  shows "keeps_history L (remote p) (remote p')" and "lookup_tag L (remote p') t = Inr i"
    and "tip_ids L rows_of gid (remote p) j M \<Longrightarrow> tip_ids L rows_of gid (remote p') j M"
proof -
  have same: "lookup_tag L (remote p') = (lookup_tag L (remote p))(t := Inr i)"
    "lookup_branch L (remote p') = lookup_branch L (remote p)"
    "lookup_snapshot L (remote p') = lookup_snapshot L (remote p)" "read_metadata L (remote p') = read_metadata L (remote p)"
    using assms unfolding tag_law_def by (auto simp: call_create_tag_def split: sum.splits)
  then show hist: "keeps_history L (remote p) (remote p')" and "lookup_tag L (remote p') t = Inr i"
    by (simp_all add: keeps_history_def)
  have "pointers_at L (remote p') = pointers_at L (remote p)" by (simp add: pointers_at_def same(3) fun_eq_iff)
  moreover from this have "store_ok L (remote p') = store_ok L (remote p)" by (simp add: store_ok_def same(4))
  ultimately show "tip_ids L rows_of gid (remote p) j M \<Longrightarrow> tip_ids L rows_of gid (remote p') j M"
    using snapshot_rows_keeps [OF _ hist, where rows_of = rows_of] by (auto simp: tip_ids_def tip_shows_def same(2))
qed

text \<open>Reading: what a scan at the tip, or at a tag set at an earlier tip, gives.\<close>

lemma scanned_rows:
  fixes L :: "('s, 'f :: zero, 'r, 'm, 'b, 'd, 'o, 'z) iceberg_lib_scheme"
  assumes table: "table_law X rows_of dat sat gid" and plain: "plain_name L ''granules''"
    and run: "scanned L X snap = (Inr d :: 'b exn + 'd)"
    and rows: "snapshot_rows L rows_of (remote snap) (snap_id snap) ''granules'' = Some R" "image_mset gid R = M"
  shows "mset (string_column X d ''granule_id'') = M" and "arrow_rows X d = size M"
proof -
  from run obtain t where t: "fst (snapshot_table L ''granules'' snap) = (Inr t :: 'b exn + _)"
    and scan: "scan_arrow X (remote snap) t = Inr d"
    by (auto simp: scanned_def rbind_Inr_iff dest!: lib_result_InrD)
  have "rows_of (table_metadata t) = R" by (rule table_read_rows [OF t rows(1)])
  moreover have "mset (string_column X d ''granule_id'') = image_mset gid (rows_of (table_metadata t))
      \<and> arrow_rows X d = size (rows_of (table_metadata t))"
    using table scan unfolding table_law_def by blast
  ultimately show "mset (string_column X d ''granule_id'') = M" "arrow_rows X d = size M"
    using rows(2) by auto
qed

lemma read_tip:
  assumes "lone L" and "repo_read L conf (Some ''main'') None None p = (Inr snap :: 'b exn + ('r, 's) hybrid_snapshot, p')"
    and "tip_ids L rows_of gid (remote p) i M"
  shows "remote p' = remote p" and "remote snap = remote p" and "snap_id snap = i"
  using read_main [OF assms(1,2)] assms(3) by (auto simp: tip_ids_def tip_shows_def)

lemma read_tag:
  assumes "lone L" and "repo_read L conf None (Some t) None p = (Inr snap :: 'b exn + ('r, 's) hybrid_snapshot, p')"
    and "lookup_tag L (remote p) t = Inr i"
  shows "remote p' = remote p" and "remote snap = remote p" and "snap_id snap = i"
  using assms let_others_lone [OF assms(1), of p]
  by (auto simp: repo_read_def snapshot_for_def snapshot_of_def call_lookup_tag_def
      elim!: pbind_InrE pthen_InrE dest!: lib_result_InrD)

lemma scan_tip:
  fixes L :: "('s, 'f :: zero, 'r, 'm, 'b, 'd, 'o, 'z) iceberg_lib_scheme"
  assumes table: "table_law X rows_of dat sat gid" and plain: "plain_name L ''granules''"
    and run: "scanned L X snap = (Inr d :: 'b exn + 'd)"
    and tip: "tip_ids L rows_of gid r i M" and at: "keeps_history L r (remote snap)" "snap_id snap = i"
  shows "mset (string_column X d ''granule_id'') = M" and "arrow_rows X d = size M"
proof -
  from tip obtain c R where c: "tip_shows L rows_of r i c" "c ''granules'' = Some R" "image_mset gid R = M"
    unfolding tip_ids_def by blast
  then have "snapshot_rows L rows_of (remote snap) (snap_id snap) ''granules'' = Some R"
    using snapshot_rows_keeps [OF _ at(1), where rows_of = rows_of] at(2) by (auto simp: tip_shows_def)
  from scanned_rows [OF table plain run this c(3)]
  show "mset (string_column X d ''granule_id'') = M" "arrow_rows X d = size M" .
qed

lemma seed_ids:
  fixes L :: "('s, 'f :: zero, 'r, 'm, 'b, 'd, 'o, 'z) iceberg_lib_scheme"
  assumes laws: "world_laws L" "lone L" "rows_law L rows_of dat sat" "zarr_law L" "array_law L X"
    and plain: "plain_name L ''granules''"
    and tip: "tip_shows L rows_of (remote p) j c" "c ''granules'' = None"
    and run: "seed L X conf p = (Inr u :: 'b exn + unit, p')"
  shows "\<exists>i. tip_ids L rows_of gid (remote p') i {#}"
proof -
  obtain "is" t i and t' :: "('r, 's, 'd, 'b, 'o) transaction"
    where create: "\<exists>sc loc pr ps so. is = [CreateTable ''granules'' sc loc pr ps so]"
    and t: "ready L is t" "remote t = remote p"
    and commit: "commit L t = (Inr i :: 'b exn + string, t')" and p': "remote p' = remote t'"
    using block_commits [OF laws(1,2) seed_stages [OF laws(4,5)] run [unfolded seed_def]] by metis
  from create obtain sc loc pr ps so where "is = [CreateTable ''granules'' sc loc pr ps so]" by blast
  with t(1) have "ready L [CreateTable ''granules'' sc loc pr ps so] t" by simp
  from commit_create_ids [where c = c and j = j, OF laws(1-3) plain this _ tip(2) commit] tip(1) t(2) p'
  show ?thesis by auto
qed

lemma granules_in_order: "sorted [''G-100'', ''G-200'']" "sorted [''G-200'', ''G-400'']"
  by code_simp+

lemma release_ids:
  fixes L :: "('s, 'f :: zero, 'r, 'm, 'b, 'd, 'o, 'z) iceberg_lib_scheme"
  assumes laws: "world_laws L" "lone L" "rows_law L rows_of dat sat" "zarr_law L" "array_law L X"
    and table: "table_law X rows_of dat sat gid" and tag: "tag_law L X"
    and plain: "plain_name L ''granules''" and tip: "tip_ids L rows_of gid (remote p) j M"
    and run: "release L X conf k p = (Inr u :: 'b exn + unit, p')"
  shows "\<exists>i. tip_ids L rows_of gid (remote p') i (M + {#''G-300''#})"
    and "keeps_history L (remote p) (remote p')" and "lookup_tag L (remote p') ''release-1'' = Inr k"
proof -
  obtain v p1 where tags: "call_create_tag X ''release-1'' k p = (Inr v :: 'b exn + unit, p1)"
    and block: "in_new_transaction L conf ''main'' ''later ingest''
      (ingest L X 300 310 9 (row_table X ''G-300'' ''2026-03-03'' ''300:310'')) p1 = (Inr u :: 'b exn + unit, p')"
    using run unfolding release_def by (auto elim!: pthen_InrE)
  note moved = tag_moves [OF tag tags]
  note last = block_ingest [OF laws plain moved(3) [OF tip] block]
  show "\<exists>i. tip_ids L rows_of gid (remote p') i (M + {#''G-300''#})"
    using last(1) by (simp add: row_table_ids [OF table])
  show "keeps_history L (remote p) (remote p')" "lookup_tag L (remote p') ''release-1'' = Inr k"
    using last(2) moved(1,2) by (auto simp: builds_on_def intro: keeps_history_trans)
qed

text \<open>
  C13. The concurrent writers' example does what its text says. On any libraries that behave as documented,
  if \<open>main\<close> gets to its end then it has printed: after Ben's and Anna's interleaved commits, both rows;
  after the replayed delete of Ben's, with an unrelated ingest in between, Anna's and the unrelated
  one; at the tag set on Anna's snapshot, still the two rows it had, although the branch has three.
\<close>

theorem script_report:
  fixes L :: "('s, 'f :: zero, 'r, 'm, 'b, 'd, 'o, 'z) iceberg_lib_scheme"
  assumes laws: "world_laws L" "lone L" "rows_law L rows_of dat sat" "zarr_law L" "array_law L X"
    and table: "table_law X rows_of dat sat gid" and tag: "tag_law L X" and plain: "plain_name L ''granules''"
    and start: "store_ok L (remote p)" "lookup_branch L (remote p) ''main'' = Inr j"
      "pointers_at L (remote p) j = Some ptrs" "map_of ptrs ''granules'' = None"
    and run: "script L X conf p = (Inr out :: 'b exn + _, p')"
  shows "both_rows out = [''G-100'', ''G-200''] \<and> remaining_rows out = [''G-200'', ''G-400'']
    \<and> fst (pinned out) = 2 \<and> fst (latest out) = 3"
proof -
  from run obtain u p1 snap1 p2 ben anna p3 tip p4 rows i6 p5 after p6 remaining v p7 pin p8 latest_snap p9
      pin_rows last_rows where
    seeds: "seed L X conf p = (Inr u :: 'b exn + unit, p1)"
    and look: "repo_read L conf (Some ''main'') None None p1 = (Inr snap1 :: 'b exn + ('r, 's) hybrid_snapshot, p2)"
    and race: "two_writers L X conf p2 = (Inr (ben, anna) :: 'b exn + _, p3)"
    and tip: "repo_read L conf (Some ''main'') None None p3 = (Inr tip :: 'b exn + ('r, 's) hybrid_snapshot, p4)"
    and rows: "scanned L X tip = (Inr rows :: 'b exn + _)"
    and retracts: "retract L X conf p4 = (Inr i6 :: 'b exn + _, p5)"
    and after: "repo_read L conf (Some ''main'') None None p5 = (Inr after :: 'b exn + ('r, 's) hybrid_snapshot, p6)"
    and remaining: "scanned L X after = (Inr remaining :: 'b exn + _)"
    and releases: "release L X conf anna p6 = (Inr v :: 'b exn + unit, p7)"
    and pin: "repo_read L conf None (Some ''release-1'') None p7 = (Inr pin :: 'b exn + ('r, 's) hybrid_snapshot, p8)"
    and last: "repo_read L conf (Some ''main'') None None p8 = (Inr latest_snap :: 'b exn + ('r, 's) hybrid_snapshot, p9)"
    and pin_rows: "scanned L X pin = (Inr pin_rows :: 'b exn + _)"
    and last_rows: "scanned L X latest_snap = (Inr last_rows :: 'b exn + _)"
    and out: "both_rows out = sort (string_column X rows ''granule_id'')"
      "remaining_rows out = sort (string_column X remaining ''granule_id'')"
      "fst (pinned out) = arrow_rows X pin_rows" "fst (latest out) = arrow_rows X last_rows"
    unfolding script_def by (auto elim!: pbind_InrE pthen_InrE)
  have "tip_shows L rows_of (remote p) j (snapshot_rows L rows_of (remote p) j)"
    using start by (simp add: tip_shows_def)
  moreover have "snapshot_rows L rows_of (remote p) j ''granules'' = None"
    using start(3,4) by (simp add: snapshot_rows_def Rows.table_rows_def)
  ultimately obtain i1 where "tip_ids L rows_of gid (remote p1) i1 {#}"
    using seed_ids [OF laws plain _ _ seeds] by blast
  note at1 = this
  note at3 = two_writers_ids [OF laws table plain _ race, unfolded read_tip(1) [OF laws(2) look at1], OF at1]
  note at4 = read_tip [OF laws(2) tip at3(1)]
  note at5 = retract_ids [OF laws table plain _ retracts, unfolded at4(1), OF at3(1)]
  note at6 = read_tip [OF laws(2) after at5(1)]
  note at7 = release_ids [OF laws table tag plain _ releases, unfolded at6(1), OF at5(1)]
  from at7(1) obtain i7 where tip7: "tip_ids L rows_of gid (remote p7) i7
    (filter_mset (\<lambda>g. g \<noteq> ''G-100'') ({#} + {#''G-100''#} + {#''G-200''#} + {#''G-400''#}) + {#''G-300''#})" by blast
  note at8 = read_tag [OF laws(2) pin at7(3)]
  note at9 = read_tip [OF laws(2) last, unfolded at8(1), OF tip7]
  have "keeps_history L (remote p3) (remote pin)"
    using at5(2) at7(2) by (auto simp: at8(2) builds_on_def intro: keeps_history_trans)
  note counts = scan_tip(2) [OF table plain pin_rows at3(1) this at8(3)]
    scan_tip(2) [OF table plain last_rows tip7 _ at9(3), unfolded at9(2), OF keeps_history_refl]
  have "mset (string_column X rows ''granule_id'') = mset [''G-100'', ''G-200'']"
    using scan_tip(1) [OF table plain rows at3(1) _ at4(3)] at4(2) by simp
  then have "sort (string_column X rows ''granule_id'') = [''G-100'', ''G-200'']"
    by (intro properties_for_sort granules_in_order) simp
  moreover have "mset (string_column X remaining ''granule_id'') = mset [''G-200'', ''G-400'']"
    using scan_tip(1) [OF table plain remaining at5(1) _ at6(3)] at6(2) by simp
  then have "sort (string_column X remaining ''granule_id'') = [''G-200'', ''G-400'']"
    by (intro properties_for_sort granules_in_order) simp
  ultimately show ?thesis using counts by (simp add: out)
qed

end
