(* ===== verification/Script_Run.thy ===== *)
theory Script_Run
  imports Concurrent_Writers Witnesses
begin

text \<open>
  The script \<open>examples/concurrent_writers.py\<close> run on the reference parameters: an array is one entry
  per chunk of ten elements, beside the nodes; an Arrow table is the list of its ids.
\<close>

definition chunk :: "string \<Rightarrow> nat \<Rightarrow> string" where
  "chunk name i = ''/'' @ name @ ''/'' @ dec (i div 10)"

definition small_example :: "(ref_session, ref_remote, ref_meta, string list, ref_obj, int) example_lib" where
  "small_example =
     \<lparr>create_array = (\<lambda>s name n k. (Inr (), s\<lparr>ref_attrs := dict_set (''/'' @ name) (JStr []) (ref_attrs s), ref_changed := True\<rparr>)),
      assign_slice = (\<lambda>s name a b vs. (Inr (), s\<lparr>ref_attrs := dict_set (chunk name a) (JInt (hd vs)) (ref_attrs s),
        ref_changed := True\<rparr>)),
      array_item = (\<lambda>s name i. Inr (case map_of (ref_attrs s) (chunk name i) of Some (JInt v) \<Rightarrow> v | _ \<Rightarrow> 0)),
      float32 = int,
      pa_schema = (\<lambda>fs. OPlain ''schema''),
      pa_table = (\<lambda>columns schema. case map_of columns ''granule_id'' of None \<Rightarrow> [] | Some ids \<Rightarrow> ids),
      scan_arrow = (\<lambda>r t. Inr (ref_rows (table_metadata t))),
      string_column = (\<lambda>d c. d),
      arrow_rows = length,
      unpartitioned = OPlain ''spec'',
      unsorted = OPlain ''order'',
      create_tag = (\<lambda>r t i. Inr (r\<lparr>ref_tags := dict_set t i (ref_tags r)\<rparr>)),
      ancestry = (\<lambda>r b. Inr (map (\<lambda>(i, md, attrs). (i, [], md)) (rev (ref_snapshots r))))\<rparr>"

definition script_run :: "((string list) exn + int report) \<times> ref_remote process" where
  "script_run = script L0 small_example conf0 (process_at fresh 0)"

lemma script_returns:
  "case fst script_run of
     Inl e \<Rightarrow> False
   | Inr out \<Rightarrow> both_pixels out = (1, 2) \<and> snd (pinned out) = 0 \<and> snd (latest out) = 9"
  by code_simp

subsection \<open>The theorem about the script applied to this run\<close>

lemma script_array_law: "array_law L0 small_example"
  by (simp add: array_law_def same_session_def small_example_def ref_lib_def)

lemma script_tag_law: "tag_law L0 small_example"
  by (auto simp: tag_law_def small_example_def ref_lib_def ref_find_set)

lemma retract_matches: "ref_matches retract_predicate = [''G-100'']"
  by code_simp

lemma script_table_law:
  "table_law small_example (\<lambda>m. mset (ref_rows m)) mset (\<lambda>p x. x \<in> set (ref_matches p)) id"
  by (auto simp: table_law_def retract_matches) (auto simp: small_example_def)

abbreviation script_out :: "int report" where
  "script_out \<equiv> projr (fst script_run)"

lemma script_runs: "script L0 small_example conf0 (process_at fresh 0) = (Inr script_out, snd script_run)"
proof -
  have "\<not> isl (fst script_run)" using script_returns by (auto simp: isl_def)
  from run_Inr [OF this] show ?thesis by (simp add: script_run_def)
qed

theorem script_report_witness:
  "both_rows script_out = [''G-100'', ''G-200''] \<and> remaining_rows script_out = [''G-200'', ''G-400'']
    \<and> fst (pinned script_out) = 2 \<and> fst (latest script_out) = 3"
  by (rule script_report [OF ref_alone_laws alone_lone ref_rows_law ref_zarr_law script_array_law script_table_law
        script_tag_law ref_plain_name _ _ _ _ script_runs])
    (auto simp: process_at_def fresh_facts)
end
