(* ===== verification/Hls_Notebook.thy ===== *)
theory Hls_Notebook
  imports Lone Paired Source
begin

text \<open>
  \<open>examples/hls_ingest.ipynb\<close>, cell by cell: choose granules in the archive, look at the first of them,
  open a store and make its table, ingest the batch, read it back and choose the granule to open. It is
  where the parts of the demo meet. What the cells take from the libraries beyond the demo's own calls
  is \<open>notebook_lib\<close>; displays of values that were computed before are left out, and so is the plot.
\<close>

subsection \<open>The libraries\<close>

record ('r, 't, 'm, 'o, 'g, 'f) notebook_lib =
  archive_schema_of :: "'t \<Rightarrow> 'o"
  registry_object :: "registry \<Rightarrow> 'g"
  open_repository :: "string \<Rightarrow> container \<Rightarrow> (string, credential) dict \<Rightarrow> string + 'r"
  scan_rows :: "'r \<Rightarrow> 'm iceberg_table \<Rightarrow> string + 'f arrow_table"
  below :: "'f json \<Rightarrow> int \<Rightarrow> bool"
  sort_values :: "string \<Rightarrow> 'f row list \<Rightarrow> 'f row list"

text \<open>The array path that a row names.\<close>

definition named_path :: "'f row \<Rightarrow> string option" where
  "named_path row = (case cell row ''array_path'' of JStr p \<Rightarrow> Some p | _ \<Rightarrow> None)"

text \<open>A scan finds the rows of the table, \<open>repr\<close> being what a row stands for; sorting keeps them.\<close>

definition frame_law ::
    "('r, 't, 'm, 'o, 'g, 'f, 'z) notebook_lib_scheme \<Rightarrow> ('m \<Rightarrow> 'a multiset) \<Rightarrow> ('a \<Rightarrow> string option)
     \<Rightarrow> ('f row \<Rightarrow> 'a) \<Rightarrow> bool" where
  "frame_law N rows_of path_of repr \<longleftrightarrow>
     (\<forall>r t d. scan_rows N r t = Inr d \<longrightarrow>
        image_mset repr (mset (table_rows d)) = rows_of (table_metadata t)
        \<and> (\<forall>row \<in> set (table_rows d). path_of (repr row) = named_path row))
     \<and> (\<forall>c rows. mset (sort_values N c rows) = mset rows)"

subsection \<open>Cells 1 to 4: the archive and one record\<close>

definition ACCESS :: string where
  "ACCESS = ''https''"

definition shown_columns :: "string list" where
  "shown_columns = [''id'', ''datetime'', ''proj:epsg'', ''proj:shape'', ''proj:transform'']"

text \<open>\<open>rows.select(names)\<close>.\<close>

definition select_columns :: "string list \<Rightarrow> 'f arrow_table \<Rightarrow> 'b exn + 'f arrow_table" where
  "select_columns names t =
     (case filter (\<lambda>c. c \<notin> set (column_names t)) names of
        [] \<Rightarrow> Inr \<lparr>column_names = names, table_rows = map (\<lambda>row. map (\<lambda>c. (c, cell row c)) names) (table_rows t)\<rparr>
      | c # _ \<Rightarrow> Inl (KeyError c []))"

definition archive_cell ::
    "('f, 'e, 't, 'z) archive_lib_scheme \<Rightarrow> 'b exn + 't \<times> 'f arrow_table" where
  "archive_cell A =
     rbind (open_archive A ''HLSL30_2.0'' ''v2'' ''us-west-2'') (\<lambda>archive.
     rbind (select_granules A archive None None None 5 DATETIME_FLOOR) (\<lambda>rows.
     rbind (select_columns shown_columns rows) (\<lambda>_. Inr (archive, rows))))"

definition first_row :: "'f arrow_table \<Rightarrow> 'b exn + 'f row" where
  "first_row t = (case table_rows t of [] \<Rightarrow> Inl IndexError | row # _ \<Rightarrow> Inr row)"

definition b04_url :: "'f :: zero row \<Rightarrow> 'b exn + string" where
  "b04_url row =
     rbind (asset_urls row DEFAULT_BANDS ACCESS) (\<lambda>urls.
     case map_of urls ''B04'' of None \<Rightarrow> Inl (KeyError ''B04'' []) | Some url \<Rightarrow> Inr url)"

text \<open>Counting the levels may never return (\<open>None\<close>): it follows offsets found in the file.\<close>

definition levels_cell ::
    "('s, 'x, 'g, 'f :: zero, 'z) store_lib_scheme \<Rightarrow> 'f row \<Rightarrow> 'g \<Rightarrow> ('b exn + (nat \<times> nat) list) option" where
  "levels_cell S row registry =
     (case rbind (b04_url row) (\<lambda>url. read_header S url registry) of
        Inl e \<Rightarrow> Some (Inl e) | Inr header \<Rightarrow> parse_ifds header)"

subsection \<open>Cells 5 to 7: the store, the batch, the rows read back\<close>

definition declare_cell ::
    "('s, 'f :: zero, 'r, 'm, 'b, 'd, 'o, 'z) iceberg_lib_scheme \<Rightarrow> ('o, 'ty, 'z4) schema_lib_scheme
     \<Rightarrow> hybrid_repo \<Rightarrow> 'o \<Rightarrow> ('r process, 'b exn, (string, string) dict) pgm" where
  "declare_cell L P conf source =
     pthen (ensure_table L P conf source ''granules'')
    (pbind (repo_read L conf (Some ''main'') None None) (\<lambda>created. plift (fst (snapshot_pointers L created))))"

definition rows_cell ::
    "('s, 'f :: zero, 'r, 'm, 'b, 'd, 'o, 'z) iceberg_lib_scheme \<Rightarrow> ('r, 't, 'm, 'o, 'g, 'f, 'z6) notebook_lib_scheme
     \<Rightarrow> hybrid_repo \<Rightarrow> ('r process, 'b exn, ('r, 's) hybrid_snapshot \<times> 'f arrow_table) pgm" where
  "rows_cell L N conf =
     pbind (repo_read L conf (Some ''main'') None None) (\<lambda>snap.
     pbind (plift (rbind (fst (snapshot_table L ''granules'' snap)) (\<lambda>t. lib_result (scan_rows N (remote snap) t)))) (\<lambda>granules.
     pret (snap, granules)))"

definition ingest_cells ::
    "('s, 'f :: zero, 'r, 'm, 'b, 'd, 'o, 'z) iceberg_lib_scheme \<Rightarrow> ('s, 'x, 'g, 'f, 'z1) store_lib_scheme
     \<Rightarrow> ('m, 'o, 'd, 'f, 'b, 'z2) batch_lib_scheme \<Rightarrow> ('f, 'z3) stac_hash_lib_scheme
     \<Rightarrow> ('o, 'ty, 'z4) schema_lib_scheme \<Rightarrow> ('f, 'z5) float_ops_scheme
     \<Rightarrow> ('r, 't, 'm, 'o, 'g, 'f, 'z6) notebook_lib_scheme
     \<Rightarrow> hybrid_repo \<Rightarrow> 't \<Rightarrow> 'f arrow_table \<Rightarrow> 'g
     \<Rightarrow> ('r process, 'b exn, batch_result \<times> ('r, 's) hybrid_snapshot \<times> 'f arrow_table) pgm" where
  "ingest_cells L S B H P F N conf archive rows registry =
     pbind (declare_cell L P conf (archive_schema_of N archive)) (\<lambda>_.
     pbind (ingest_batch L S B H conf rows registry DEFAULT_BANDS ACCESS
              (write_granule F S (open_pyramid S)) None ''granules'') (\<lambda>out.
     pbind (rows_cell L N conf) (\<lambda>(snap, granules). pret (out, snap, granules))))"

text \<open>
  The cells up to there. The login is the only thing outside the store that they change; the store's
  repository is what \<open>open_store\<close> finds or makes.
\<close>

definition store_cells ::
    "('w, 'y) auth_lib_scheme \<Rightarrow> ('s, 'f :: zero, 'r, 'm, 'b, 'd, 'o, 'z) iceberg_lib_scheme
     \<Rightarrow> ('s, 'x, 'g, 'f, 'z1) store_lib_scheme
     \<Rightarrow> ('m, 'o, 'd, 'f, 'b, 'z2) batch_lib_scheme \<Rightarrow> ('f, 'z3) stac_hash_lib_scheme
     \<Rightarrow> ('o, 'ty, 'z4) schema_lib_scheme \<Rightarrow> ('f, 'z5) float_ops_scheme
     \<Rightarrow> ('r, 't, 'm, 'o, 'g, 'f, 'z6) notebook_lib_scheme \<Rightarrow> 't \<Rightarrow> 'f arrow_table \<Rightarrow> 'g
     \<Rightarrow> ('w auth, 'b exn, batch_result \<times> ('r, 's) hybrid_snapshot \<times> 'f arrow_table) pgm" where
  "store_cells A L S B H P F N archive rows registry =
     pbind (open_store A (open_repository N) ''hls-demo-store'' None ACCESS None) (\<lambda>(r, conf) w.
     (fst (ingest_cells L S B H P F N conf archive rows registry \<lparr>remote = r, clock = 0, draws = 0\<rparr>), w))"

definition hls_notebook ::
    "('f, 'e, 't, 'y1) archive_lib_scheme \<Rightarrow> ('w, 'y) auth_lib_scheme
     \<Rightarrow> ('s, 'f :: zero, 'r, 'm, 'b, 'd, 'o, 'z) iceberg_lib_scheme
     \<Rightarrow> ('s, 'x, 'g, 'f, 'z1) store_lib_scheme
     \<Rightarrow> ('m, 'o, 'd, 'f, 'b, 'z2) batch_lib_scheme \<Rightarrow> ('f, 'z3) stac_hash_lib_scheme
     \<Rightarrow> ('o, 'ty, 'z4) schema_lib_scheme \<Rightarrow> ('f, 'z5) float_ops_scheme
     \<Rightarrow> ('r, 't, 'm, 'o, 'g, 'f, 'z6) notebook_lib_scheme \<Rightarrow> 'w auth
     \<Rightarrow> (('b exn + batch_result \<times> ('r, 's) hybrid_snapshot \<times> 'f arrow_table) \<times> 'w auth) option" where
  "hls_notebook Ar A L S B H P F N w =
     (case rbind (archive_cell Ar) (\<lambda>(archive, rows).
           rbind (first_row rows) (\<lambda>row.
           rbind (b04_url row) (\<lambda>_.
           rbind (band_reference row ''B04'') (\<lambda>_. Inr (archive, rows, row))))) of
        Inl e \<Rightarrow> Some (Inl e, w)
      | Inr (archive, rows, row) \<Rightarrow>
          (case object_store_registry A ACCESS None w of
             (Inl e, w') \<Rightarrow> Some (Inl e, w')
           | (Inr stores, w') \<Rightarrow>
               (case levels_cell S row (registry_object N stores) of
                  None \<Rightarrow> None
                | Some (Inl e) \<Rightarrow> Some (Inl e, w')
                | Some (Inr sizes) \<Rightarrow>
                    Some (pbind (plift (band_attrs F row 5 ''B04'')) (\<lambda>_.
                      store_cells A L S B H P F N archive rows (registry_object N stores)) w'))))"

subsection \<open>Cells 8 and 9: the granule to open\<close>

definition CLOUD_MAX :: int where
  "CLOUD_MAX = 20"

definition clear_rows ::
    "('r, 't, 'm, 'o, 'g, 'f, 'z) notebook_lib_scheme \<Rightarrow> 'f arrow_table \<Rightarrow> 'b exn + 'f row list" where
  "clear_rows N granules =
     rbind (column granules ''eo:cloud_cover'') (\<lambda>_.
     let clear = filter (\<lambda>row. below N (cell row ''eo:cloud_cover'') CLOUD_MAX) (table_rows granules)
     in Inr (sort_values N ''eo:cloud_cover'' (if clear = [] then table_rows granules else clear)))"

text \<open>\<open>clear.head(1).array_path.item()\<close>, the group that the last cell opens in the snapshot's store.\<close>

definition chosen_group ::
    "('r, 't, 'm, 'o, 'g, 'f, 'z) notebook_lib_scheme \<Rightarrow> 'f arrow_table \<Rightarrow> 'b exn + 'f json" where
  "chosen_group N granules =
     rbind (clear_rows N granules) (\<lambda>rows.
     if ''array_path'' \<notin> set (column_names granules) then Inl AttributeError
     else case rows of [] \<Rightarrow> Inl (LibError ''ValueError'') | row # _ \<Rightarrow> Inr (cell row ''array_path''))"

subsection \<open>The archive's part\<close>

lemma archive_cell_rows:
  assumes laws: "expr_law A" "scan_law A" and run: "archive_cell A = (Inr (archive, rows) :: 'b exn + _)"
  shows "int (num_rows rows) \<le> 5"
    and "set (table_rows rows) \<subseteq> {row \<in> set (table_content A archive). selected A None None None DATETIME_FLOOR row}"
proof -
  have "select_granules A archive None None None 5 DATETIME_FLOOR = (Inr rows :: 'b exn + _)"
    using run by (auto simp: archive_cell_def rbind_Inr_iff)
  from select_granules_rows [OF laws this]
  show "int (num_rows rows) \<le> 5"
    "set (table_rows rows) \<subseteq> {row \<in> set (table_content A archive). selected A None None None DATETIME_FLOOR row}"
    by auto
qed

subsection \<open>The table\<close>

lemma create_granules_stages:
  fixes L :: "('s, 'f :: zero, 'r, 'm, 'b, 'd, 'o, 'z) iceberg_lib_scheme"
  assumes "zarr_law L"
  shows "stages_intents L (\<lambda>is. \<exists>sc loc pr ps so. is = [CreateTable name sc loc pr ps so]) (create_granules L P source name)"
  unfolding stages_intents_def
proof (intro conjI allI impI create_granules_frame [OF assms])
  fix t t' :: "('r, 's, 'd, 'b, 'o) transaction" and u
  assume "create_granules L P source name t = (Inr u, t')"
  from create_granules_intent [OF this]
  show "\<exists>is. (\<exists>sc loc pr ps so. is = [CreateTable name sc loc pr ps so]) \<and> intents t' = intents t @ is" by blast
qed

text \<open>A table that is created has no rows, so no row of it dangles.\<close>

lemma create_sound:
  fixes L :: "('s, 'f :: zero, 'r, 'm, 'b, 'd, 'o, 'z) iceberg_lib_scheme"
  assumes laws: "world_laws L" "lone L" "zarr_law L" "rows_law L rows_of dat sat" "nodes_law L S"
    and plain: "plain_name L name" and start: "sound L S rows_of path_of name (remote p)"
    and tip: "lookup_branch L (remote p) ''main'' = Inr j" "pointers_at L (remote p) j = Some ptrs" "map_of ptrs name = None"
    and run: "in_new_transaction L conf ''main'' msg (create_granules L P source name) p = (Inr u :: 'b exn + unit, p')"
  shows "sound L S rows_of path_of name (remote p')"
proof -
  let ?c = "snapshot_rows L rows_of (remote p) j"
  obtain "is" t i and t' :: "('r, 's, 'd, 'b, 'o) transaction" where "\<exists>sc loc pr ps so. is = [CreateTable name sc loc pr ps so]"
    and t: "ready L is t" "remote t = remote p" and commit: "commit L t = (Inr i :: 'b exn + string, t')"
    and p': "remote p' = remote t'"
    using block_commits [OF laws(1,2) create_granules_stages [OF laws(3)] run] by metis
  then obtain sc loc pr ps so where is_eq: "is = [CreateTable name sc loc pr ps so]" by blast
  have ok: "store_ok L (remote t)" using start t(2) by (simp add: sound_def)
  have shows_c: "tip_shows L rows_of (remote t) j ?c" using ok tip t(2) by (simp add: tip_shows_def)
  have plain_is: "plain_name L (intent_name x)" if "x \<in> set is" for x using plain that by (simp add: is_eq)
  note step = commit_tip [OF laws(1,2,4) plain_is t(1) shows_c commit]
  have none: "?c name = None" using tip by (simp add: snapshot_rows_def Rows.table_rows_def)
  from step(1) obtain c' where c': "row_run dat sat is ?c = Some c'" "tip_shows L rows_of (remote t') i c'" by blast
  with none have empty: "snapshot_rows L rows_of (remote t') i name = Some {#}"
    by (auto simp: is_eq tip_shows_def)
  have "session_branch L (session t) = branch t" "branch t = ''main''" using t(1) by (simp_all add: ready_def synced_def)
  with commit_returned [OF laws(1) commit] obtain r where r: "unpublished L (remote t) r"
    and pub: "published L ''main'' i (current_pointers t') r (remote t')" by auto
  have ptrs: "pointers_at L (remote t') = (pointers_at L (remote t))(i := Some (current_pointers t'))"
    using published_pointers [OF pub] pointers_at_same_refs [OF unpublished_lone [OF laws(2) r]] by simp
  have "keeps_nodes L S (remote t) (remote t')"
    using keepsD [OF commit_nodes [OF laws(1,5), of "remote t"] commit] laws(2) by (simp add: world_frame_def lone_def)
  moreover have "keeps_history L (remote t) (remote t')" using step(2) by (simp add: builds_on_def)
  ultimately have "paired L S rows_of path_of name (remote t')"
    using start t(2) by (intro paired_grown [OF _ _ _ ptrs]) (simp_all add: empty)
  with c'(2) show ?thesis by (simp add: sound_def tip_shows_def p')
qed

lemma ensure_table_sound:
  fixes L :: "('s, 'f :: zero, 'r, 'm, 'b, 'd, 'o, 'z) iceberg_lib_scheme"
  assumes laws: "world_laws L" "lone L" "zarr_law L" "rows_law L rows_of dat sat" "nodes_law L S"
    and plain: "plain_name L name" and start: "sound L S rows_of path_of name (remote p)"
    and run: "ensure_table L P conf source name p = (Inr u :: 'b exn + unit, p')"
  shows "sound L S rows_of path_of name (remote p')"
proof -
  from run obtain snap p1 ptrs where rd: "repo_read L conf (Some ''main'') None None p
        = (Inr snap :: 'b exn + ('r, 's) hybrid_snapshot, p1)"
    and ptrs: "fst (snapshot_pointers L snap) = (Inr ptrs :: 'b exn + _)"
    and rest: "(if dict_has ptrs name then pret () else in_new_transaction L conf ''main'' (''create '' @ name @ '' table'')
        (create_granules L P source name)) p1 = (Inr u :: 'b exn + unit, p')"
    by (auto simp: ensure_table_def elim!: pbind_InrE)
  note at = read_main_pointers [OF rd ptrs] and same = read_main(1) [OF laws(2) rd]
  show ?thesis
  proof (cases "dict_has ptrs name")
    case True
    with rest start same show ?thesis by simp
  next
    case False
    then have none: "map_of ptrs name = None" by (simp add: domIff)
    from False rest have block: "in_new_transaction L conf ''main'' (''create '' @ name @ '' table'')
        (create_granules L P source name) p1 = (Inr u :: 'b exn + unit, p')" by simp
    from start have "sound L S rows_of path_of name (remote p1)" by (simp only: same)
    then show ?thesis by (rule create_sound [OF laws plain _ at(2,3) none block])
  qed
qed

subsection \<open>The batch, read back\<close>

text \<open>Arrow: the table built from a list of rows has as many.\<close>

definition count_law ::
    "('m, 'o, 'd, 'f, 'b, 'y) batch_lib_scheme \<Rightarrow> ('d \<Rightarrow> 'a multiset) \<Rightarrow> bool" where
  "count_law B dat \<longleftrightarrow>
     (\<forall>rows schema d. table_from_pylist B rows schema = Inr d \<longrightarrow>
        size (dat (sort_ascending B d HASH_COLUMN)) = length rows)"

lemma committed_ids:
  assumes hashed: "with_stac_hash H rows PARTITION_BITS = (Inr hashed :: 'b exn + _)"
    and books: "accounts (table_rows hashed) (b :: ('r, 's, 'd, 'b, 'o, 'f) batch)"
  shows "set (committed b) \<subseteq> {g. \<exists>row \<in> set (table_rows rows). row_id row = (Inr g :: 'b exn + string)}"
    and "length (committed b) \<le> num_rows rows"
proof -
  have kept: "list_all2 (kept_as (table_rows hashed)) (committed b) (kept b)" and uniq: "distinct (committed b)"
    using books by (simp_all add: accounts_def)
  have one: "\<exists>row \<in> set (table_rows rows). map_of row ''id'' = Some (JStr g)" if "g \<in> set (committed b)" for g
  proof -
    from that obtain i where "i < length (committed b)" "g = committed b ! i" by (auto simp: in_set_conv_nth)
    with kept have "kept_as (table_rows hashed) g (kept b ! i)" by (simp add: list_all2_nthD)
    then obtain r where r: "r \<in> set (table_rows hashed)" "row_id r = (Inr g :: unit exn + string)"
      by (auto simp: kept_as_def)
    from with_stac_hash_ids [OF hashed r(1)] r(2) show ?thesis by (auto simp: row_id_Inr)
  qed
  then show "set (committed b) \<subseteq> {g. \<exists>row \<in> set (table_rows rows). row_id row = (Inr g :: 'b exn + string)}"
    by (auto simp: row_id_Inr)
  let ?id = "\<lambda>row :: 'f row. case map_of row ''id'' of Some (JStr g) \<Rightarrow> g | _ \<Rightarrow> []"
  have "set (committed b) \<subseteq> ?id ` set (table_rows rows)" using one by force
  then have "card (set (committed b)) \<le> card (?id ` set (table_rows rows))" by (intro card_mono) simp_all
  also have "\<dots> \<le> num_rows rows" unfolding num_rows_def by (meson card_image_le card_length finite_set le_trans)
  finally show "length (committed b) \<le> num_rows rows" using uniq by (simp add: distinct_card)
qed

lemma batch_read_back:
  fixes L :: "('s, 'f :: zero, 'r, 'm, 'b, 'd, 'o, 'z) iceberg_lib_scheme"
    and path_of :: "'a \<Rightarrow> string option"
  assumes laws: "world_laws L" "writer_law L S (\<lambda>row. writer row registry bands access)" "store_session_law L S"
    and arrays: "presence_law S" "link_law S (\<lambda>row. writer row registry bands access)" "nodes_law L S"
    and tables: "rows_law L rows_of dat sat" "arrow_law B dat path_of" "count_law B dat" "plain_name L name"
    and ids: "\<And>row. row \<in> set (table_rows rows) \<Longrightarrow> \<exists>g. row_id row = (Inr g :: 'b exn + string) \<and> plain_component g"
    and lone: "lone L" and start: "sound L S rows_of path_of name (remote p)"
    and run: "ingest_batch L S B H conf rows registry bands access writer msg name p = (Inr out :: 'b exn + _, p1)"
    and rd: "repo_read L conf (Some ''main'') None None p1 = (Inr snap :: 'b exn + ('r, 's) hybrid_snapshot, p2)"
    and tab: "fst (snapshot_table L name snap) = (Inr t :: 'b exn + 'm iceberg_table)"
  shows "snap_id snap = result_snapshot_id out" and "rows_of (table_metadata t) \<noteq> {#}"
    and "x \<in># rows_of (table_metadata t) \<Longrightarrow> path_of x = Some q \<Longrightarrow>
      granule_path q \<and> holds_node L S (remote snap) (snap_id snap) q"
    and "set (result_committed out) \<subseteq> {g. \<exists>row \<in> set (table_rows rows). row_id row = (Inr g :: 'b exn + string)}"
    and "length (result_committed out) \<le> num_rows rows"
proof -
  have ok: "store_ok L (remote p)" using start by (simp add: sound_def)
  have others: "store_ok L r \<Longrightarrow> store_ok L (others L n r)" for n r using lone by (simp add: lone_def)
  obtain hashed and batch :: "('r, 's, 'd, 'b, 'o, 'f) batch" and d m r j R
    where hashed: "with_stac_hash H rows PARTITION_BITS = (Inr hashed :: 'b exn + _)"
    and books: "accounts (table_rows hashed) batch" "result_committed out = committed batch" "kept batch \<noteq> []"
    and table: "table_from_pylist B (kept batch) (schema_as_arrow B m) = Inr d"
    and rows: "snapshot_rows L rows_of (remote p1) (result_snapshot_id out)
        = (snapshot_rows L rows_of r j)(name \<mapsto> R + dat (sort_ascending B d HASH_COLUMN))"
    and main: "lookup_branch L (remote p1) ''main'' = Inr (result_snapshot_id out)"
    using ingest_batch_adds [OF laws tables(1,4) others ok lone_pause [OF lone] run] by blast
  note at = read_main [OF lone rd]
  from at(3) main show id: "snap_id snap = result_snapshot_id out" by simp
  have there: "snapshot_rows L rows_of (remote snap) (snap_id snap) name = Some (R + dat (sort_ascending B d HASH_COLUMN))"
    by (simp add: at(2) id rows)
  note read = table_read_rows [OF tab there]
  have "size (dat (sort_ascending B d HASH_COLUMN)) = length (kept batch)"
    using tables(3) table unfolding count_law_def by blast
  with books(3) show "rows_of (table_metadata t) \<noteq> {#}" by (auto simp: read)
  have "sound L S rows_of path_of name (remote p1)"
    by (rule ingest_batch_sound [OF laws arrays tables(1,2,4) ids lone_neighbours [OF lone] lone_pause [OF lone] start run])
  then have "paired L S rows_of path_of name (remote snap)" by (simp add: at(2) sound_def)
  from pairedD [OF this there] show "x \<in># rows_of (table_metadata t) \<Longrightarrow> path_of x = Some q \<Longrightarrow>
      granule_path q \<and> holds_node L S (remote snap) (snap_id snap) q" by (simp add: read)
  show "set (result_committed out) \<subseteq> {g. \<exists>row \<in> set (table_rows rows). row_id row = (Inr g :: 'b exn + string)}"
    "length (result_committed out) \<le> num_rows rows"
    unfolding books(2) by (rule committed_ids [OF hashed books(1)])+
qed

subsection \<open>The whole notebook\<close>

lemma notebook_stages:
  assumes "hls_notebook Ar A L S B H P F N w = Some (Inr (out, snap, granules) :: 'b exn + _, w')"
  obtains archive rows registry c r conf p where "archive_cell Ar = (Inr (archive, rows) :: 'b exn + _)"
    and "open_repository N (path_join ''hls-demo-store'' ''icechunk'') c (container_credentials ACCESS) = Inr r"
    and "ingest_cells L S B H P F N conf archive rows registry \<lparr>remote = r, clock = 0, draws = 0\<rparr>
      = (Inr (out, snap, granules) :: 'b exn + _, p)"
proof -
  from assms obtain archive rows row stores w1 where first: "archive_cell Ar = (Inr (archive, rows) :: 'b exn + _)"
    and rest: "pbind (plift (band_attrs F row 5 ''B04'')) (\<lambda>_. store_cells A L S B H P F N archive rows
      (registry_object N stores)) w1 = (Inr (out, snap, granules) :: 'b exn + _, w')"
    by (auto simp: hls_notebook_def rbind_Inr_iff split: sum.splits prod.splits option.splits)
  then obtain w2 where "store_cells A L S B H P F N archive rows (registry_object N stores) w2
      = (Inr (out, snap, granules) :: 'b exn + _, w')"
    by (auto elim!: pbind_InrE)
  then obtain r conf w3 where opened: "open_store A (open_repository N) ''hls-demo-store'' None ACCESS None w2
        = (Inr (r, conf) :: 'b exn + _, w3)"
    and ingested: "fst (ingest_cells L S B H P F N conf archive rows (registry_object N stores)
        \<lparr>remote = r, clock = 0, draws = 0\<rparr>) = (Inr (out, snap, granules) :: 'b exn + _)"
    by (auto simp: store_cells_def elim!: pbind_InrE)
  from opened obtain c where "open_repository N (path_join ''hls-demo-store'' ''icechunk'') c (container_credentials ACCESS) = Inr r"
    by (auto simp: open_store_def elim!: pbind_InrE dest!: lib_result_InrD)
  with first ingested show thesis using that by (metis prod.collapse)
qed

lemma mset_head:
  assumes "mset xs = mset ys" and "ys \<noteq> []"
  shows "\<exists>x xs'. xs = x # xs' \<and> x \<in> set ys"
  using assms mset_eq_setD [OF assms(1)] by (cases xs) auto

lemma chosen_group_rows:
  assumes law: "frame_law N rows_of path_of repr" and "table_rows granules \<noteq> []"
    and cols: "''eo:cloud_cover'' \<in> set (column_names granules)" "''array_path'' \<in> set (column_names granules)"
  shows "\<exists>row \<in> set (table_rows granules). chosen_group N granules = (Inr (cell row ''array_path'') :: 'b exn + _)"
proof -
  let ?clear = "filter (\<lambda>row. below N (cell row ''eo:cloud_cover'') CLOUD_MAX) (table_rows granules)"
  let ?picked = "if ?clear = [] then table_rows granules else ?clear"
  have same: "mset (sort_values N ''eo:cloud_cover'' ?picked) = mset ?picked"
    using law unfolding frame_law_def by blast
  have "?picked \<noteq> []" using assms(2) by simp
  from mset_head [OF same this] obtain row rest where rows: "sort_values N ''eo:cloud_cover'' ?picked = row # rest"
    and "row \<in> set ?picked" by blast
  then have "row \<in> set (table_rows granules)" by (simp split: if_splits)
  moreover have "clear_rows N granules = (Inr (row # rest) :: 'b exn + _)"
    using cols(1) unfolding clear_rows_def column_def Let_def rows by (simp only: rbind_simps if_True)
  then have "chosen_group N granules = (Inr (cell row ''array_path'') :: 'b exn + _)"
    using cols(2) by (simp add: chosen_group_def)
  ultimately show ?thesis by blast
qed

text \<open>
  C14. What the demo's notebook shows. If its cells up to the read-back return, in a store that keeps the
  promise of the package and that nobody else works on, then at most five granules were committed,
  each a record of the archive past the date floor; the rows read back are those of the very snapshot
  the batch published, and there is at least one; and the group that the last cell opens, the
  \<open>array_path\<close> of the clearest granule (or of the least cloudy one, when none is clear), can always be
  named and is a node of that snapshot.
\<close>

theorem notebook_opens_published:
  fixes L :: "('s, 'f :: zero, 'r, 'm, 'b, 'd, 'o, 'z) iceberg_lib_scheme" and path_of :: "'a \<Rightarrow> string option"
  assumes archive: "expr_law Ar" "scan_law Ar"
    and tables: "world_laws L" "lone L" "zarr_law L" "rows_law L rows_of dat sat" "plain_name L ''granules''"
    and arrays: "write_law S" "store_session_law L S" "presence_law S" "nodes_law L S" "tree_law S"
      "pyramid_law (open_pyramid S :: _ \<Rightarrow> _ \<Rightarrow> 'b exn + _)"
    and arrow: "arrow_law B dat path_of" "count_law B dat" "frame_law N rows_of path_of repr"
    and ids: "\<And>a row. open_archive Ar ''HLSL30_2.0'' ''v2'' ''us-west-2'' = (Inr a :: 'b exn + _) \<Longrightarrow>
      row \<in> set (table_content Ar a) \<Longrightarrow> \<exists>g. row_id row = (Inr g :: 'b exn + string) \<and> plain_component g"
    and start: "\<And>path c creds r. open_repository N path c creds = Inr r \<Longrightarrow> sound L S rows_of path_of ''granules'' r"
    and run: "hls_notebook Ar A L S B H P F N w = Some (Inr (out, snap, granules) :: 'b exn + _, w')"
    and cols: "''eo:cloud_cover'' \<in> set (column_names granules)" "''array_path'' \<in> set (column_names granules)"
  shows "length (result_committed out) \<le> 5
    \<and> (\<forall>g \<in> set (result_committed out). \<exists>a row. open_archive Ar ''HLSL30_2.0'' ''v2'' ''us-west-2'' = (Inr a :: 'b exn + _)
         \<and> row \<in> set (table_content Ar a) \<and> selected Ar None None None DATETIME_FLOOR row
         \<and> row_id row = (Inr g :: 'b exn + string))
    \<and> snap_id snap = result_snapshot_id out \<and> table_rows granules \<noteq> []
    \<and> (\<exists>v. chosen_group N granules = (Inr v :: 'b exn + _)
         \<and> (\<forall>p. v = JStr p \<longrightarrow> granule_path p \<and> holds_node L S (remote snap) (snap_id snap) p))"
proof -
  obtain a rows registry c r conf p where cell: "archive_cell Ar = (Inr (a, rows) :: 'b exn + _)"
    and opened: "open_repository N (path_join ''hls-demo-store'' ''icechunk'') c (container_credentials ACCESS) = Inr r"
    and ingested: "ingest_cells L S B H P F N conf a rows registry \<lparr>remote = r, clock = 0, draws = 0\<rparr>
      = (Inr (out, snap, granules) :: 'b exn + _, p)"
    by (rule notebook_stages [OF run])
  from ingested obtain p1 created p2 p3 p4 t where
    ensures: "ensure_table L P conf (archive_schema_of N a) ''granules'' \<lparr>remote = r, clock = 0, draws = 0\<rparr>
        = (Inr () :: 'b exn + unit, p1)"
    and look: "repo_read L conf (Some ''main'') None None p1 = (Inr created :: 'b exn + ('r, 's) hybrid_snapshot, p2)"
    and batch: "ingest_batch L S B H conf rows registry DEFAULT_BANDS ACCESS (write_granule F S (open_pyramid S)) None
        ''granules'' p2 = (Inr out :: 'b exn + _, p3)"
    and read: "repo_read L conf (Some ''main'') None None p3 = (Inr snap :: 'b exn + ('r, 's) hybrid_snapshot, p4)"
    and tab: "fst (snapshot_table L ''granules'' snap) = (Inr t :: 'b exn + 'm iceberg_table)"
    and scan: "scan_rows N (remote snap) t = Inr granules"
    by (auto simp: ingest_cells_def declare_cell_def rows_cell_def rbind_Inr_iff elim!: pbind_InrE pthen_InrE dest!: lib_result_InrD)
  have sound1: "sound L S rows_of path_of ''granules'' (remote p1)"
    by (rule ensure_table_sound [OF tables(1-4) arrays(4) tables(5) _ ensures]) (simp add: start [OF opened])
  then have sound2: "sound L S rows_of path_of ''granules'' (remote p2)" by (simp only: read_main(1) [OF tables(2) look])
  have content: "open_archive Ar ''HLSL30_2.0'' ''v2'' ''us-west-2'' = (Inr a :: 'b exn + _)"
    using cell by (auto simp: archive_cell_def rbind_Inr_iff)
  note chosen_rows = archive_cell_rows [OF archive cell]
  then have plain: "\<exists>g. row_id row = (Inr g :: 'b exn + string) \<and> plain_component g" if "row \<in> set (table_rows rows)" for row
    using ids [OF content] that by blast
  note seen = batch_read_back [OF tables(1) write_granule_law [OF arrays(1,2)] arrays(2,3)
      write_granule_links [OF arrays(6,5)] arrays(4) tables(4) arrow(1,2) tables(5) plain tables(2) sound2 batch read tab]
  have rows_back: "image_mset repr (mset (table_rows granules)) = rows_of (table_metadata t)"
    and named: "\<forall>row \<in> set (table_rows granules). path_of (repr row) = named_path row"
    using arrow(3) scan unfolding frame_law_def by blast+
  then have some_rows: "table_rows granules \<noteq> []" using seen(2) by auto
  from chosen_group_rows [OF arrow(3) this cols] obtain row where row: "row \<in> set (table_rows granules)"
    and group: "chosen_group N granules = (Inr (cell row ''array_path'') :: 'b exn + _)" by blast
  have "granule_path q \<and> holds_node L S (remote snap) (snap_id snap) q" if "cell row ''array_path'' = JStr q" for q
  proof (rule seen(3))
    show "repr row \<in># rows_of (table_metadata t)" using row by (simp add: rows_back [symmetric])
    show "path_of (repr row) = Some q" using named row that by (simp add: named_path_def)
  qed
  moreover have "\<exists>row. row \<in> set (table_content Ar a) \<and> selected Ar None None None DATETIME_FLOOR row
      \<and> row_id row = (Inr g :: 'b exn + string)" if "g \<in> set (result_committed out)" for g
    using seen(4) that chosen_rows(2) by blast
  ultimately show ?thesis using content seen(1,5) chosen_rows(1) some_rows group by auto
qed

end
