(* ===== verification/Notebook_Run.thy ===== *)
theory Notebook_Run
  imports Demo_Witnesses Hls_Notebook
begin

text \<open>
  The notebook \<open>examples/hls_ingest.ipynb\<close> run on the reference parameters: an archive of two records, a
  COG of one level behind every URL, a new repository. A row of the table is its array path.
\<close>

text \<open>The projection's code is kept small, as naturals are evaluated in unary.\<close>

definition record_of :: "string \<Rightarrow> int row" where
  "record_of gid = dict_set ''proj:epsg'' (JInt 4) (granule gid)"

definition small_archive :: "(int, int row \<Rightarrow> bool, int row list) archive_lib" where
  "small_archive = listed\<lparr>static_table := (\<lambda>url props. Inr (map record_of [''a'', ''b''])),
     scan := (\<lambda>t p n. Inr \<lparr>column_names = shown_columns @ [''bbox'', ''assets''], table_rows = take (nat n) (filter p t)\<rparr>)\<rparr>"

definition cog_store :: "(ref_session, ref_data, unit, int) store_lib" where
  "cog_store = ref_store\<lparr>open_virtual_datatree := (\<lambda>url g n mode. Inr [(''0'', ([''data''], url))]),
     get_range := (\<lambda>g path i n. Inr [0x49, 0x49, 42, 0, 0, 0, 0, 0])\<rparr>"

definition path_row :: "string \<Rightarrow> int row" where
  "path_row p = (if p = [] then [] else [(''array_path'', JStr p)])"

definition row_name :: "int row \<Rightarrow> string" where
  "row_name row = (case named_path row of None \<Rightarrow> [] | Some p \<Rightarrow> p)"

definition name_path :: "string \<Rightarrow> string option" where
  "name_path x = (if x = [] then None else Some x)"

definition small_notebook :: "(ref_remote, int row list, ref_meta, ref_obj, unit, int) notebook_lib" where
  "small_notebook =
     \<lparr>archive_schema_of = (\<lambda>t. OPlain ''source''), registry_object = (\<lambda>stores. ()),
      open_repository = (\<lambda>path c creds. Inr fresh),
      scan_rows = (\<lambda>r t. Inr \<lparr>column_names = [''array_path'', ''eo:cloud_cover''],
        table_rows = map path_row (ref_rows (table_metadata t))\<rparr>),
      below = (\<lambda>v n. case v of JInt i \<Rightarrow> i < n | _ \<Rightarrow> False),
      sort_values = (\<lambda>c rows. rows)\<rparr>"

subsection \<open>The run\<close>

text \<open>
  Up to the header the run is evaluated; the levels of the header, on words, are walked by the lemma
  on the walk; the rest is evaluated again.
\<close>

type_synonym opened = "int row list \<times> int arrow_table \<times> int row"

definition first_cells :: "(string list) exn + opened" where
  "first_cells = rbind (archive_cell small_archive) (\<lambda>(archive, rows).
     rbind (first_row rows) (\<lambda>row. rbind (b04_url row) (\<lambda>_. rbind (band_reference row ''B04'') (\<lambda>_. Inr (archive, rows, row)))))"

definition login :: "((string list) exn + registry) \<times> nat auth" where
  "login = object_store_registry logged_in ACCESS None at_start"

definition last_cells ::
    "((string list) exn + batch_result \<times> (ref_remote, ref_session) hybrid_snapshot \<times> int arrow_table) \<times> nat auth" where
  "last_cells = (case projr first_cells of (archive, rows, row) \<Rightarrow>
     pbind (plift (band_attrs ints row 5 ''B04'')) (\<lambda>_.
       store_cells logged_in L0 cog_store path_batch constant_hash some_schema ints small_notebook archive rows ())
       (snd login))"

lemma no_levels: "parse_ifds [0x49, 0x49, 42, 0, 0, 0, 0, 0] = (Some (Inr []) :: ('b exn + _) option)"
  by (simp add: parse_ifds_def byte_order_def unpack2_def field_at_def Let_def ifd_step_def walk_unfold [of False _ 0])

lemma cog_levels:
  assumes "b04_url row = (Inr url :: 'b exn + _)"
  shows "levels_cell cog_store row () = (Some (Inr []) :: ('b exn + _) option)"
  using assms by (simp add: levels_cell_def read_header_def cog_store_def ref_store_def no_levels)

lemma first_goes: "\<not> isl first_cells"
  by code_simp

lemma login_goes: "\<not> isl (fst login)"
  by code_simp

lemma last_goes:
  "case fst last_cells of
     Inl e \<Rightarrow> False
   | Inr (out, snap, found) \<Rightarrow> result_committed out = [''a'', ''b''] \<and> length (table_rows found) = 2
       \<and> column_names found = [''array_path'', ''eo:cloud_cover'']"
  by code_simp

lemma notebook_returns:
  obtains out snap found where
    "hls_notebook small_archive logged_in L0 cog_store path_batch constant_hash some_schema ints small_notebook at_start
       = Some (Inr (out, snap, found), snd last_cells)"
    and "result_committed out = [''a'', ''b'']" and "length (table_rows found) = 2"
    and "column_names found = [''array_path'', ''eo:cloud_cover'']"
proof -
  obtain archive rows row where first: "first_cells = Inr (archive, rows, row)"
    using first_goes by (cases first_cells) (auto simp: isl_def)
  then obtain url where "b04_url row = (Inr url :: (string list) exn + string)"
    by (auto simp: first_cells_def rbind_Inr_iff)
  note levels = cog_levels [OF this]
  obtain stores where stores: "login = (Inr stores, snd login)"
    using login_goes by (metis isl_def prod.collapse sum.exhaust)
  obtain out snap found where last: "last_cells = (Inr (out, snap, found), snd last_cells)"
    and facts: "result_committed out = [''a'', ''b'']" "length (table_rows found) = 2"
      "column_names found = [''array_path'', ''eo:cloud_cover'']"
    using last_goes by (cases last_cells; cases "fst last_cells") (auto simp: prod_eq_iff)
  have nb: "registry_object small_notebook st = ()" for st by simp
  have "hls_notebook small_archive logged_in L0 cog_store path_batch constant_hash some_schema ints small_notebook at_start
      = Some last_cells"
    unfolding hls_notebook_def first_cells_def [symmetric] login_def [symmetric] first
    by (subst stores) (simp add: nb levels last_cells_def first)
  with last facts that show thesis by metis
qed

subsection \<open>The theorem about the notebook applied to this run\<close>

lemma small_archive_laws: "expr_law small_archive" "scan_law small_archive"
  by (auto simp: expr_law_def scan_law_def small_archive_def listed_def num_rows_def row_starts_def
      dest!: in_set_takeD split: json.split)

lemma cog_fields:
  "node cog_store = node ref_store" "to_icechunk cog_store = to_icechunk ref_store" "chunk_path cog_store = chunk_path ref_store"
  "data_vars cog_store = data_vars ref_store" "open_group_at cog_store = open_group_at ref_store"
  "update_attrs_at cog_store = update_attrs_at ref_store" "delete_dir cog_store = delete_dir ref_store"
  "zarr_open_r cog_store = zarr_open_r ref_store"
  by (simp_all add: cog_store_def)

lemma cog_laws: "write_law cog_store" "store_session_law L0 cog_store" "presence_law cog_store" "nodes_law L0 cog_store"
proof -
  show "write_law cog_store"
    using ref_write_law unfolding write_law_def touches_only_def cog_fields .
  show "store_session_law L0 cog_store"
    using ref_store_session unfolding store_session_law_def cog_fields .
  show "presence_law cog_store"
    using ref_presence_law unfolding presence_law_def cog_fields .
  show "nodes_law L0 cog_store"
    using ref_nodes_law unfolding nodes_law_def session_nodes_law_def rebase_nodes_law_def keeps_nodes_def holds_node_def cog_fields .
qed

lemma prefix_is_listed:
  assumes "under q p" and "q \<noteq> []"
  shows "q \<in> set (path_prefixes p)"
proof -
  have "prefix q p" using assms(1) by (auto simp: under_def dest: append_prefixD)
  then have "q = take (length q) p" and "length q \<le> length p" by (auto simp: prefix_def)
  moreover from this have "length q \<in> {1..<Suc (length p)}" using assms(2) by (simp add: Suc_le_eq)
  ultimately have "q \<in> (\<lambda>i. take i p) ` {1..<Suc (length p)}" by blast
  with assms(1) show ?thesis by (auto simp: path_prefixes_def)
qed

lemma groups_above: "under q p \<Longrightarrow> ref_node (require_groups p s) q \<noteq> None"
  using prefix_is_listed [of q p] by (cases "q = []") (auto simp: ref_node_groups)

lemma groups_kept: "ref_node s q \<noteq> None \<Longrightarrow> ref_node (require_groups p s) q \<noteq> None"
  by (simp add: ref_node_groups)

lemma arrays_kept: "ref_node s q \<noteq> None \<Longrightarrow> ref_node (write_arrays p d s) q \<noteq> None"
  by (simp add: write_arrays_def ref_node_arrays)

lemma cog_tree_law: "tree_law cog_store"
  unfolding tree_law_def cog_fields ref_store_fields
  by (auto simp: ref_store_def arrays_kept groups_kept groups_above simp del: not_None_eq split: list.splits option.splits znode.splits)

lemma dec_0: "dec 0 = ''0''"
  by code_simp

lemma cog_pyramid_law: "pyramid_law (open_pyramid cog_store :: _ \<Rightarrow> _ \<Rightarrow> 'b exn + _)"
  using dec_0 by (auto simp: pyramid_law_def open_pyramid_def cog_store_def)

lemma path_batch_laws: "arrow_law path_batch mset name_path" "count_law path_batch mset"
  by (auto simp: arrow_law_def count_law_def path_batch_def name_path_def split: json.splits if_splits)

lemma path_row_named: "named_path (path_row p) = name_path p" "row_name (path_row p) = p"
  by (simp_all add: row_name_def named_path_def path_row_def name_path_def cell_def)

lemma small_frame_law: "frame_law small_notebook (\<lambda>m. mset (ref_rows m)) name_path row_name"
  by (auto simp: frame_law_def small_notebook_def path_row_named multiset.map_comp comp_def simp flip: mset_map)

lemma record_ids: "row_id (record_of g) = (Inr g :: 'b exn + string)"
  by (simp add: record_of_def row_id_def item_def granule_def)

lemma fresh_sound: "sound L0 cog_store (\<lambda>m. mset (ref_rows m)) name_path ''granules'' fresh"
proof -
  have "snapshot_rows L0 (\<lambda>m. mset (ref_rows m)) fresh i ''granules'' = None" for i
    by (auto simp: snapshot_rows_def pointers_at_def Rows.table_rows_def ref_lib_def fresh_def ref_lookup_def
        commit_metadata_def pointers_of_meta_def split: option.splits if_splits sum.splits)
  then show ?thesis using fresh_facts(1) by (simp add: sound_def paired_def)
qed

text \<open>Both rows count as not clear, having no cloud cover: the fallback takes them all.\<close>

theorem notebook_opens_published_witness:
  "\<exists>out snap found w. hls_notebook small_archive logged_in L0 cog_store path_batch constant_hash some_schema ints
       small_notebook at_start = Some (Inr (out, snap, found), w)
     \<and> result_committed out = [''a'', ''b''] \<and> snap_id snap = result_snapshot_id out
     \<and> (\<exists>v. chosen_group small_notebook found = (Inr v :: (string list) exn + _)
          \<and> (\<forall>p. v = JStr p \<longrightarrow> granule_path p \<and> holds_node L0 cog_store (remote snap) (snap_id snap) p))"
proof -
  obtain out snap found where run:
      "hls_notebook small_archive logged_in L0 cog_store path_batch constant_hash some_schema ints small_notebook at_start
       = Some (Inr (out, snap, found), snd last_cells)"
    and facts: "result_committed out = [''a'', ''b'']" "length (table_rows found) = 2"
      "column_names found = [''array_path'', ''eo:cloud_cover'']"
    by (rule notebook_returns)
  have ids: "\<exists>g. row_id row = (Inr g :: (string list) exn + string) \<and> plain_component g"
    if "open_archive small_archive ''HLSL30_2.0'' ''v2'' ''us-west-2'' = (Inr a :: (string list) exn + _)"
      "row \<in> set (table_content small_archive a)" for a row
    using that by (auto simp: open_archive_def small_archive_def listed_def record_ids plain_component_def)
  have start: "sound L0 cog_store (\<lambda>m. mset (ref_rows m)) name_path ''granules'' r"
    if "open_repository small_notebook path c creds = Inr r" for path c creds r
    using that fresh_sound by (simp add: small_notebook_def)
  have cols: "''eo:cloud_cover'' \<in> set (column_names found)" "''array_path'' \<in> set (column_names found)"
    by (simp_all add: facts(3))
  note all = notebook_opens_published [OF small_archive_laws ref_alone_laws alone_lone ref_zarr_law ref_rows_law ref_plain_name
      cog_laws cog_tree_law cog_pyramid_law path_batch_laws small_frame_law _ _ run cols, THEN conjunct2, THEN conjunct2]
  have "snap_id snap = result_snapshot_id out"
    by (rule all [THEN conjunct1]) (erule (1) ids, erule start)
  moreover have "\<exists>v. chosen_group small_notebook found = (Inr v :: (string list) exn + _)
      \<and> (\<forall>p. v = JStr p \<longrightarrow> granule_path p \<and> holds_node L0 cog_store (remote snap) (snap_id snap) p)"
    by (rule all [THEN conjunct2, THEN conjunct2]) (erule (1) ids, erule start)
  ultimately show ?thesis using run facts(1) by blast
qed

end
