(* ===== verification/Spec2Isabelle.thy ===== *)
theory Spec2Isabelle
  imports Demo_Witnesses Script_Run Notebook_Run
begin

text \<open>
  A model of icechest (\<open>src/src/icechest/\<close>), which publishes Zarr arrays and Iceberg tables together:
  a table's current \<open>metadata.json\<close> is named by a pointer map kept in the metadata of Icechunk
  commits, so that one Icechunk commit moves arrays and tables at once. The demo
  (\<open>src/src/icechest/demo/\<close>) ingests satellite granules on top of it.

  \<^bold>\<open>How programs are modelled.\<close> A method is a function from a state to a result and the next state
  (\<open>pgm\<close>, in \<open>Prelude\<close>): a result is \<open>Inl e\<close> for a raised exception, with the state as it was when it
  was raised, or \<open>Inr x\<close> for a returned value. Objects are records, subclassing and composition are
  record extension (\<open>process\<close>, \<open>catalog_state\<close>, \<open>transaction\<close>, \<open>hybrid_snapshot\<close>) or a field
  (\<open>batch\<close>). Dictionaries are association lists in insertion order. Icechunk, Zarr, PyIceberg,
  pyarrow, VirtualiZarr, obstore and the login are not in the repository: their functions are fields
  of records (\<open>iceberg_lib\<close> in \<open>External\<close>, \<open>store_lib\<close>, \<open>archive_lib\<close>, \<open>auth_lib\<close>,
  \<open>stac_hash_lib\<close>, \<open>schema_lib\<close>, \<open>batch_lib\<close>) that every definition using them takes as an
  argument, and what they document are named hypotheses (\<open>commit_law\<close>, \<open>storage_law\<close>,
  \<open>write_law\<close> and so on). Other processes act between two calls of this one: \<open>others L n r\<close> is what they
  have made of the world \<open>r\<close> before its \<open>n\<close>-th call that reads or moves a branch.

  \<^bold>\<open>The library.\<close> \<open>Prelude\<close>: programs, loops, dictionaries, decimal numerals, and the interfaces
  \<open>step_frame\<close> (a reflexive, transitive relation that the steps of a program keep, with the rule for
  each program constructor proved once), \<open>codec\<close> (encode and decode) and \<open>pointer_overlay\<close> (staged
  pointers over base pointers). Each is interpreted on the model: \<open>step_frame\<close> on the frames of the
  catalog, of staging, of reading, of a batch and of the store; \<open>codec\<close> on table bindings, hrefs and
  numerals; \<open>pointer_overlay\<close> on the catalog. \<open>Errors\<close> and \<open>Json\<close>: \<open>errors.py\<close> and the values of
  attributes and records. \<open>Pointer\<close> (\<open>pointer.py\<close>) and \<open>Convention\<close> (\<open>convention.py\<close>): the pointer
  map in a commit's metadata, and the declaration of tables on the Zarr group.

  \<^bold>\<open>Tables and transactions.\<close> \<open>Catalog\<close> (\<open>catalog.py\<close>): \<open>IcechunkCatalog\<close>, its staged pointers and every
  operation of PyIceberg's interface. \<open>Validation\<close> (\<open>validation.py\<close>): which snapshots of a window may
  have added matching rows. \<open>Transaction\<close> and \<open>Commit\<close> (\<open>transaction.py\<close>): intents, staging, the
  anchors of validation windows, the retry loop with its recovery, the context manager. \<open>Repo\<close>:
  \<open>HybridRepo\<close> and \<open>HybridSnapshot\<close>. What is shown:
  \<^item> \<open>Atomicity\<close>: a commit is one step of one branch, arrays and tables together, or nothing, whoever
    else commits;
  \<^item> \<open>Serial\<close> and \<open>Rows\<close>: what it publishes is the replay of its intents on its parent's tables, down
    to the rows, against an abstract specification of the intents on bags of rows;
  \<^item> \<open>Resolves\<close> and \<open>Lifecycle\<close>: no pointer dangles; transactions built through the API (the
    inductive predicate \<open>tx_ready\<close>) have their windows anchored and are serialisable;
  \<^item> \<open>Guards\<close>: replayed removals are checked, foreign work is never dropped, which exceptions a commit
    raises and when, how many calls it makes, what a failed \<open>with\<close> block leaves.

  The theorems on serialisability, and those on batches that rest on them, assume that no rival commits
  between the two calls of a recovery (\<open>no_writer_between\<close>): \<open>recovery_race_loses_update\<close> in \<open>Serial\<close>
  shows that the code loses a rival's update there, and \<open>Witnesses\<close> runs such a race.

  \<^bold>\<open>The demo.\<close> \<open>Arrow\<close> (tables as rows, Python's operations on their values), \<open>Assets\<close>
  (\<open>assets.py\<close>), \<open>Tiff\<close> (\<open>tiff.py\<close>, on lists of \<open>8 word\<close>), \<open>Hash\<close> (\<open>hash.py\<close>), \<open>Granule_Attrs\<close>
  (\<open>demo/conventions.py\<close>), \<open>Source\<close> (\<open>source.py\<close>), \<open>Credentials\<close> (\<open>credentials.py\<close>), \<open>Store\<close>
  (\<open>store.py\<close>), \<open>Virtualize\<close> (\<open>virtualize.py\<close>) and \<open>Ingest\<close> (\<open>ingest.py\<close>, and \<open>write_granule\<close> of
  \<open>virtualize.py\<close>). \<open>Ingest_Rows\<close> joins a batch to the row-level specification of its commit. \<open>Nodes\<close>
  and \<open>Paired\<close> join the two halves of the package: \<open>paired\<close> says that no row of a table, in any
  snapshot, names arrays that the snapshot does not hold; \<open>commit_sound\<close> shows that a commit keeps it,
  with Icechunk's sessions and rebases as documented (\<open>nodes_law\<close>), and \<open>ingest_batch_paired\<close> that a
  batch does, however it ends, if the other writers do and none lands inside a recovery. What else is shown: the URL forms of one asset agree with the
  container a reader opens; selection keeps the rows the arguments describe; hashes and blocks are
  bounded; the pyramid a band group declares is the one written; creating the table and ingesting a
  batch publish all or nothing; a batch accounts for each of its rows, commits exactly what it staged
  and leaves nothing of a granule that failed, unless the reason recorded for it says that the clean-up
  failed too.

  \<^bold>\<open>The examples.\<close> \<open>Lone\<close> holds what both share: a repository that nobody else works on, where a
  snapshot read or a block committed between two steps is the one just published.
  \<open>Concurrent_Writers\<close> is \<open>examples/concurrent_writers.py\<close>, several transactions held
  at once and interleaved: \<open>script_report\<close> shows what the script prints, from the laws of the
  libraries alone, and \<open>Script_Run\<close> runs it on the reference instance. \<open>Hls_Notebook\<close> is
  \<open>examples/hls_ingest.ipynb\<close>, one definition per cell: the archive, one record and its file's levels,
  the store and its table, the batch, the rows read back, the granule to open.
  \<open>notebook_opens_published\<close> composes the theorems on those parts: at most five records of the
  archive are committed, and the group that the last cell opens is a node of the snapshot that the
  batch published. \<open>Notebook_Run\<close> runs it.

  \<^bold>\<open>Bounds and loops.\<close> The retry loop runs over the list \<open>[0..max_retries]\<close>, as the code's \<open>range\<close> does;
  no fuel is used. The walk over a TIFF's directories is a \<open>partial_function\<close>, because it need not
  end: \<open>parse_ifds_behaviour\<close> says exactly when it is \<open>None\<close>. Python's integers are \<open>int\<close> or \<open>nat\<close>;
  the 64-bit Arrow columns check their range; bytes are words.

  \<^bold>\<open>Witnesses.\<close> \<open>Reference\<close> is one small instance of the parameters that satisfies every law,
  \<open>Scenario\<close> two writers running this program on it, \<open>Witnesses\<close> and \<open>Demo_Witnesses\<close> each theorem
  applied to a concrete run, the latter with small stores, scans and hashers of its own.

  \<^bold>\<open>Not modelled.\<close> The package's entry points only re-export. The notebook's displays of values that
  were computed before and its plot are left out, as are its outputs, which the file stores, and an
  older copy of it that the editor kept. The wording of the built-in exceptions is left out (their
  data is kept). Floating-point arithmetic is abstract. What PyIceberg does inside \<open>append\<close>, \<open>delete\<close> and
  \<open>overwrite\<close> before it calls the catalog is a parameter; what it does after, the deletion of old
  metadata files, is left out: the catalog's safety properties turn it off unless a caller overrides
  them. Making a catalog's \<open>FileIO\<close> is taken not to fail. A record's id is taken to be a string, as
  the archive's schema makes it.
\<close>

end
